(* ===== verification/Prelude.thy ===== *)
theory Prelude
  imports Main
begin

text \<open>
  Shared vocabulary of the development: the lemma collections the component theories fill, the
  result type of a call that may fail, and the generic facts on lists and relations that more
  than one component uses.
\<close>

text \<open>\<open>text_defs\<close> holds the small string constants of the code.\<close>

named_theorems text_defs

text \<open>A Go call with results \<open>(T, error)\<close>: \<open>Inl\<close> the error, \<open>Inr\<close> the value.\<close>

type_synonym ('e, 'a) result = "'e + 'a"

text \<open>Go reads a missing key of a \<open>map[string]string\<close> as the empty string.\<close>

definition map_get :: "(string \<rightharpoonup> string) \<Rightarrow> string \<Rightarrow> string" where
  "map_get m k = (case m k of None \<Rightarrow> [] | Some v \<Rightarrow> v)"

lemma map_get_Some [simp]: "m k = Some v \<Longrightarrow> map_get m k = v"
  by (simp add: map_get_def)

lemma map_get_None [simp]: "m k = None \<Longrightarrow> map_get m k = []"
  by (simp add: map_get_def)

lemma map_get_upd [simp]: "map_get (m(k \<mapsto> v)) k' = (if k' = k then v else map_get m k')"
  by (simp add: map_get_def)

lemma find_SomeD: "find P xs = Some x \<Longrightarrow> x \<in> set xs \<and> P x"
  by (induction xs) (auto split: if_splits)

subsection \<open>Relations\<close>

text \<open>A set closed under a relation is closed under its transitive closure.\<close>

lemma closed_trancl:
  assumes "r `` A \<subseteq> A" and "(x, y) \<in> r\<^sup>+" and "x \<in> A"
  shows "y \<in> A"
  using assms(2,3,1) by (induction rule: trancl_induct) auto

end
