(* ===== verification/Go_Time.thy ===== *)
theory Go_Time
  imports Prelude
begin

text \<open>
  The part of Go's \<open>time\<close> package the controllers use. A \<open>time.Time\<close> is a wall instant in
  nanoseconds since the epoch, a location, and the monotonic reading that \<open>time.Now\<close> attaches and
  that decoding from JSON never has. Record equality is what \<open>reflect.DeepEqual\<close> compares:
  representation, not instant. Durations are \<open>int64\<close> nanoseconds.
\<close>

datatype go_loc = LocUTC | LocLocal | LocFixed int

record gotime =
  t_Wall :: int
  t_Loc :: go_loc
  t_Mono :: "int option"

text \<open>The zero \<open>time.Time\<close>: 1 January of year 1, UTC.\<close>

definition zero_time :: gotime where
  "zero_time = \<lparr>t_Wall = - 62135596800000000000, t_Loc = LocUTC, t_Mono = None\<rparr>"

text \<open>\<open>(*metav1.Time).IsZero\<close>: a nil pointer or the zero instant.\<close>

definition time_is_zero :: "gotime option \<Rightarrow> bool" where
  "time_is_zero t = (case t of None \<Rightarrow> True | Some x \<Rightarrow> t_Wall x = t_Wall zero_time)"

subsection \<open>int64 durations\<close>

definition int64_min :: int where "int64_min = - (2 ^ 63)"
definition int64_max :: int where "int64_max = 2 ^ 63 - 1"

text \<open>Two's complement wrap-around of an \<open>int64\<close> result.\<close>

definition wrap64 :: "int \<Rightarrow> int" where
  "wrap64 x = (x + 2 ^ 63) mod 2 ^ 64 - 2 ^ 63"

lemma wrap64_range: "int64_min \<le> wrap64 x \<and> wrap64 x \<le> int64_max"
  by (simp add: wrap64_def int64_min_def int64_max_def)

lemma wrap64_id: "int64_min \<le> x \<Longrightarrow> x \<le> int64_max \<Longrightarrow> wrap64 x = x"
  by (simp add: wrap64_def int64_min_def int64_max_def)

text \<open>\<open>time.Second\<close> and \<open>time.Duration(n) * time.Second\<close>, a multiplication of \<open>int64\<close> values.\<close>

definition second :: int where "second = 1000000000"

definition seconds :: "int \<Rightarrow> int" where
  "seconds n = wrap64 (n * second)"

text \<open>The largest whole number of seconds a \<open>time.Duration\<close> holds.\<close>

definition max_seconds :: int where "max_seconds = 9223372036"

lemma seconds_exact: "0 \<le> n \<Longrightarrow> n \<le> max_seconds \<Longrightarrow> seconds n = n * second"
  by (simp add: seconds_def second_def max_seconds_def wrap64_id int64_min_def int64_max_def)

subsection \<open>Time.Add and time.Until\<close>

text \<open>
  \<open>Time.Add\<close> moves the wall instant and the monotonic reading, which is dropped when it would
  overflow. \<open>Time.Sub\<close> uses the monotonic readings when both times have one and saturates at the
  ends of \<open>int64\<close>; \<open>time.Until(t)\<close> is \<open>t.Sub(time.Now())\<close>.
\<close>

definition time_add :: "gotime \<Rightarrow> int \<Rightarrow> gotime" where
  "time_add t d =
     t\<lparr>t_Wall := t_Wall t + d,
       t_Mono := (case t_Mono t of None \<Rightarrow> None
                  | Some m \<Rightarrow> if int64_min \<le> m + d \<and> m + d \<le> int64_max then Some (m + d) else None)\<rparr>"

definition clamp64 :: "int \<Rightarrow> int" where
  "clamp64 x = (if x < int64_min then int64_min else if int64_max < x then int64_max else x)"

definition time_sub :: "gotime \<Rightarrow> gotime \<Rightarrow> int" where
  "time_sub t u =
     (case (t_Mono t, t_Mono u) of (Some m, Some n) \<Rightarrow> clamp64 (m - n) | _ \<Rightarrow> clamp64 (t_Wall t - t_Wall u))"

definition time_until :: "gotime \<Rightarrow> gotime \<Rightarrow> int" where
  "time_until t now = time_sub t now"

lemma clamp64_le_0 [simp]: "clamp64 x \<le> 0 \<longleftrightarrow> x \<le> 0"
  by (simp add: clamp64_def int64_min_def int64_max_def)

lemma clamp64_id: "int64_min \<le> x \<Longrightarrow> x \<le> int64_max \<Longrightarrow> clamp64 x = x"
  by (simp add: clamp64_def)

lemma time_until_wall:
  "t_Mono t = None \<Longrightarrow> time_until t u = clamp64 (t_Wall t - t_Wall u)"
  by (simp add: time_until_def time_sub_def)

lemma time_add_simps [simp]:
  "t_Wall (time_add t d) = t_Wall t + d"
  "t_Loc (time_add t d) = t_Loc t"
  "t_Mono t = None \<Longrightarrow> t_Mono (time_add t d) = None"
  by (simp_all add: time_add_def)

end
