(* ===== verification/Api_Types.thy ===== *)
theory Api_Types
  imports Go_Time
begin

text \<open>
  The API group \<open>agents.governed.io/v1alpha1\<close> (src/api/v1alpha1) and the parts of the Kubernetes
  object metadata and conditions its objects embed. Each Go struct is a record with the same
  fields under a prefix; a Go \<open>int\<close> or \<open>int64\<close> is an \<open>int\<close> (the one place where the width matters,
  the TTL multiplication, wraps explicitly); a pointer is an \<open>option\<close>. A slice is a list, a nil
  slice being the empty list, except for \<open>NodeStates\<close>, where \<open>reflect.DeepEqual\<close> tells a nil slice
  from an empty one: it is an \<open>option\<close>. \<open>AgentRunPhase\<close> is a Go string type and stays a string, so
  that the empty phase of a new object and phases outside the enumeration are values of it.
\<close>

subsection \<open>Kubernetes metadata and conditions\<close>

text \<open>
  The fields of \<open>metav1.ObjectMeta\<close> the controllers touch. \<open>om_ResourceVersion\<close> is the API server's
  opaque version of the object; the controllers only pass it back.
\<close>

record object_meta =
  om_Name :: string
  om_Namespace :: string
  om_UID :: string
  om_ResourceVersion :: nat
  om_Generation :: int
  om_DeletionTimestamp :: "gotime option"
  om_Labels :: "string \<rightharpoonup> string"
  om_Finalizers :: "string list"

record condition =
  cond_Type :: string
  cond_Status :: string
  cond_ObservedGeneration :: int
  cond_LastTransitionTime :: gotime
  cond_Reason :: string
  cond_Message :: string

definition ConditionTrue :: string where [text_defs]: "ConditionTrue = ''True''"
definition ConditionFalse :: string where [text_defs]: "ConditionFalse = ''False''"
definition ConditionUnknown :: string where [text_defs]: "ConditionUnknown = ''Unknown''"

text \<open>A \<open>metav1.Condition\<close> literal of the code: type, status, reason, message, observed generation.\<close>

definition condition_lit :: "string \<Rightarrow> string \<Rightarrow> string \<Rightarrow> string \<Rightarrow> int \<Rightarrow> condition" where
  "condition_lit ty st reason msg gen =
     \<lparr>cond_Type = ty, cond_Status = st, cond_ObservedGeneration = gen,
      cond_LastTransitionTime = zero_time, cond_Reason = reason, cond_Message = msg\<rparr>"

lemma condition_lit_simps [simp]:
  "cond_Type (condition_lit ty st r m g) = ty"
  "cond_Status (condition_lit ty st r m g) = st"
  "cond_Reason (condition_lit ty st r m g) = r"
  "cond_Message (condition_lit ty st r m g) = m"
  "cond_ObservedGeneration (condition_lit ty st r m g) = g"
  "cond_LastTransitionTime (condition_lit ty st r m g) = zero_time"
  by (simp_all add: condition_lit_def)

subsection \<open>agent_types.go\<close>

record tool_ref =
  tool_Ref :: string

record model_ref =
  mr_ProviderRef :: string
  mr_Model :: string
  mr_MaxTokens :: int

record agent_runtime =
  rt_Engine :: string
  rt_Role :: string
  rt_Image :: string

record sandbox_spec =
  sb_Mode :: string
  sb_RuntimeClassName :: string
  sb_NetworkEgress :: "string list"
  sb_PersistentVolumeSizeGi :: int
  sb_IdleTimeoutSeconds :: int

record budget_spec =
  bs_MaxConcurrentRuns :: int
  bs_MaxTokensPerRun :: int
  bs_MaxRunsPerDay :: int

record agent_spec =
  as_DisplayName :: string
  as_ProjectID :: string
  as_Runtime :: agent_runtime
  as_Model :: model_ref
  as_Tools :: "tool_ref list"
  as_PolicyRef :: string
  as_Sandbox :: sandbox_spec
  as_Budget :: budget_spec

record agent_status =
  ags_Ready :: bool
  ags_ObservedGeneration :: int
  ags_Conditions :: "condition list"

record agent =
  ag_Meta :: object_meta
  ag_Spec :: agent_spec
  ag_Status :: agent_status

subsection \<open>tenantpolicy_types.go\<close>

record policy_rule =
  pr_Resources :: "string list"
  pr_Verbs :: "string list"

record network_policy_spec =
  np_EgressAllowed :: "string list"
  np_DefaultDenyEgress :: bool

record budget =
  bu_MaxTokensPerDay :: int
  bu_MaxRunsPerDay :: int
  bu_MaxConcurrentRuns :: int

record tenant_policy_spec =
  tps_AllowedTools :: "string list"
  tps_AllowedModels :: "string list"
  tps_Network :: network_policy_spec
  tps_Budget :: budget
  tps_ApprovalLevel :: string
  tps_Rules :: "policy_rule list"
  tps_PolicyVersion :: string

record tenant_policy_status =
  tpst_ObservedGeneration :: int
  tpst_Active :: bool
  tpst_Conditions :: "condition list"

record tenant_policy =
  tp_Meta :: object_meta
  tp_Spec :: tenant_policy_spec
  tp_Status :: tenant_policy_status

subsection \<open>agentrun_types.go\<close>

record dag_node =
  dn_Name :: string
  dn_Role :: string
  dn_DependsOn :: "string list"
  dn_Prompt :: string

record dag_spec =
  dag_Nodes :: "dag_node list"

record retry_policy =
  rp_MaxAttempts :: int

record agent_run_input =
  in_Task :: string

record agent_run_spec =
  ars_AgentRef :: string
  ars_Input :: agent_run_input
  ars_DAG :: "dag_spec option"
  ars_RetryPolicy :: retry_policy
  ars_TTLSecondsAfterFinished :: int
  ars_IdempotencyKey :: string
  ars_Cancel :: bool

type_synonym agent_run_phase = string

definition AgentRunQueued :: agent_run_phase where [text_defs]: "AgentRunQueued = ''Queued''"
definition AgentRunRunning :: agent_run_phase where [text_defs]: "AgentRunRunning = ''Running''"
definition AgentRunSucceeded :: agent_run_phase where [text_defs]: "AgentRunSucceeded = ''Succeeded''"
definition AgentRunFailed :: agent_run_phase where [text_defs]: "AgentRunFailed = ''Failed''"
definition AgentRunCancelled :: agent_run_phase where [text_defs]: "AgentRunCancelled = ''Cancelled''"

record node_state =
  ns_Name :: string
  ns_Phase :: agent_run_phase
  ns_StartedAt :: "gotime option"
  ns_FinishedAt :: "gotime option"
  ns_ResultRef :: string

record agent_run_status =
  st_Phase :: agent_run_phase
  st_ObservedGeneration :: int
  st_Conditions :: "condition list"
  st_NodeStates :: "node_state list option"
  st_Attempts :: int
  st_StartedAt :: "gotime option"
  st_FinishedAt :: "gotime option"
  st_TraceID :: string
  st_BackendRunID :: string
  st_ResultRef :: string
  st_ErrorCode :: string
  st_Message :: string

record agent_run =
  run_Meta :: object_meta
  run_Spec :: agent_run_spec
  run_Status :: agent_run_status

text \<open>The core \<open>Namespace\<close> object: the controllers read its labels only.\<close>

record namespace =
  nsp_Labels :: "string \<rightharpoonup> string"

text \<open>\<open>client.ObjectKey\<close>: namespace and name.\<close>

record object_key =
  ok_Namespace :: string
  ok_Name :: string

definition key_of :: "object_meta \<Rightarrow> object_key" where
  "key_of m = \<lparr>ok_Namespace = om_Namespace m, ok_Name = om_Name m\<rparr>"

subsection \<open>Short forms for updates of the status of a run\<close>

abbreviation with_status :: "agent_run \<Rightarrow> (agent_run_status \<Rightarrow> agent_run_status) \<Rightarrow> agent_run" where
  "with_status run f \<equiv> run\<lparr>run_Status := f (run_Status run)\<rparr>"

lemma phases_distinct [simp]:
  "AgentRunQueued \<noteq> AgentRunRunning" "AgentRunRunning \<noteq> AgentRunQueued"
  "AgentRunQueued \<noteq> AgentRunSucceeded" "AgentRunSucceeded \<noteq> AgentRunQueued"
  "AgentRunQueued \<noteq> AgentRunFailed" "AgentRunFailed \<noteq> AgentRunQueued"
  "AgentRunQueued \<noteq> AgentRunCancelled" "AgentRunCancelled \<noteq> AgentRunQueued"
  "AgentRunRunning \<noteq> AgentRunSucceeded" "AgentRunSucceeded \<noteq> AgentRunRunning"
  "AgentRunRunning \<noteq> AgentRunFailed" "AgentRunFailed \<noteq> AgentRunRunning"
  "AgentRunRunning \<noteq> AgentRunCancelled" "AgentRunCancelled \<noteq> AgentRunRunning"
  "AgentRunSucceeded \<noteq> AgentRunFailed" "AgentRunFailed \<noteq> AgentRunSucceeded"
  "AgentRunSucceeded \<noteq> AgentRunCancelled" "AgentRunCancelled \<noteq> AgentRunSucceeded"
  "AgentRunFailed \<noteq> AgentRunCancelled" "AgentRunCancelled \<noteq> AgentRunFailed"
  by (simp_all add: text_defs)

lemma condition_statuses_distinct [simp]:
  "ConditionTrue \<noteq> ConditionFalse" "ConditionFalse \<noteq> ConditionTrue"
  "ConditionTrue \<noteq> ConditionUnknown" "ConditionUnknown \<noteq> ConditionTrue"
  "ConditionFalse \<noteq> ConditionUnknown" "ConditionUnknown \<noteq> ConditionFalse"
  by (simp_all add: text_defs)

end
