(* ===== verification/Go_Range.thy ===== *)
theory Go_Range
  imports Prelude "HOL-Library.Multiset"
begin

text \<open>
  The order in which a Go \<open>range\<close> loop visits the keys of a map. The language leaves it open and
  promises that each key is visited exactly once, so an order is any function that rearranges the
  list of keys. The type \<open>range_order\<close> holds these functions; a definition that ranges over a map
  takes one as an argument and its theorems hold for every order.
\<close>

typedef range_order = "{f :: string list \<Rightarrow> string list. \<forall>ks. mset (f ks) = mset ks}"
  morphisms visit_order Abs_range_order
  by (rule exI [of _ id]) simp

setup_lifting type_definition_range_order

lift_definition insertion_order :: range_order is "\<lambda>ks. ks"
  by simp

lift_definition reverse_order :: range_order is rev
  by simp

lemma mset_visit_order [simp]: "mset (visit_order r ks) = mset ks"
  using visit_order [of r] by simp

lemma set_visit_order [simp]: "set (visit_order r ks) = set ks"
  by (rule mset_eq_setD) simp

lemma distinct_visit_order [simp]: "distinct (visit_order r ks) = distinct ks"
  by (rule mset_eq_imp_distinct_iff) simp

lemma visit_insertion_order [simp]: "visit_order insertion_order ks = ks"
  by (simp add: insertion_order.rep_eq)

lemma visit_reverse_order [simp]: "visit_order reverse_order ks = rev ks"
  by (simp add: reverse_order.rep_eq)

end
