(* ===== verification/Go_Strings.thy ===== *)
theory Go_Strings
  imports Prelude
begin

text \<open>
  The string operations of the Go standard library that the controllers use, over byte strings:
  a Go \<open>string\<close> is a sequence of bytes, an Isabelle \<open>string\<close> is a list of 8-bit characters.
  \<^item> \<open>to_lower\<close> is \<open>strings.ToLower\<close> as far as a comparison with an ASCII word can see;
  \<^item> \<open>trim_right_slash\<close> is \<open>strings.TrimRight(s, "/")\<close>;
  \<^item> \<open>quote\<close> is \<open>strconv.Quote\<close>, what the verb \<open>%q\<close> prints, with its UTF-8 decoder;
  \<^item> \<open>itoa\<close> is the decimal rendering of \<open>%d\<close>.
\<close>

subsection \<open>strings.ToLower\<close>

definition byte :: "char \<Rightarrow> nat" where
  "byte c = of_char c"

definition lower_byte :: "char \<Rightarrow> char" where
  "lower_byte c = (if 65 \<le> byte c \<and> byte c \<le> 90 then char_of (byte c + 32) else c)"

text \<open>
  Beyond ASCII, Go lowers rune by rune with the Unicode tables. Exactly two runes outside ASCII
  have an ASCII lower case: U+0130 (bytes C4 B0) gives \<open>i\<close> and the Kelvin sign U+212A (bytes
  E2 84 AA) gives \<open>k\<close>. Every other rune outside ASCII is lowered to a rune outside ASCII; its
  bytes are left as they are here, so \<open>to_lower s\<close> equals a given ASCII word exactly when
  \<open>strings.ToLower(s)\<close> does, which is the one question \<open>projectPhase\<close> asks. A lead byte never
  occurs inside the encoding of another rune, so the two sequences are found at their own place.
\<close>

fun to_lower :: "string \<Rightarrow> string" where
  "to_lower [] = []"
| "to_lower (c # cs) =
     (if c = CHR 0xC4 \<and> take 1 cs = [CHR 0xB0] then CHR ''i'' # to_lower (drop 1 cs)
      else if c = CHR 0xE2 \<and> take 2 cs = [CHR 0x84, CHR 0xAA] then CHR ''k'' # to_lower (drop 2 cs)
      else lower_byte c # to_lower cs)"

lemma lower_byte_idem [simp]: "lower_byte (lower_byte c) = lower_byte c"
  by (simp add: lower_byte_def byte_def)

lemma lower_byte_ascii: "byte c < 128 \<Longrightarrow> byte (lower_byte c) < 128"
  by (simp add: lower_byte_def byte_def)

lemma to_lower_length: "length (to_lower s) \<le> length s"
  by (induction s rule: to_lower.induct) auto

lemma not_lead_byte: "byte c < 128 \<Longrightarrow> c \<noteq> CHR 0xC4 \<and> c \<noteq> CHR 0xE2"
  by (auto simp: byte_def)

text \<open>On ASCII strings lowering is bytewise.\<close>

lemma to_lower_ascii:
  "\<forall>c \<in> set s. byte c < 128 \<Longrightarrow> to_lower s = map lower_byte s"
  by (induction s rule: to_lower.induct) (auto dest: not_lead_byte)

subsection \<open>strings.TrimRight with the cutset of one slash\<close>

definition trim_right_slash :: "string \<Rightarrow> string" where
  "trim_right_slash s = rev (dropWhile (\<lambda>c. c = CHR ''/'') (rev s))"

lemma trim_right_slash_last:
  "trim_right_slash s \<noteq> [] \<Longrightarrow> last (trim_right_slash s) \<noteq> CHR ''/''"
  by (metis (mono_tags, lifting) hd_dropWhile last_rev dropWhile_eq_Nil_conv rev_is_Nil_conv
      trim_right_slash_def)

lemma trim_right_slash_no_slash: "trim_right_slash s \<noteq> p @ ''/''"
  using trim_right_slash_last [of s] by (metis append_is_Nil_conv last_snoc not_Cons_self2)

lemma trim_right_slash_Nil [simp]: "trim_right_slash [] = []"
  by (simp add: trim_right_slash_def)

lemma trim_right_slash_decomp:
  "\<exists>n. s = trim_right_slash s @ replicate n (CHR ''/'')"
proof -
  let ?p = "\<lambda>c. c = CHR ''/''"
  have "rev s = takeWhile ?p (rev s) @ dropWhile ?p (rev s)"
    by simp
  then have "s = rev (dropWhile ?p (rev s)) @ rev (takeWhile ?p (rev s))"
    by (metis rev_append rev_rev_ident)
  moreover have "takeWhile ?p (rev s) = replicate (length (takeWhile ?p (rev s))) (CHR ''/'')"
    by (rule replicate_eqI [symmetric, THEN sym]) (auto dest: set_takeWhileD)
  ultimately show ?thesis
    by (metis rev_replicate trim_right_slash_def)
qed

lemma trim_right_slash_idem [simp]: "trim_right_slash (trim_right_slash s) = trim_right_slash s"
  by (simp add: trim_right_slash_def)

subsection \<open>Decimal and hexadecimal digits\<close>

fun decimal :: "nat \<Rightarrow> string" where
  "decimal n = (if n < 10 then [char_of (48 + n)] else decimal (n div 10) @ [char_of (48 + n mod 10)])"

declare decimal.simps [simp del]

definition itoa :: "int \<Rightarrow> string" where
  "itoa i = (if i < 0 then CHR ''-'' # decimal (nat (- i)) else decimal (nat i))"

definition hex_digit :: "nat \<Rightarrow> char" where
  "hex_digit n = (if n < 10 then char_of (48 + n) else char_of (87 + n))"

primrec hex :: "nat \<Rightarrow> nat \<Rightarrow> string" where
  "hex 0 n = []"
| "hex (Suc k) n = hex k (n div 16) @ [hex_digit (n mod 16)]"

subsection \<open>UTF-8 decoding\<close>

text \<open>
  \<open>utf8.DecodeRuneInString\<close>: the first rune and its width; an invalid sequence is the
  replacement rune U+FFFD of width 1. The bounds of the second byte exclude overlong forms,
  surrogates and runes above U+10FFFF.
\<close>

definition cont :: "nat \<Rightarrow> bool" where
  "cont b \<longleftrightarrow> 0x80 \<le> b \<and> b \<le> 0xBF"

definition rune_error :: nat where
  "rune_error = 0xFFFD"

definition second_ok :: "nat \<Rightarrow> nat \<Rightarrow> bool" where
  "second_ok b0 b1 \<longleftrightarrow>
     (if b0 = 0xE0 then 0xA0 else if b0 = 0xF0 then 0x90 else 0x80) \<le> b1 \<and>
     b1 \<le> (if b0 = 0xED then 0x9F else if b0 = 0xF4 then 0x8F else 0xBF)"

definition decode_rune :: "string \<Rightarrow> nat \<times> nat" where
  "decode_rune s =
     (case map byte (take 4 s) of
        [] \<Rightarrow> (rune_error, 0)
      | b0 # bs \<Rightarrow>
          if b0 < 0x80 then (b0, 1)
          else if 0xC2 \<le> b0 \<and> b0 \<le> 0xDF then
            (case bs of b1 # _ \<Rightarrow> if cont b1 then ((b0 - 0xC0) * 64 + (b1 - 0x80), 2) else (rune_error, 1)
             | _ \<Rightarrow> (rune_error, 1))
          else if 0xE0 \<le> b0 \<and> b0 \<le> 0xEF then
            (case bs of b1 # b2 # _ \<Rightarrow>
               if second_ok b0 b1 \<and> cont b2
               then ((b0 - 0xE0) * 4096 + (b1 - 0x80) * 64 + (b2 - 0x80), 3) else (rune_error, 1)
             | _ \<Rightarrow> (rune_error, 1))
          else if 0xF0 \<le> b0 \<and> b0 \<le> 0xF4 then
            (case bs of b1 # b2 # b3 # _ \<Rightarrow>
               if second_ok b0 b1 \<and> cont b2 \<and> cont b3
               then ((b0 - 0xF0) * 262144 + (b1 - 0x80) * 4096 + (b2 - 0x80) * 64 + (b3 - 0x80), 4)
               else (rune_error, 1)
             | _ \<Rightarrow> (rune_error, 1))
          else (rune_error, 1))"

subsection \<open>strconv.Quote\<close>

text \<open>
  \<open>print_tab\<close> is the Unicode table behind \<open>unicode.IsPrint\<close>, asked for runes outside ASCII only.
\<close>

definition escape_rune :: "(nat \<Rightarrow> bool) \<Rightarrow> nat \<Rightarrow> string \<Rightarrow> string" where
  "escape_rune print_tab r raw =
     (if r = 0x22 \<or> r = 0x5C then [CHR 0x5C, char_of r]
      else if (if r < 0x80 then 0x20 \<le> r \<and> r \<le> 0x7E else print_tab r) then raw
      else if r = 7 then [CHR 0x5C, CHR ''a'']
      else if r = 8 then [CHR 0x5C, CHR ''b'']
      else if r = 12 then [CHR 0x5C, CHR ''f'']
      else if r = 10 then [CHR 0x5C, CHR ''n'']
      else if r = 13 then [CHR 0x5C, CHR ''r'']
      else if r = 9 then [CHR 0x5C, CHR ''t'']
      else if r = 11 then [CHR 0x5C, CHR ''v'']
      else if r < 0x20 \<or> r = 0x7F then CHR 0x5C # CHR ''x'' # hex 2 r
      else if r < 0x10000 then CHR 0x5C # CHR ''u'' # hex 4 r
      else CHR 0x5C # CHR ''U'' # hex 8 r)"

fun quote_body :: "(nat \<Rightarrow> bool) \<Rightarrow> string \<Rightarrow> string" where
  "quote_body p [] = []"
| "quote_body p (c # cs) =
     (let (r, w) = decode_rune (c # cs) in
      (if w = 1 \<and> r = rune_error then CHR 0x5C # CHR ''x'' # hex 2 (byte c)
       else escape_rune p r (take w (c # cs))) @ quote_body p (drop (w - 1) cs))"

definition quote :: "(nat \<Rightarrow> bool) \<Rightarrow> string \<Rightarrow> string" where
  "quote p s = CHR 0x22 # quote_body p s @ [CHR 0x22]"

definition plain_char :: "char \<Rightarrow> bool" where
  "plain_char c \<longleftrightarrow> 0x20 \<le> byte c \<and> byte c \<le> 0x7E \<and> byte c \<noteq> 0x22 \<and> byte c \<noteq> 0x5C"

text \<open>A name of printable ASCII characters without quote or backslash is quoted verbatim.\<close>

lemma quote_body_plain: "\<forall>c \<in> set s. plain_char c \<Longrightarrow> quote_body p s = s"
  by (induction s) (simp_all add: decode_rune_def plain_char_def escape_rune_def rune_error_def)

lemma quote_plain:
  "\<forall>c \<in> set s. plain_char c \<Longrightarrow> quote p s = CHR 0x22 # s @ [CHR 0x22]"
  by (simp add: quote_def quote_body_plain)

end
