(* ===== verification/Platform.thy ===== *)
theory Platform
  imports Api_Types Go_Range Go_Strings
begin

text \<open>
  What the controllers take from outside the repository, as parameters of the model.
  \<^item> \<open>platform\<close> collects pure third-party functions (\<open>uuid.Parse\<close>, \<open>meta.SetStatusCondition\<close>, the
    finalizer helpers of controller-runtime), the Unicode print table behind \<open>%q\<close>, and the orders
    the Go runtime chooses for \<open>range\<close> over a map.
  \<^item> \<open>kube\<close> is the Kubernetes client: one function per call the controllers make, each a step of
    an arbitrary world \<open>'w\<close> that returns a result or an API error. Writes return the object as the
    server sent it back, since the Go client decodes the response into the object it was given.
  The laws of the documented behaviour are predicates; theorems that need one name it as a
  hypothesis. The instances at the end serve the witnesses.
\<close>

subsection \<open>Kubernetes client\<close>

text \<open>An API error: what \<open>apierrors.IsNotFound\<close> says of it and its text.\<close>

record kube_error =
  ke_NotFound :: bool
  ke_Text :: string

record 'w kube =
  kGetNamespace :: "string \<Rightarrow> 'w \<Rightarrow> (kube_error, namespace) result \<times> 'w"
  kGetAgentRun :: "object_key \<Rightarrow> 'w \<Rightarrow> (kube_error, agent_run) result \<times> 'w"
  kGetAgent :: "object_key \<Rightarrow> 'w \<Rightarrow> (kube_error, agent) result \<times> 'w"
  kGetTenantPolicy :: "object_key \<Rightarrow> 'w \<Rightarrow> (kube_error, tenant_policy) result \<times> 'w"
  kUpdateAgentRun :: "agent_run \<Rightarrow> 'w \<Rightarrow> (kube_error, agent_run) result \<times> 'w"
  kUpdateAgentRunStatus :: "agent_run \<Rightarrow> 'w \<Rightarrow> (kube_error, agent_run) result \<times> 'w"
  kDeleteAgentRun :: "agent_run \<Rightarrow> 'w \<Rightarrow> kube_error option \<times> 'w"
  kUpdateAgentStatus :: "agent \<Rightarrow> 'w \<Rightarrow> (kube_error, agent) result \<times> 'w"
  kUpdateTenantPolicyStatus :: "tenant_policy \<Rightarrow> 'w \<Rightarrow> (kube_error, tenant_policy) result \<times> 'w"
  kListAgentRuns :: "string \<Rightarrow> 'w \<Rightarrow> (kube_error, agent_run list) result \<times> 'w"
  kListAgents :: "string \<Rightarrow> 'w \<Rightarrow> (kube_error, agent list) result \<times> 'w"

text \<open>\<open>ctrl.Result\<close> and the two results of a \<open>Reconcile\<close> call; durations in nanoseconds.\<close>

record ctrl_result =
  cr_Requeue :: bool
  cr_RequeueAfter :: int

definition empty_result :: ctrl_result where
  "empty_result = \<lparr>cr_Requeue = False, cr_RequeueAfter = 0\<rparr>"

definition requeue_now :: ctrl_result where
  "requeue_now = \<lparr>cr_Requeue = True, cr_RequeueAfter = 0\<rparr>"

definition requeue_after :: "int \<Rightarrow> ctrl_result" where
  "requeue_after d = \<lparr>cr_Requeue = False, cr_RequeueAfter = d\<rparr>"

lemma ctrl_results_distinct [simp]:
  "empty_result \<noteq> requeue_now" "requeue_now \<noteq> empty_result"
  "requeue_now \<noteq> requeue_after d" "requeue_after d \<noteq> requeue_now"
  "requeue_after d = empty_result \<longleftrightarrow> d = 0" "empty_result = requeue_after d \<longleftrightarrow> d = 0"
  "requeue_after d = requeue_after d' \<longleftrightarrow> d = d'"
  by (auto simp: empty_result_def requeue_now_def requeue_after_def)

text \<open>\<open>return ctrl.Result{}, client.IgnoreNotFound(err)\<close>\<close>

definition ignore_not_found :: "kube_error \<Rightarrow> (kube_error, ctrl_result) result" where
  "ignore_not_found e = (if ke_NotFound e then Inr empty_result else Inl e)"

subsection \<open>Third-party functions and choices of the runtime\<close>

record platform =
  uuid_ok :: "string \<Rightarrow> bool"
  set_cond :: "gotime \<Rightarrow> condition list \<Rightarrow> condition \<Rightarrow> condition list"
  contains_finalizer :: "string list \<Rightarrow> string \<Rightarrow> bool"
  add_finalizer :: "string list \<Rightarrow> string \<Rightarrow> string list"
  remove_finalizer :: "string list \<Rightarrow> string \<Rightarrow> string list"
  print_table :: "nat \<Rightarrow> bool"
  range_check :: range_order
  range_visit :: range_order

definition find_cond :: "condition list \<Rightarrow> string \<Rightarrow> condition option" where
  "find_cond cs ty = find (\<lambda>c. cond_Type c = ty) cs"

lemma find_cond_simps [simp]:
  "find_cond [] ty = None"
  "find_cond (c # cs) ty = (if cond_Type c = ty then Some c else find_cond cs ty)"
  by (simp_all add: find_cond_def)

lemma find_cond_None: "find_cond cs ty = None \<longleftrightarrow> ty \<notin> cond_Type ` set cs"
  by (induction cs) auto

text \<open>
  The documented behaviour of \<open>meta.SetStatusCondition(conditions, c)\<close> for a new condition without
  a transition time, called at time \<open>t\<close>: the condition of that type becomes \<open>c\<close>, with the old
  transition time when the status did not change and \<open>t\<close> otherwise; conditions of other types
  are kept; a new type is appended.
\<close>

definition set_cond_time :: "gotime \<Rightarrow> condition list \<Rightarrow> condition \<Rightarrow> gotime" where
  "set_cond_time t cs c =
     (case find_cond cs (cond_Type c) of
        Some old \<Rightarrow> if cond_Status old = cond_Status c then cond_LastTransitionTime old else t
      | None \<Rightarrow> t)"

definition set_cond_law :: "(gotime \<Rightarrow> condition list \<Rightarrow> condition \<Rightarrow> condition list) \<Rightarrow> bool" where
  "set_cond_law f \<longleftrightarrow>
     (\<forall>t cs c. cond_LastTransitionTime c = zero_time \<longrightarrow>
        find_cond (f t cs c) (cond_Type c) =
          Some (c\<lparr>cond_LastTransitionTime := set_cond_time t cs c\<rparr>) \<and>
        (\<forall>ty. ty \<noteq> cond_Type c \<longrightarrow> find_cond (f t cs c) ty = find_cond cs ty) \<and>
        map cond_Type (f t cs c) =
          (if cond_Type c \<in> cond_Type ` set cs then map cond_Type cs
           else map cond_Type cs @ [cond_Type c]))"

lemma set_cond_same:
  "set_cond_law f \<Longrightarrow> cond_LastTransitionTime c = zero_time \<Longrightarrow>
     find_cond (f t cs c) (cond_Type c) = Some (c\<lparr>cond_LastTransitionTime := set_cond_time t cs c\<rparr>)"
  by (simp add: set_cond_law_def)

lemma set_cond_other:
  "set_cond_law f \<Longrightarrow> cond_LastTransitionTime c = zero_time \<Longrightarrow> ty \<noteq> cond_Type c \<Longrightarrow>
     find_cond (f t cs c) ty = find_cond cs ty"
  by (simp add: set_cond_law_def)

lemma set_cond_types:
  "set_cond_law f \<Longrightarrow> cond_LastTransitionTime c = zero_time \<Longrightarrow>
     map cond_Type (f t cs c) =
       (if cond_Type c \<in> cond_Type ` set cs then map cond_Type cs else map cond_Type cs @ [cond_Type c])"
  by (simp add: set_cond_law_def)

text \<open>Conditions are a map keyed by type: two lists with distinct types that answer alike are equal.\<close>

definition conds_ok :: "condition list \<Rightarrow> bool" where
  "conds_ok cs \<longleftrightarrow> distinct (map cond_Type cs)"

lemma conds_ok_set_cond:
  assumes "set_cond_law f" and "cond_LastTransitionTime c = zero_time" and "conds_ok cs"
  shows "conds_ok (f t cs c)"
  using assms(3) by (auto simp: conds_ok_def set_cond_types [OF assms(1,2)])

lemma find_cond_nth:
  "conds_ok cs \<Longrightarrow> i < length cs \<Longrightarrow> find_cond cs (cond_Type (cs ! i)) = Some (cs ! i)"
proof (induction cs arbitrary: i)
  case (Cons a cs)
  then show ?case by (cases i) (auto simp: conds_ok_def)
qed simp

lemma conds_eqI:
  assumes "map cond_Type cs = map cond_Type ds" and "conds_ok cs"
    and "\<And>ty. find_cond cs ty = find_cond ds ty"
  shows "cs = ds"
proof (rule nth_equalityI)
  show len: "length cs = length ds" using assms(1) by (rule map_eq_imp_length_eq)
  fix i assume i: "i < length cs"
  have "cond_Type (cs ! i) = cond_Type (ds ! i)" using assms(1) i len by (metis nth_map)
  moreover have "conds_ok ds" using assms(1,2) by (simp add: conds_ok_def)
  ultimately show "cs ! i = ds ! i"
    using assms(2,3) find_cond_nth i len by (metis option.inject)
qed

text \<open>Setting again what is already set, at any time, changes nothing.\<close>

lemma set_cond_idem:
  assumes law: "set_cond_law f" and zero: "cond_LastTransitionTime c = zero_time" and ok: "conds_ok cs"
    and old: "find_cond cs (cond_Type c) = Some (c\<lparr>cond_LastTransitionTime := t\<rparr>)"
  shows "f t' cs c = cs"
proof (rule conds_eqI)
  have "cond_Type c \<in> cond_Type ` set cs" using old by (metis find_cond_None option.distinct(1))
  then show "map cond_Type (f t' cs c) = map cond_Type cs"
    by (simp add: set_cond_types [OF law zero])
  show "conds_ok (f t' cs c)" using law zero ok by (rule conds_ok_set_cond)
  show "find_cond (f t' cs c) ty = find_cond cs ty" for ty
    by (cases "ty = cond_Type c")
       (simp_all add: set_cond_same [OF law zero] set_cond_other [OF law zero] old set_cond_time_def)
qed

lemma set_cond_twice:
  assumes "set_cond_law f" and "cond_LastTransitionTime c = zero_time" and "conds_ok cs"
  shows "f t' (f t cs c) c = f t cs c"
  by (rule set_cond_idem [OF assms(1,2) conds_ok_set_cond [OF assms] set_cond_same [OF assms(1,2)]])

text \<open>The documented behaviour of the three finalizer helpers, as sets of finalizers.\<close>

definition finalizer_law :: "platform \<Rightarrow> bool" where
  "finalizer_law P \<longleftrightarrow>
     (\<forall>fs f. contains_finalizer P fs f \<longleftrightarrow> f \<in> set fs) \<and>
     (\<forall>fs f. set (add_finalizer P fs f) = insert f (set fs)) \<and>
     (\<forall>fs f. set (remove_finalizer P fs f) = set fs - {f})"

subsection \<open>Instances for the witnesses\<close>

text \<open>
  Concrete functions with the documented behaviour, at which the hypotheses above hold. They stand
  for no code of the repository.
\<close>

fun sample_set_cond :: "gotime \<Rightarrow> condition list \<Rightarrow> condition \<Rightarrow> condition list" where
  "sample_set_cond t [] c = [c\<lparr>cond_LastTransitionTime := t\<rparr>]"
| "sample_set_cond t (old # cs) c =
     (if cond_Type old = cond_Type c
      then c\<lparr>cond_LastTransitionTime :=
               (if cond_Status old = cond_Status c then cond_LastTransitionTime old else t)\<rparr> # cs
      else old # sample_set_cond t cs c)"

lemma sample_set_cond_law: "set_cond_law sample_set_cond"
  unfolding set_cond_law_def
proof (intro allI impI conjI)
  fix t cs c ty
  show "find_cond (sample_set_cond t cs c) (cond_Type c) =
      Some (c\<lparr>cond_LastTransitionTime := set_cond_time t cs c\<rparr>)"
    by (induction cs) (auto simp: set_cond_time_def)
  show "map cond_Type (sample_set_cond t cs c) =
      (if cond_Type c \<in> cond_Type ` set cs then map cond_Type cs else map cond_Type cs @ [cond_Type c])"
    by (induction cs) auto
  show "find_cond (sample_set_cond t cs c) ty = find_cond cs ty" if "ty \<noteq> cond_Type c"
    using that by (induction cs) auto
qed

definition sample_platform :: platform where
  "sample_platform =
     \<lparr>uuid_ok = (\<lambda>s. length s = 36), set_cond = sample_set_cond,
      contains_finalizer = (\<lambda>fs f. f \<in> set fs),
      add_finalizer = (\<lambda>fs f. if f \<in> set fs then fs else fs @ [f]),
      remove_finalizer = (\<lambda>fs f. filter (\<lambda>g. g \<noteq> f) fs),
      print_table = (\<lambda>_. True), range_check = insertion_order, range_visit = insertion_order\<rparr>"

lemma sample_platform_simps [simp]:
  "uuid_ok sample_platform s \<longleftrightarrow> length s = 36"
  "set_cond sample_platform = sample_set_cond"
  "contains_finalizer sample_platform fs f \<longleftrightarrow> f \<in> set fs"
  "add_finalizer sample_platform fs f = (if f \<in> set fs then fs else fs @ [f])"
  "remove_finalizer sample_platform fs f = filter (\<lambda>g. g \<noteq> f) fs"
  "range_check sample_platform = insertion_order" "range_visit sample_platform = insertion_order"
  by (simp_all add: sample_platform_def)

lemma sample_finalizer_law: "finalizer_law sample_platform"
  by (auto simp: finalizer_law_def)

text \<open>A cluster without objects: every read fails with a not-found error, nothing changes.\<close>

definition not_found :: kube_error where
  "not_found = \<lparr>ke_NotFound = True, ke_Text = ''not found''\<rparr>"

definition empty_kube :: "'w kube" where
  "empty_kube =
     \<lparr>kGetNamespace = (\<lambda>_ w. (Inl not_found, w)), kGetAgentRun = (\<lambda>_ w. (Inl not_found, w)),
      kGetAgent = (\<lambda>_ w. (Inl not_found, w)), kGetTenantPolicy = (\<lambda>_ w. (Inl not_found, w)),
      kUpdateAgentRun = (\<lambda>_ w. (Inl not_found, w)), kUpdateAgentRunStatus = (\<lambda>_ w. (Inl not_found, w)),
      kDeleteAgentRun = (\<lambda>_ w. (Some not_found, w)), kUpdateAgentStatus = (\<lambda>_ w. (Inl not_found, w)),
      kUpdateTenantPolicyStatus = (\<lambda>_ w. (Inl not_found, w)),
      kListAgentRuns = (\<lambda>_ w. (Inr [], w)), kListAgents = (\<lambda>_ w. (Inr [], w))\<rparr>"

end
