(* ===== verification/Tenant_Context.thy ===== *)
theory Tenant_Context
  imports Platform
begin

text \<open>
  \<open>tenantIDFor\<close> of src/controllers/tenant_context.go, shared by the three controllers: the tenant of
  a namespaced object is the UUID on its Namespace, and the object must repeat it.
\<close>

definition TenantIDLabel :: string where [text_defs]:
  "TenantIDLabel = ''agents.governed.io/tenant-id''"

datatype tenant_error =
    NamespaceUnreadable kube_error
  | NamespaceNotBound
  | TenantLabelMismatch

definition tenantIDFor ::
  "platform \<Rightarrow> 'w kube \<Rightarrow> object_meta \<Rightarrow> 'w \<Rightarrow> (tenant_error, string) result \<times> 'w" where
  "tenantIDFor P K object w =
     (case kGetNamespace K (om_Namespace object) w of
        (Inl err, w1) \<Rightarrow> (Inl (NamespaceUnreadable err), w1)
      | (Inr namespace, w1) \<Rightarrow>
          let namespaceTenantID = map_get (nsp_Labels namespace) TenantIDLabel in
          if \<not> uuid_ok P namespaceTenantID then (Inl NamespaceNotBound, w1)
          else if map_get (om_Labels object) TenantIDLabel \<noteq> namespaceTenantID
               then (Inl TenantLabelMismatch, w1)
          else (Inr namespaceTenantID, w1))"

text \<open>The texts of the three errors.\<close>

definition tenant_error_text :: "platform \<Rightarrow> tenant_error \<Rightarrow> string" where
  "tenant_error_text P e =
     (case e of
        NamespaceUnreadable err \<Rightarrow> ''read Namespace tenant binding: '' @ ke_Text err
      | NamespaceNotBound \<Rightarrow>
          ''Namespace label '' @ quote (print_table P) TenantIDLabel @ '' must be a tenant UUID''
      | TenantLabelMismatch \<Rightarrow> ''resource tenant label must match its Namespace tenant binding'')"

text \<open>
  The contract the controllers rely on: a resolved tenant is an admissible identifier, it is the one
  the administrator put on the Namespace (\<open>bound\<close>), and it is the object's own label. Two objects
  of one namespace that both resolve therefore carry the same tenant.
\<close>

locale tenant_resolver =
  fixes resolve :: "object_meta \<Rightarrow> 'w \<Rightarrow> (tenant_error, string) result \<times> 'w"
    and bound :: "string \<Rightarrow> 'w \<Rightarrow> string option"
    and ident :: "string \<Rightarrow> bool"
  assumes resolve_bound: "resolve m w = (Inr tenant, w') \<Longrightarrow> bound (om_Namespace m) w = Some tenant"
    and resolve_label: "resolve m w = (Inr tenant, w') \<Longrightarrow> map_get (om_Labels m) TenantIDLabel = tenant"
    and resolve_ident: "resolve m w = (Inr tenant, w') \<Longrightarrow> ident tenant"
begin

lemma resolve_same_namespace:
  assumes "resolve m w = (Inr tenant, w')" and "resolve m' w = (Inr tenant', w'')"
    and "om_Namespace m = om_Namespace m'"
  shows "tenant = tenant'" and "map_get (om_Labels m) TenantIDLabel = map_get (om_Labels m') TenantIDLabel"
  using assms resolve_bound [OF assms(1)] resolve_bound [OF assms(2)]
    resolve_label [OF assms(1)] resolve_label [OF assms(2)] by simp_all

lemma resolve_relabelled:
  assumes "resolve m w = (Inr tenant, w')"
    and "map_get (om_Labels m') TenantIDLabel \<noteq> tenant" and "om_Namespace m = om_Namespace m'"
  shows "resolve m' w \<noteq> (Inr tenant', w'')"
  using assms resolve_same_namespace resolve_label by blast

end

text \<open>The tenant on a Namespace, as a read of it sees it.\<close>

definition bound_tenant :: "'w kube \<Rightarrow> string \<Rightarrow> 'w \<Rightarrow> string option" where
  "bound_tenant K ns w =
     (case fst (kGetNamespace K ns w) of
        Inl _ \<Rightarrow> None | Inr namespace \<Rightarrow> Some (map_get (nsp_Labels namespace) TenantIDLabel))"

lemma tenantIDFor_Inr:
  "tenantIDFor P K m w = (Inr tenant, w') \<longleftrightarrow>
     bound_tenant K (om_Namespace m) w = Some tenant \<and> uuid_ok P tenant \<and>
     map_get (om_Labels m) TenantIDLabel = tenant \<and> w' = snd (kGetNamespace K (om_Namespace m) w)"
  by (cases "kGetNamespace K (om_Namespace m) w")
     (auto simp: tenantIDFor_def bound_tenant_def Let_def split: sum.splits)

lemma tenantIDFor_fst:
  "fst (tenantIDFor P K m w) = Inr tenant \<longleftrightarrow>
     bound_tenant K (om_Namespace m) w = Some tenant \<and> uuid_ok P tenant \<and>
     map_get (om_Labels m) TenantIDLabel = tenant"
  by (cases "kGetNamespace K (om_Namespace m) w")
     (auto simp: tenantIDFor_def bound_tenant_def Let_def split: sum.splits)

interpretation tenant: tenant_resolver "tenantIDFor P K" "bound_tenant K" "uuid_ok P" for P K
  by unfold_locales (simp_all add: tenantIDFor_Inr)

subsection \<open>Properties\<close>

text \<open>
  \<open>tenantIDFor\<close> answers with a tenant exactly when the Namespace can be read, its tenant label
  is a UUID and the object repeats it; the answer is then the administrator's label.
\<close>

lemma tenantIDFor_binding:
  "fst (tenantIDFor P K m w) = Inr tenant \<longleftrightarrow>
     bound_tenant K (om_Namespace m) w = Some tenant \<and> uuid_ok P tenant \<and>
     map_get (om_Labels m) TenantIDLabel = tenant"
  by (rule tenantIDFor_fst)

text \<open>
  Changing only the tenant label of an object that resolves cannot select another tenant: the
  relabelled object resolves to no tenant at all.
\<close>

lemma relabelling_selects_no_tenant:
  assumes "fst (tenantIDFor P K m w) = Inr tenant" and "other \<noteq> tenant"
  shows "fst (tenantIDFor P K (m\<lparr>om_Labels := (om_Labels m)(TenantIDLabel \<mapsto> other)\<rparr>) w) = Inl TenantLabelMismatch"
proof -
  from assms(1) have "bound_tenant K (om_Namespace m) w = Some tenant" and "uuid_ok P tenant"
    by (simp_all only: tenantIDFor_fst)
  with assms(2) show ?thesis
    by (auto simp: tenantIDFor_def bound_tenant_def Let_def split: prod.splits sum.splits)
qed

definition sample_tenant :: string where
  "sample_tenant = ''aaaaaaaa-aaaa-aaaa-aaaa-aaaaaaaaaaaa''"

definition sample_meta :: object_meta where
  "sample_meta =
     \<lparr>om_Name = ''research-1'', om_Namespace = ''tenant-a'', om_UID = ''uid-1'', om_ResourceVersion = 0,
      om_Generation = 1, om_DeletionTimestamp = None,
      om_Labels = [TenantIDLabel \<mapsto> sample_tenant], om_Finalizers = []\<rparr>"

definition namespace_only :: "(string \<rightharpoonup> string) \<Rightarrow> 'w kube \<Rightarrow> 'w kube" where
  "namespace_only labels K = K\<lparr>kGetNamespace := (\<lambda>_ w. (Inr \<lparr>nsp_Labels = labels\<rparr>, w))\<rparr>"

theorem relabelling_selects_no_tenant_witness:
  "fst (tenantIDFor sample_platform (namespace_only [TenantIDLabel \<mapsto> sample_tenant] empty_kube)
      (sample_meta\<lparr>om_Labels := (om_Labels sample_meta)(TenantIDLabel \<mapsto> ''other'')\<rparr>) ()) =
     Inl TenantLabelMismatch"
  by (rule relabelling_selects_no_tenant [where tenant = sample_tenant])
     (simp_all add: tenantIDFor_def namespace_only_def sample_meta_def sample_tenant_def Let_def)

end
