(* ===== verification/Tenant_Policy_Controller.thy ===== *)
theory Tenant_Policy_Controller
  imports Tenant_Context
begin

text \<open>
  The TenantPolicy controller, src/controllers/tenantpolicy_controller.go: validation of the policy
  projection and the reconcile pass that records the verdict in the status, and writes the status
  only when it differs from what was read.
\<close>

subsection \<open>The code\<close>

text \<open>The map \<open>seen\<close> is the set of its keys.\<close>

fun hasDuplicates_from :: "string set \<Rightarrow> string list \<Rightarrow> bool" where
  "hasDuplicates_from seen [] = False"
| "hasDuplicates_from seen (value # values) =
     (if value \<in> seen then True else hasDuplicates_from (insert value seen) values)"

definition hasDuplicates :: "string list \<Rightarrow> bool" where
  "hasDuplicates values = hasDuplicates_from {} values"

definition validateTenantPolicy ::
  "platform \<Rightarrow> 'w kube \<Rightarrow> tenant_policy \<Rightarrow> 'w \<Rightarrow> (bool \<times> string \<times> string) \<times> 'w" where
  "validateTenantPolicy P K policy w =
     (case tenantIDFor P K (tp_Meta policy) w of
        (Inl err, w1) \<Rightarrow> ((False, ''InvalidTenantBinding'', tenant_error_text P err), w1)
      | (Inr _, w1) \<Rightarrow>
          let spec = tp_Spec policy in
          if tps_PolicyVersion spec = [] then
            ((False, ''PolicyVersionRequired'', ''spec.policyVersion is required for audit correlation''), w1)
          else if length (tps_AllowedModels spec) = 0 then
            ((False, ''NoAllowedModels'', ''spec.allowedModels must explicitly allow at least one model''), w1)
          else if hasDuplicates (tps_AllowedModels spec) \<or> hasDuplicates (tps_AllowedTools spec) then
            ((False, ''DuplicateAllowlistEntry'', ''allowedModels and allowedTools must not contain duplicates''), w1)
          else if \<not> np_DefaultDenyEgress (tps_Network spec) then
            ((False, ''DefaultDenyRequired'', ''spec.network.defaultDenyEgress must be true''), w1)
          else ((True, ''PolicyActive'', ''policy is valid; runtime enforcement is still required''), w1))"

text \<open>The status the pass computes from a verdict; \<open>t\<close> is the time \<open>SetStatusCondition\<close> reads.\<close>

definition policy_status_of ::
  "platform \<Rightarrow> gotime \<Rightarrow> tenant_policy \<Rightarrow> bool \<times> string \<times> string \<Rightarrow> tenant_policy_status" where
  "policy_status_of P t policy verdict =
     (case verdict of (active, reason, message) \<Rightarrow>
        let generation = om_Generation (tp_Meta policy);
            status1 = (tp_Status policy)\<lparr>tpst_Active := active, tpst_ObservedGeneration := generation\<rparr>;
            conditionStatus = (if active then ConditionTrue else ConditionFalse)
        in status1\<lparr>tpst_Conditions :=
             set_cond P t (tpst_Conditions status1)
               (condition_lit ''Active'' conditionStatus reason message generation)\<rparr>)"

definition reconcileTenantPolicy ::
  "platform \<Rightarrow> 'w kube \<Rightarrow> gotime \<Rightarrow> object_key \<Rightarrow> 'w \<Rightarrow> (kube_error, ctrl_result) result \<times> 'w" where
  "reconcileTenantPolicy P K t request w =
     (case kGetTenantPolicy K request w of
        (Inl err, w1) \<Rightarrow> (ignore_not_found err, w1)
      | (Inr policy, w1) \<Rightarrow>
          (case validateTenantPolicy P K policy w1 of
             (verdict, w2) \<Rightarrow>
               let before = tp_Status policy;
                   after = policy_status_of P t policy verdict
               in if before = after then (Inr empty_result, w2)
                  else (case kUpdateTenantPolicyStatus K (policy\<lparr>tp_Status := after\<rparr>) w2 of
                          (Inl err, w3) \<Rightarrow> (Inl err, w3)
                        | (Inr _, w3) \<Rightarrow> (Inr empty_result, w3))))"

subsection \<open>Duplicates\<close>

lemma hasDuplicates_from_iff:
  "hasDuplicates_from seen xs \<longleftrightarrow> \<not> distinct xs \<or> set xs \<inter> seen \<noteq> {}"
  by (induction seen xs rule: hasDuplicates_from.induct) auto

lemma hasDuplicates_iff: "hasDuplicates xs \<longleftrightarrow> \<not> distinct xs"
  by (simp add: hasDuplicates_def hasDuplicates_from_iff)

subsection \<open>Validity of a policy\<close>

definition policy_spec_ok :: "tenant_policy_spec \<Rightarrow> bool" where
  "policy_spec_ok s \<longleftrightarrow>
     tps_PolicyVersion s \<noteq> [] \<and> tps_AllowedModels s \<noteq> [] \<and> distinct (tps_AllowedModels s) \<and>
     distinct (tps_AllowedTools s) \<and> np_DefaultDenyEgress (tps_Network s)"

lemma validateTenantPolicy_active:
  "fst (fst (validateTenantPolicy P K policy w)) \<longleftrightarrow>
     (\<exists>tenant. fst (tenantIDFor P K (tp_Meta policy) w) = Inr tenant) \<and> policy_spec_ok (tp_Spec policy)"
  by (cases "tenantIDFor P K (tp_Meta policy) w")
     (auto simp: validateTenantPolicy_def Let_def policy_spec_ok_def hasDuplicates_iff split: sum.splits)

lemma validateTenantPolicy_world:
  "snd (validateTenantPolicy P K policy w) = snd (tenantIDFor P K (tp_Meta policy) w)"
  by (cases "tenantIDFor P K (tp_Meta policy) w")
     (auto simp: validateTenantPolicy_def Let_def split: sum.splits)

lemma policy_status_of_fields [simp]:
  "tpst_Active (policy_status_of P t policy (a, r, m)) = a"
  "tpst_ObservedGeneration (policy_status_of P t policy v) = om_Generation (tp_Meta policy)"
  by (simp_all add: policy_status_of_def Let_def split: prod.splits)

lemma policy_status_of_conds:
  "tpst_Conditions (policy_status_of P t policy (a, r, m)) =
     set_cond P t (tpst_Conditions (tp_Status policy))
       (condition_lit ''Active'' (if a then ConditionTrue else ConditionFalse) r m
          (om_Generation (tp_Meta policy)))"
  by (simp add: policy_status_of_def Let_def)

text \<open>Recording the same verdict again, at any time, gives the status that is already there.\<close>

lemma policy_status_of_idem:
  assumes law: "set_cond_law (set_cond P)" and ok: "conds_ok (tpst_Conditions (tp_Status policy))"
    and now: "tp_Status policy' = policy_status_of P t policy v"
    and gen: "om_Generation (tp_Meta policy') = om_Generation (tp_Meta policy)"
  shows "policy_status_of P t' policy' v = tp_Status policy'"
  by (cases v) (simp add: now gen policy_status_of_def Let_def set_cond_twice [OF law _ ok])

subsection \<open>Properties\<close>

text \<open>\<open>hasDuplicates\<close> answers whether a list holds some entry twice.\<close>

lemma hasDuplicates_correct: "hasDuplicates values \<longleftrightarrow> \<not> distinct values"
  by (rule hasDuplicates_iff)

text \<open>
  C36. The verdict of \<open>validateTenantPolicy\<close> is active exactly when the tenant binding resolves and
  the policy has a version, at least one allowed model, no duplicate in either allowlist, and denies
  egress by default.
\<close>

theorem policy_active_iff:
  "fst (fst (validateTenantPolicy P K policy w)) \<longleftrightarrow>
     (\<exists>tenant. fst (tenantIDFor P K (tp_Meta policy) w) = Inr tenant) \<and> policy_spec_ok (tp_Spec policy)"
  by (rule validateTenantPolicy_active)

text \<open>
  The pass is quiescent: when a policy is read back with the status an earlier pass computed for
  the same generation, and validation gives the same verdict, the pass performs its reads and then
  neither writes nor asks to be requeued, whatever the clock says.
\<close>

lemma policy_reconcile_quiescent:
  assumes "set_cond_law (set_cond P)" and "conds_ok (tpst_Conditions (tp_Status policy))"
    and "kGetTenantPolicy K request w = (Inr policy', w1)"
    and "tp_Status policy' = policy_status_of P t policy (fst (validateTenantPolicy P K policy' w1))"
    and "om_Generation (tp_Meta policy') = om_Generation (tp_Meta policy)"
  shows "reconcileTenantPolicy P K t' request w =
     (Inr empty_result, snd (tenantIDFor P K (tp_Meta policy') w1))"
proof -
  obtain verdict w2 where v: "validateTenantPolicy P K policy' w1 = (verdict, w2)"
    by (cases "validateTenantPolicy P K policy' w1")
  with policy_status_of_idem [OF assms(1,2,4,5)] assms(3) have
    "reconcileTenantPolicy P K t' request w = (Inr empty_result, w2)"
    by (simp add: reconcileTenantPolicy_def)
  with v show ?thesis by (metis snd_conv validateTenantPolicy_world)
qed

definition sample_policy :: tenant_policy where
  "sample_policy =
     \<lparr>tp_Meta = sample_meta,
      tp_Spec =
        \<lparr>tps_AllowedTools = [''rag-search'', ''memory-recall''], tps_AllowedModels = [''mock/mock''],
         tps_Network = \<lparr>np_EgressAllowed = [''llm-gateway''], np_DefaultDenyEgress = True\<rparr>,
         tps_Budget = \<lparr>bu_MaxTokensPerDay = 100000, bu_MaxRunsPerDay = 100, bu_MaxConcurrentRuns = 4\<rparr>,
         tps_ApprovalLevel = ''human'', tps_Rules = [], tps_PolicyVersion = ''1''\<rparr>,
      tp_Status = \<lparr>tpst_ObservedGeneration = 0, tpst_Active = False, tpst_Conditions = []\<rparr>\<rparr>"

definition sample_policy_verdict :: "bool \<times> string \<times> string" where
  "sample_policy_verdict = (True, ''PolicyActive'', ''policy is valid; runtime enforcement is still required'')"

definition settled_policy :: tenant_policy where
  "settled_policy =
     sample_policy\<lparr>tp_Status := policy_status_of sample_platform zero_time sample_policy sample_policy_verdict\<rparr>"

definition policy_kube :: "tenant_policy \<Rightarrow> 'w kube" where
  "policy_kube policy =
     (namespace_only [TenantIDLabel \<mapsto> sample_tenant] empty_kube)
       \<lparr>kGetTenantPolicy := (\<lambda>_ w. (Inr policy, w))\<rparr>"

lemma settled_policy_verdict:
  "validateTenantPolicy sample_platform (policy_kube settled_policy) settled_policy w =
     (sample_policy_verdict, w)"
  by (simp add: validateTenantPolicy_def tenantIDFor_def policy_kube_def namespace_only_def
      settled_policy_def sample_policy_def sample_meta_def sample_tenant_def sample_policy_verdict_def
      Let_def hasDuplicates_iff)

lemma settled_policy_simps:
  "tp_Status settled_policy = policy_status_of sample_platform zero_time sample_policy sample_policy_verdict"
  "tp_Meta settled_policy = tp_Meta sample_policy" "tpst_Conditions (tp_Status sample_policy) = []"
  by (simp_all add: settled_policy_def sample_policy_def)

lemma policy_reconcile_quiescent_sample:
  "reconcileTenantPolicy sample_platform (policy_kube settled_policy) zero_time (key_of sample_meta) () =
     (Inr empty_result, ())"
proof -
  have "reconcileTenantPolicy sample_platform (policy_kube settled_policy) zero_time (key_of sample_meta) () =
      (Inr empty_result, snd (tenantIDFor sample_platform (policy_kube settled_policy) (tp_Meta settled_policy) ()))"
    by (rule policy_reconcile_quiescent [where policy = sample_policy and t = zero_time])
       (simp_all add: sample_set_cond_law conds_ok_def settled_policy_simps settled_policy_verdict,
        simp add: policy_kube_def)
  then show ?thesis by simp
qed

end
