(* ===== verification/Agent_Controller.thy ===== *)
theory Agent_Controller
  imports Tenant_Policy_Controller
begin

text \<open>
  The Agent controller, src/controllers/agent_controller.go: validation of an Agent against its
  tenant, its sandbox contract and the TenantPolicy it names, the reconcile pass that records the
  verdict, and the map function that turns a policy event into requests.
\<close>

subsection \<open>The code\<close>

fun allowed :: "string list \<Rightarrow> string \<Rightarrow> bool" where
  "allowed [] candidate = False"
| "allowed (value # values) candidate = (if value = candidate then True else allowed values candidate)"

text \<open>The loop over \<open>Spec.Tools\<close>: the first tool the policy does not allow.\<close>

fun denied_tool :: "string list \<Rightarrow> tool_ref list \<Rightarrow> string option" where
  "denied_tool allowlist [] = None"
| "denied_tool allowlist (tool # tools) =
     (if \<not> allowed allowlist (tool_Ref tool) then Some (tool_Ref tool) else denied_tool allowlist tools)"

type_synonym verdict = "bool \<times> string \<times> string"

definition policy_key :: "agent \<Rightarrow> object_key" where
  "policy_key agent =
     \<lparr>ok_Namespace = om_Namespace (ag_Meta agent), ok_Name = as_PolicyRef (ag_Spec agent)\<rparr>"

definition model_ref_of :: "agent \<Rightarrow> string" where
  "model_ref_of agent =
     mr_ProviderRef (as_Model (ag_Spec agent)) @ ''/'' @ mr_Model (as_Model (ag_Spec agent))"

definition validateAgent ::
  "platform \<Rightarrow> 'w kube \<Rightarrow> agent \<Rightarrow> 'w \<Rightarrow> (verdict \<times> kube_error option) \<times> 'w" where
  "validateAgent P K agent w =
     (case tenantIDFor P K (ag_Meta agent) w of
        (Inl err, w1) \<Rightarrow> (((False, ''InvalidTenantBinding'', tenant_error_text P err), None), w1)
      | (Inr tenantID, w1) \<Rightarrow>
          let spec = ag_Spec agent in
          if \<not> uuid_ok P (as_ProjectID spec) then
            (((False, ''InvalidProjectID'', ''spec.projectId must be an Governed Agent project UUID''), None), w1)
          else if sb_Mode (as_Sandbox spec) = ''required'' \<and> sb_RuntimeClassName (as_Sandbox spec) = [] then
            (((False, ''RuntimeClassRequired'', ''required sandbox mode needs spec.sandbox.runtimeClassName''), None), w1)
          else if as_PolicyRef spec = [] then
            (((False, ''PolicyRequired'', ''spec.policyRef is required''), None), w1)
          else
            (case kGetTenantPolicy K (policy_key agent) w1 of
               (Inl err, w2) \<Rightarrow>
                 if ke_NotFound err then
                   (((False, ''PolicyNotFound'',
                      ''TenantPolicy '' @ quote (print_table P) (as_PolicyRef spec) @ '' does not exist''), None), w2)
                 else (((False, ''PolicyLookupFailed'', ke_Text err), Some err), w2)
             | (Inr policy, w2) \<Rightarrow>
                 if map_get (om_Labels (tp_Meta policy)) TenantIDLabel \<noteq> tenantID then
                   (((False, ''TenantMismatch'', ''Agent and TenantPolicy tenant labels must match''), None), w2)
                 else if \<not> tpst_Active (tp_Status policy) \<or>
                         tpst_ObservedGeneration (tp_Status policy) \<noteq> om_Generation (tp_Meta policy) then
                   (((False, ''PolicyNotActive'',
                      ''referenced TenantPolicy is not active for its current generation''), None), w2)
                 else if \<not> allowed (tps_AllowedModels (tp_Spec policy)) (model_ref_of agent) then
                   (((False, ''ModelDenied'',
                      ''model '' @ quote (print_table P) (model_ref_of agent) @ '' is not allowed by TenantPolicy''), None), w2)
                 else (case denied_tool (tps_AllowedTools (tp_Spec policy)) (as_Tools spec) of
                         Some tool \<Rightarrow>
                           (((False, ''ToolDenied'',
                              ''tool '' @ quote (print_table P) tool @ '' is not allowed by TenantPolicy''), None), w2)
                       | None \<Rightarrow>
                           (((True, ''AgentReady'', ''agent references and tenant policy are valid''), None), w2))))"

definition agent_status_of :: "platform \<Rightarrow> gotime \<Rightarrow> agent \<Rightarrow> verdict \<Rightarrow> agent_status" where
  "agent_status_of P t agent v =
     (case v of (ready, reason, message) \<Rightarrow>
        let generation = om_Generation (ag_Meta agent);
            status1 = (ag_Status agent)\<lparr>ags_Ready := ready, ags_ObservedGeneration := generation\<rparr>;
            conditionStatus = (if ready then ConditionTrue else ConditionFalse)
        in status1\<lparr>ags_Conditions :=
             set_cond P t (ags_Conditions status1)
               (condition_lit ''Ready'' conditionStatus reason message generation)\<rparr>)"

definition reconcileAgent ::
  "platform \<Rightarrow> 'w kube \<Rightarrow> gotime \<Rightarrow> object_key \<Rightarrow> 'w \<Rightarrow> (kube_error, ctrl_result) result \<times> 'w" where
  "reconcileAgent P K t request w =
     (case kGetAgent K request w of
        (Inl err, w1) \<Rightarrow> (ignore_not_found err, w1)
      | (Inr agent, w1) \<Rightarrow>
          (case validateAgent P K agent w1 of
             ((_, Some err), w2) \<Rightarrow> (Inl err, w2)
           | ((v, None), w2) \<Rightarrow>
               let before = ag_Status agent; after = agent_status_of P t agent v in
               if before = after then (Inr empty_result, w2)
               else (case kUpdateAgentStatus K (agent\<lparr>ag_Status := after\<rparr>) w2 of
                       (Inl err, w3) \<Rightarrow> (Inl err, w3)
                     | (Inr _, w3) \<Rightarrow> (Inr empty_result, w3))))"

text \<open>The requests a TenantPolicy event causes; a failed list is logged and causes none.\<close>

definition agentsForPolicy :: "'w kube \<Rightarrow> object_meta \<Rightarrow> 'w \<Rightarrow> object_key list \<times> 'w" where
  "agentsForPolicy K object w =
     (case kListAgents K (om_Namespace object) w of
        (Inl err, w1) \<Rightarrow> ([], w1)
      | (Inr agents, w1) \<Rightarrow>
          (map (key_of \<circ> ag_Meta) (filter (\<lambda>a. as_PolicyRef (ag_Spec a) = om_Name object) agents), w1))"

subsection \<open>What a ready Agent satisfies\<close>

lemma allowed_iff: "allowed vs candidate \<longleftrightarrow> candidate \<in> set vs"
  by (induction vs) auto

lemma denied_tool_None:
  "denied_tool allowlist tools = None \<longleftrightarrow> tool_Ref ` set tools \<subseteq> set allowlist"
  by (induction tools) (auto simp: allowed_iff)

lemma denied_tool_SomeD:
  "denied_tool allowlist tools = Some r \<Longrightarrow> r \<in> tool_Ref ` set tools \<and> r \<notin> set allowlist"
  by (induction tools) (auto simp: allowed_iff split: if_splits)

text \<open>The part of admission that needs no policy, and the part the policy grants.\<close>

definition agent_spec_ok :: "platform \<Rightarrow> agent_spec \<Rightarrow> bool" where
  "agent_spec_ok P s \<longleftrightarrow>
     uuid_ok P (as_ProjectID s) \<and>
     \<not> (sb_Mode (as_Sandbox s) = ''required'' \<and> sb_RuntimeClassName (as_Sandbox s) = []) \<and>
     as_PolicyRef s \<noteq> []"

definition policy_grants :: "tenant_policy \<Rightarrow> string \<Rightarrow> agent \<Rightarrow> bool" where
  "policy_grants policy tenant agent \<longleftrightarrow>
     map_get (om_Labels (tp_Meta policy)) TenantIDLabel = tenant \<and>
     tpst_Active (tp_Status policy) \<and>
     tpst_ObservedGeneration (tp_Status policy) = om_Generation (tp_Meta policy) \<and>
     model_ref_of agent \<in> set (tps_AllowedModels (tp_Spec policy)) \<and>
     tool_Ref ` set (as_Tools (ag_Spec agent)) \<subseteq> set (tps_AllowedTools (tp_Spec policy))"

lemma validateAgent_ready:
  "fst (fst (fst (validateAgent P K agent w))) \<longleftrightarrow>
     (\<exists>tenant w1 policy.
        tenantIDFor P K (ag_Meta agent) w = (Inr tenant, w1) \<and> agent_spec_ok P (ag_Spec agent) \<and>
        fst (kGetTenantPolicy K (policy_key agent) w1) = Inr policy \<and> policy_grants policy tenant agent)"
  by (auto simp: validateAgent_def Let_def agent_spec_ok_def policy_grants_def allowed_iff
        denied_tool_None [symmetric] split: prod.splits sum.splits option.splits if_splits)

text \<open>A lookup error other than not-found is the only error \<open>validate\<close> returns.\<close>

lemma validateAgent_error:
  "snd (fst (validateAgent P K agent w)) = Some err \<longleftrightarrow>
     (\<exists>tenant w1. tenantIDFor P K (ag_Meta agent) w = (Inr tenant, w1) \<and> agent_spec_ok P (ag_Spec agent) \<and>
        fst (kGetTenantPolicy K (policy_key agent) w1) = Inl err \<and> \<not> ke_NotFound err)"
  by (auto simp: validateAgent_def Let_def agent_spec_ok_def
        split: prod.splits sum.splits option.splits if_splits)

lemma agent_status_of_ready [simp]: "ags_Ready (agent_status_of P t agent (a, r, m)) = a"
  by (simp add: agent_status_of_def Let_def)

lemma agent_status_of_idem:
  assumes law: "set_cond_law (set_cond P)" and ok: "conds_ok (ags_Conditions (ag_Status agent))"
    and now: "ag_Status agent' = agent_status_of P t agent v"
    and gen: "om_Generation (ag_Meta agent') = om_Generation (ag_Meta agent)"
  shows "agent_status_of P t' agent' v = ag_Status agent'"
  by (cases v) (simp add: now gen agent_status_of_def Let_def set_cond_twice [OF law _ ok])

subsection \<open>Properties\<close>

text \<open>
  C15. An Agent is reported ready exactly when its tenant resolves, its project is a UUID, a required
  sandbox names a runtime class, and the TenantPolicy it references exists in its namespace, belongs
  to the same tenant, is active for its current generation, and allows the Agent's model and every
  one of its tools.
\<close>

theorem agent_ready_iff_governed:
  "fst (fst (fst (validateAgent P K agent w))) \<longleftrightarrow>
     (\<exists>tenant w1 policy.
        tenantIDFor P K (ag_Meta agent) w = (Inr tenant, w1) \<and> agent_spec_ok P (ag_Spec agent) \<and>
        fst (kGetTenantPolicy K (policy_key agent) w1) = Inr policy \<and> policy_grants policy tenant agent)"
  by (rule validateAgent_ready)

text \<open>
  When the lookup of the policy fails for another reason than absence, the pass returns that
  error, so that it is retried, and writes no status: the last recorded verdict stands.
\<close>

lemma agent_policy_lookup_error_retried:
  assumes "kGetAgent K request w = (Inr agent, w1)"
    and "tenantIDFor P K (ag_Meta agent) w1 = (Inr tenant, w2)" and "agent_spec_ok P (ag_Spec agent)"
    and "kGetTenantPolicy K (policy_key agent) w2 = (Inl err, w3)" and "\<not> ke_NotFound err"
  shows "reconcileAgent P K t request w = (Inl err, w3)"
proof -
  have "validateAgent P K agent w1 = (((False, ''PolicyLookupFailed'', ke_Text err), Some err), w3)"
    using assms(2-5) by (auto simp: validateAgent_def agent_spec_ok_def Let_def)
  with assms(1) show ?thesis by (simp add: reconcileAgent_def)
qed

text \<open>
  A failed read of the Namespace, by contrast, is recorded as an invalid tenant binding and the
  pass ends without error and without a requeue: a transient failure leaves the Agent not ready
  until some other event brings it back.
\<close>

lemma agent_namespace_error_not_retried:
  assumes "kGetAgent K request w = (Inr agent, w1)"
    and "kGetNamespace K (om_Namespace (ag_Meta agent)) w1 = (Inl err, w2)"
    and "after = agent_status_of P t agent
           (False, ''InvalidTenantBinding'', ''read Namespace tenant binding: '' @ ke_Text err)"
    and "ag_Status agent \<noteq> after"
    and "kUpdateAgentStatus K (agent\<lparr>ag_Status := after\<rparr>) w2 = (Inr stored, w3)"
  shows "reconcileAgent P K t request w = (Inr empty_result, w3) \<and> \<not> ags_Ready after"
proof -
  have "validateAgent P K agent w1 =
      (((False, ''InvalidTenantBinding'', ''read Namespace tenant binding: '' @ ke_Text err), None), w2)"
    using assms(2) by (simp add: validateAgent_def tenantIDFor_def tenant_error_text_def)
  with assms have "reconcileAgent P K t request w = (Inr empty_result, w3)"
    by (simp add: reconcileAgent_def Let_def)
  then show ?thesis by (simp add: assms(3))
qed

text \<open>
  The Agent pass is quiescent: reading back the status it computed for the same generation and
  verdict, it neither writes nor asks to be requeued.
\<close>

lemma agent_reconcile_quiescent:
  assumes "set_cond_law (set_cond P)" and "conds_ok (ags_Conditions (ag_Status agent))"
    and "kGetAgent K request w = (Inr agent', w1)" and "validateAgent P K agent' w1 = ((v, None), w2)"
    and "ag_Status agent' = agent_status_of P t agent v"
    and "om_Generation (ag_Meta agent') = om_Generation (ag_Meta agent)"
  shows "reconcileAgent P K t' request w = (Inr empty_result, w2)"
  using agent_status_of_idem [OF assms(1,2,5,6)] assms(3,4) by (simp add: reconcileAgent_def)

subsection \<open>Witnesses\<close>

definition sample_agent :: agent where
  "sample_agent =
     \<lparr>ag_Meta = sample_meta\<lparr>om_Name := ''research''\<rparr>,
      ag_Spec =
        \<lparr>as_DisplayName = ''Research Agent'', as_ProjectID = ''bbbbbbbb-bbbb-bbbb-bbbb-bbbbbbbbbbbb'',
         as_Runtime = \<lparr>rt_Engine = ''governed'', rt_Role = ''analyst'', rt_Image = []\<rparr>,
         as_Model = \<lparr>mr_ProviderRef = ''mock'', mr_Model = ''mock'', mr_MaxTokens = 4096\<rparr>,
         as_Tools = [\<lparr>tool_Ref = ''rag-search''\<rparr>], as_PolicyRef = ''standard'',
         as_Sandbox = \<lparr>sb_Mode = ''optional'', sb_RuntimeClassName = [], sb_NetworkEgress = [],
                       sb_PersistentVolumeSizeGi = 0, sb_IdleTimeoutSeconds = 0\<rparr>,
         as_Budget = \<lparr>bs_MaxConcurrentRuns = 4, bs_MaxTokensPerRun = 12000, bs_MaxRunsPerDay = 0\<rparr>\<rparr>,
      ag_Status = \<lparr>ags_Ready = True, ags_ObservedGeneration = 1, ags_Conditions = []\<rparr>\<rparr>"

text \<open>The API server is overloaded: every read but that of the Agent fails, writes succeed.\<close>

definition server_timeout :: kube_error where
  "server_timeout = \<lparr>ke_NotFound = False, ke_Text = ''server timeout''\<rparr>"

definition agent_kube :: "(kube_error, namespace) result \<Rightarrow> (kube_error, tenant_policy) result \<Rightarrow> agent \<Rightarrow> 'w kube" where
  "agent_kube ns policy agent =
     empty_kube\<lparr>kGetAgent := (\<lambda>_ w. (Inr agent, w)), kGetNamespace := (\<lambda>_ w. (ns, w)),
       kGetTenantPolicy := (\<lambda>_ w. (policy, w)), kUpdateAgentStatus := (\<lambda>a w. (Inr a, w))\<rparr>"

lemma agent_kube_simps [simp]:
  "kGetAgent (agent_kube ns policy agent) k w = (Inr agent, w)"
  "kGetNamespace (agent_kube ns policy agent) n w = (ns, w)"
  "kGetTenantPolicy (agent_kube ns policy agent) k w = (policy, w)"
  "kUpdateAgentStatus (agent_kube ns policy agent) a w = (Inr a, w)"
  by (simp_all add: agent_kube_def)

abbreviation sample_namespace :: namespace where
  "sample_namespace \<equiv> \<lparr>nsp_Labels = [TenantIDLabel \<mapsto> sample_tenant]\<rparr>"

lemma sample_agent_tenant:
  "tenantIDFor sample_platform (agent_kube (Inr sample_namespace) policy agent) (ag_Meta sample_agent) w =
     (Inr sample_tenant, w)"
  by (simp add: tenantIDFor_def sample_agent_def sample_meta_def sample_tenant_def Let_def)

lemma sample_agent_spec_ok: "agent_spec_ok sample_platform (ag_Spec sample_agent)"
  by (simp add: agent_spec_ok_def sample_agent_def)

theorem agent_policy_lookup_error_retried_witness:
  "reconcileAgent sample_platform (agent_kube (Inr sample_namespace) (Inl server_timeout) sample_agent)
     zero_time (key_of sample_meta) () = (Inl server_timeout, ())"
  by (rule agent_policy_lookup_error_retried [OF _ sample_agent_tenant sample_agent_spec_ok])
     (simp_all add: server_timeout_def)

lemma sample_agent_becomes_unready:
  "ag_Status sample_agent \<noteq> agent_status_of P t agent (False, r, m)"
proof
  assume "ag_Status sample_agent = agent_status_of P t agent (False, r, m)"
  then have "ags_Ready (ag_Status sample_agent) = False" by simp
  then show False by (simp add: sample_agent_def)
qed

theorem agent_namespace_error_not_retried_witness:
  "reconcileAgent sample_platform (agent_kube (Inl server_timeout) (Inl server_timeout) sample_agent)
     zero_time (key_of sample_meta) () = (Inr empty_result, ())"
  by (rule agent_namespace_error_not_retried
        [OF _ _ refl sample_agent_becomes_unready, THEN conjunct1]) simp_all

definition settled_agent :: agent where
  "settled_agent = sample_agent\<lparr>ag_Status := agent_status_of sample_platform zero_time sample_agent
     (True, ''AgentReady'', ''agent references and tenant policy are valid'')\<rparr>"

definition active_policy :: tenant_policy where
  "active_policy = sample_policy\<lparr>tp_Status := \<lparr>tpst_ObservedGeneration = 1, tpst_Active = True, tpst_Conditions = []\<rparr>\<rparr>"

lemma settled_agent_valid:
  "validateAgent sample_platform (agent_kube (Inr sample_namespace) (Inr active_policy) settled_agent) settled_agent w =
     (((True, ''AgentReady'', ''agent references and tenant policy are valid''), None), w)"
proof -
  have "tenantIDFor sample_platform (agent_kube (Inr sample_namespace) (Inr active_policy) settled_agent)
      (ag_Meta settled_agent) w = (Inr sample_tenant, w)"
    using sample_agent_tenant by (simp add: settled_agent_def)
  then show ?thesis
    by (simp add: validateAgent_def settled_agent_def sample_agent_def active_policy_def sample_policy_def
        sample_meta_def model_ref_of_def Let_def)
qed

theorem agent_reconcile_quiescent_witness:
  "reconcileAgent sample_platform (agent_kube (Inr sample_namespace) (Inr active_policy) settled_agent)
     zero_time (key_of sample_meta) () = (Inr empty_result, ())"
  by (rule agent_reconcile_quiescent [OF _ _ _ settled_agent_valid, where agent = sample_agent and t = zero_time])
     (simp_all add: sample_set_cond_law conds_ok_def settled_agent_def, simp add: sample_agent_def)

end
