(* ===== verification/Dag_Validation.thy ===== *)
theory Dag_Validation
  imports Api_Types Go_Range
begin

text \<open>
  \<open>validateDAG\<close> of src/controllers/agentrun_controller.go: the duplicate check that fills the map
  \<open>dependencies\<close>, the check that every dependency is a node, and the depth-first search with the
  maps \<open>visiting\<close> and \<open>visited\<close>. The map \<open>dependencies\<close> is an association list in insertion order;
  the two \<open>range\<close> loops over it take their visiting order as an argument. The recursion of the
  search is proved total, so the model needs no bound on the depth.
\<close>

subsection \<open>The code\<close>

datatype dag_error =
    DuplicateNode string
  | UnknownDependency string string
  | CycleAt string

type_synonym dependency_map = "(string \<times> string list) list"

text \<open>\<open>dependencies[node]\<close>: a missing key reads as the nil slice.\<close>

definition deps_of :: "dependency_map \<Rightarrow> string \<Rightarrow> string list" where
  "deps_of m n = (case map_of m n of None \<Rightarrow> [] | Some ds \<Rightarrow> ds)"

fun build_dependencies :: "dependency_map \<Rightarrow> dag_node list \<Rightarrow> (dag_error, dependency_map) result" where
  "build_dependencies m [] = Inr m"
| "build_dependencies m (node # nodes) =
     (if map_of m (dn_Name node) \<noteq> None then Inl (DuplicateNode (dn_Name node))
      else build_dependencies (m @ [(dn_Name node, dn_DependsOn node)]) nodes)"

fun check_dependencies :: "dependency_map \<Rightarrow> string list \<Rightarrow> dag_error option" where
  "check_dependencies m [] = None"
| "check_dependencies m (node # order) =
     (case find (\<lambda>d. map_of m d = None) (deps_of m node) of
        Some dependency \<Rightarrow> Some (UnknownDependency node dependency)
      | None \<Rightarrow> check_dependencies m order)"

text \<open>The maps \<open>visiting\<close> and \<open>visited\<close>; a missing key reads as \<open>false\<close>.\<close>

record dfs =
  visiting :: "string \<Rightarrow> bool"
  visited :: "string \<Rightarrow> bool"

definition dfs0 :: dfs where
  "dfs0 = \<lparr>visiting = (\<lambda>_. False), visited = (\<lambda>_. False)\<rparr>"

function visit :: "dependency_map \<Rightarrow> string \<Rightarrow> dfs \<Rightarrow> (dag_error, dfs) result"
  and visit_all :: "dependency_map \<Rightarrow> string list \<Rightarrow> dfs \<Rightarrow> (dag_error, dfs) result" where
  "visit m node s =
     (if visiting s node then Inl (CycleAt node)
      else if visited s node then Inr s
      else case visit_all m (deps_of m node) (s\<lparr>visiting := (visiting s)(node := True)\<rparr>) of
             Inl e \<Rightarrow> Inl e
           | Inr s' \<Rightarrow> Inr (s'\<lparr>visiting := (visiting s')(node := False),
                              visited := (visited s')(node := True)\<rparr>))"
| "visit_all m [] s = Inr s"
| "visit_all m (d # ds) s = (case visit m d s of Inl e \<Rightarrow> Inl e | Inr s' \<Rightarrow> visit_all m ds s')"
  by pat_completeness auto

text \<open>A call that returns leaves \<open>visiting\<close> as it found it: the fact the termination proof needs.\<close>

lemma visit_visiting_partial:
  "visit_visit_all_dom (Inl (m, node, s)) \<Longrightarrow> visit m node s = Inr t \<Longrightarrow> visiting t = visiting s"
  "visit_visit_all_dom (Inr (m, ds, s)) \<Longrightarrow> visit_all m ds s = Inr t \<Longrightarrow> visiting t = visiting s"
proof (induction m node s and m ds s arbitrary: t and t rule: visit_visit_all.pinduct)
  case (1 m node s)
  show ?case
  proof (cases "visiting s node \<or> visited s node")
    case True
    with 1(3) show ?thesis by (simp add: visit.psimps [OF 1(1)] split: if_splits)
  next
    case False
    let ?s = "s\<lparr>visiting := (visiting s)(node := True)\<rparr>"
    from False 1(3) obtain u where u: "visit_all m (deps_of m node) ?s = Inr u"
      and t: "t = u\<lparr>visiting := (visiting u)(node := False), visited := (visited u)(node := True)\<rparr>"
      by (simp add: visit.psimps [OF 1(1)] split: sum.splits)
    have "visiting u = visiting ?s"
      by (rule 1(2)) (use False u in auto)
    with False show ?thesis by (simp add: t fun_upd_idem)
  qed
next
  case (2 m s)
  then show ?case by (simp add: visit_all.psimps)
next
  case (3 m d ds s)
  from 3(4) obtain u where u: "visit m d s = Inr u" and t: "visit_all m ds u = Inr t"
    by (auto simp: visit_all.psimps(2) [OF 3(1)] split: sum.splits)
  from 3(2) [OF u] 3(3) [OF u t] show ?case by simp
qed

definition unvisited :: "dependency_map \<Rightarrow> dfs \<Rightarrow> nat" where
  "unvisited m s = card {n \<in> fst ` set m. \<not> visiting s n}"

lemma unvisited_less:
  assumes "map_of m node \<noteq> None" and "\<not> visiting s node"
  shows "unvisited m (s\<lparr>visiting := (visiting s)(node := True)\<rparr>) < unvisited m s"
  unfolding unvisited_def
proof (rule psubset_card_mono)
  show "finite {n \<in> fst ` set m. \<not> visiting s n}" by simp
  have "node \<in> fst ` set m" using assms(1) by (metis map_of_eq_None_iff)
  with assms(2) show "{n \<in> fst ` set m. \<not> visiting (s\<lparr>visiting := (visiting s)(node := True)\<rparr>) n}
      \<subset> {n \<in> fst ` set m. \<not> visiting s n}"
    by auto
qed

lemma unvisited_unknown:
  "map_of m node = None \<Longrightarrow> unvisited m (s\<lparr>visiting := (visiting s)(node := True)\<rparr>) = unvisited m s"
  unfolding unvisited_def by (rule arg_cong [where f = card]) (auto simp: map_of_eq_None_iff)

termination visit
proof (relation "measures [case_sum (\<lambda>(m, _, s). unvisited m s) (\<lambda>(m, _, s). unvisited m s),
                           case_sum (\<lambda>_. 1) (\<lambda>(_, ds, _). 2 * length ds)]", goal_cases)
  case 1
  show ?case by simp
next
  case (2 m node s)
  then show ?case
    by (cases "map_of m node")
       (simp_all add: deps_of_def unvisited_unknown unvisited_less)
next
  case (3 m d ds s)
  show ?case by simp
next
  case (4 m d ds s t)
  have "visiting t = visiting s" by (rule visit_visiting_partial(1)) (use 4 in auto)
  then show ?case by (simp add: unvisited_def)
qed

declare visit.simps [simp del]

definition validateDAG :: "range_order \<Rightarrow> range_order \<Rightarrow> dag_spec option \<Rightarrow> dag_error option" where
  "validateDAG r1 r2 dag =
     (case dag of None \<Rightarrow> None
      | Some d \<Rightarrow>
          if dag_Nodes d = [] then None
          else case build_dependencies [] (dag_Nodes d) of
                 Inl e \<Rightarrow> Some e
               | Inr m \<Rightarrow>
                   (case check_dependencies m (visit_order r1 (map fst m)) of
                      Some e \<Rightarrow> Some e
                    | None \<Rightarrow>
                        (case visit_all m (visit_order r2 (map fst m)) dfs0 of
                           Inl e \<Rightarrow> Some e
                         | Inr _ \<Rightarrow> None)))"

subsection \<open>Correctness of the search\<close>

definition dep_edges :: "dependency_map \<Rightarrow> (string \<times> string) set" where
  "dep_edges m = {(n, d). d \<in> set (deps_of m n)}"

text \<open>
  The invariant of the search: the visited nodes are closed under dependencies and none lies on a
  cycle. On entry, every node of the current path (\<open>visiting\<close>) reaches the nodes about to be visited.
\<close>

definition dfs_inv :: "dependency_map \<Rightarrow> dfs \<Rightarrow> bool" where
  "dfs_inv m s \<longleftrightarrow>
     (\<forall>n d. visited s n \<longrightarrow> (n, d) \<in> dep_edges m \<longrightarrow> visited s d) \<and>
     (\<forall>n. visited s n \<longrightarrow> (n, n) \<notin> (dep_edges m)\<^sup>+)"

definition on_path :: "dependency_map \<Rightarrow> dfs \<Rightarrow> string list \<Rightarrow> bool" where
  "on_path m s ds \<longleftrightarrow> (\<forall>v d. visiting s v \<longrightarrow> d \<in> set ds \<longrightarrow> (v, d) \<in> (dep_edges m)\<^sup>+)"

fun visit_post :: "dependency_map \<Rightarrow> string list \<Rightarrow> dfs \<Rightarrow> (dag_error, dfs) result \<Rightarrow> bool" where
  "visit_post m ds s (Inl e) \<longleftrightarrow> (\<exists>n. e = CycleAt n \<and> (n, n) \<in> (dep_edges m)\<^sup>+)"
| "visit_post m ds s (Inr t) \<longleftrightarrow>
     dfs_inv m t \<and> visiting t = visiting s \<and> (\<forall>n. visited s n \<longrightarrow> visited t n) \<and>
     (\<forall>n. visited t n \<longrightarrow> visited s n \<or> \<not> visiting s n) \<and> (\<forall>d \<in> set ds. visited t d)"

lemma visited_trancl:
  assumes "dfs_inv m s" and "(a, b) \<in> (dep_edges m)\<^sup>+" and "visited s a"
  shows "visited s b"
  using closed_trancl [of "dep_edges m" "{n. visited s n}" a b] assms
  by (auto simp: dfs_inv_def)

text \<open>Leaving a node: its dependencies are visited, it is not, so it lies on no cycle.\<close>

lemma dfs_inv_leave:
  assumes inv: "dfs_inv m u" and deps: "\<forall>d \<in> set (deps_of m node). visited u d"
    and new: "\<not> visited u node"
  shows "dfs_inv m (u\<lparr>visiting := g, visited := (visited u)(node := True)\<rparr>)"
proof -
  have "(node, node) \<notin> (dep_edges m)\<^sup>+"
  proof
    assume "(node, node) \<in> (dep_edges m)\<^sup>+"
    then obtain d where "(node, d) \<in> dep_edges m" and "d = node \<or> (d, node) \<in> (dep_edges m)\<^sup>+"
      by (metis converse_tranclE)
    with deps have "visited u d" by (simp add: dep_edges_def)
    with inv \<open>d = node \<or> _\<close> new visited_trancl show False by blast
  qed
  with inv deps show ?thesis by (auto simp: dfs_inv_def dep_edges_def)
qed

lemma on_path_enter:
  assumes "on_path m s [node]"
  shows "on_path m (s\<lparr>visiting := (visiting s)(node := True)\<rparr>) (deps_of m node)"
proof -
  have "(v, d) \<in> (dep_edges m)\<^sup>+"
    if v: "v = node \<or> visiting s v" and d: "d \<in> set (deps_of m node)" for v d
  proof -
    from d have e: "(node, d) \<in> dep_edges m" by (simp add: dep_edges_def)
    show ?thesis
    proof (cases "v = node")
      case True
      with e show ?thesis by auto
    next
      case False
      with v assms have "(v, node) \<in> (dep_edges m)\<^sup>+" by (simp add: on_path_def)
      then show ?thesis using e by (rule trancl_into_trancl)
    qed
  qed
  then show ?thesis by (auto simp: on_path_def)
qed

lemma visit_correct:
  "dfs_inv m s \<Longrightarrow> on_path m s [node] \<Longrightarrow> visit_post m [node] s (visit m node s)"
  "dfs_inv m s \<Longrightarrow> on_path m s ds \<Longrightarrow> visit_post m ds s (visit_all m ds s)"
proof (induction m node s and m ds s rule: visit_visit_all.induct)
  case (1 m node s)
  show ?case
  proof (cases "visiting s node \<or> visited s node")
    case True
    with 1(2,3) show ?thesis by (auto simp: visit.simps [of m node s] on_path_def)
  next
    case False
    let ?s = "s\<lparr>visiting := (visiting s)(node := True)\<rparr>"
    let ?r = "visit_all m (deps_of m node) ?s"
    have post: "visit_post m (deps_of m node) ?s ?r"
    proof (rule 1(1))
      show "dfs_inv m ?s" using 1(2) by (simp add: dfs_inv_def)
      show "on_path m ?s (deps_of m node)" using 1(3) by (rule on_path_enter)
    qed (use False in auto)
    show ?thesis
    proof (cases ?r)
      case (Inl e)
      with post False show ?thesis by (simp add: visit.simps [of m node s])
    next
      case (Inr u)
      with post have u: "dfs_inv m u" "visiting u = (visiting s)(node := True)"
        "\<forall>n. visited s n \<longrightarrow> visited u n"
        "\<forall>n. visited u n \<longrightarrow> visited s n \<or> \<not> ((visiting s)(node := True)) n"
        "\<forall>d \<in> set (deps_of m node). visited u d"
        by auto
      with False have "\<not> visited u node" by auto
      with u dfs_inv_leave have
        "dfs_inv m (u\<lparr>visiting := (visiting u)(node := False), visited := (visited u)(node := True)\<rparr>)"
        by blast
      with u Inr False show ?thesis
        by (auto simp: visit.simps [of m node s] fun_upd_idem split: if_splits)
    qed
  qed
next
  case (2 m s)
  then show ?case by simp
next
  case (3 m d ds s)
  have d: "visit_post m [d] s (visit m d s)"
    by (rule 3(1)) (use 3(3,4) in \<open>auto simp: on_path_def\<close>)
  show ?case
  proof (cases "visit m d s")
    case (Inl e)
    with d show ?thesis by simp
  next
    case (Inr u)
    with d have u: "dfs_inv m u" "visiting u = visiting s" "\<forall>n. visited s n \<longrightarrow> visited u n"
      "\<forall>n. visited u n \<longrightarrow> visited s n \<or> \<not> visiting s n" "visited u d"
      by auto
    have "visit_post m ds u (visit_all m ds u)"
      by (rule 3(2) [OF Inr u(1)]) (use 3(4) u(2) in \<open>auto simp: on_path_def\<close>)
    with u Inr show ?thesis by (cases "visit_all m ds u") auto
  qed
qed

lemma dep_edges_source: "(n, d) \<in> dep_edges m \<Longrightarrow> n \<in> fst ` set m"
  by (cases "map_of m n") (auto simp: dep_edges_def deps_of_def dest: map_of_SomeD intro: rev_image_eqI)

text \<open>From the empty state the search answers whether the dependency relation has a cycle.\<close>

lemma search_correct:
  assumes "set order = fst ` set m"
  shows "case visit_all m order dfs0 of
           Inl e \<Rightarrow> (\<exists>n. e = CycleAt n \<and> (n, n) \<in> (dep_edges m)\<^sup>+)
         | Inr t \<Rightarrow> acyclic (dep_edges m)"
proof -
  have post: "visit_post m order dfs0 (visit_all m order dfs0)"
    by (rule visit_correct) (auto simp: dfs_inv_def on_path_def dfs0_def)
  show ?thesis
  proof (cases "visit_all m order dfs0")
    case (Inl e)
    with post show ?thesis by simp
  next
    case (Inr t)
    with post have inv: "dfs_inv m t" and vis: "\<forall>n \<in> fst ` set m. visited t n"
      by (simp_all add: assms)
    have "(n, n) \<notin> (dep_edges m)\<^sup>+" for n
    proof
      assume cyc: "(n, n) \<in> (dep_edges m)\<^sup>+"
      then obtain d where "(n, d) \<in> dep_edges m" by (meson tranclD)
      then have "n \<in> fst ` set m" by (rule dep_edges_source)
      with vis inv cyc show False unfolding dfs_inv_def by blast
    qed
    with Inr show ?thesis by (simp add: acyclic_def)
  qed
qed

subsection \<open>The specification and the checks before the search\<close>

text \<open>
  What the API promises of a DAG: distinct names, dependencies that are nodes, no cycle in the
  relation from a node to what it depends on.
\<close>

definition dag_relation :: "dag_node list \<Rightarrow> (string \<times> string) set" where
  "dag_relation nodes = {(dn_Name n, d) | n d. n \<in> set nodes \<and> d \<in> set (dn_DependsOn n)}"

definition wf_dag :: "dag_node list \<Rightarrow> bool" where
  "wf_dag nodes \<longleftrightarrow>
     distinct (map dn_Name nodes) \<and>
     (\<forall>n \<in> set nodes. \<forall>d \<in> set (dn_DependsOn n). d \<in> dn_Name ` set nodes) \<and>
     acyclic (dag_relation nodes)"

fun culprit :: "dag_node list \<Rightarrow> dag_error \<Rightarrow> bool" where
  "culprit nodes (DuplicateNode x) \<longleftrightarrow> 2 \<le> count_list (map dn_Name nodes) x"
| "culprit nodes (UnknownDependency x d) \<longleftrightarrow>
     (\<exists>n \<in> set nodes. dn_Name n = x \<and> d \<in> set (dn_DependsOn n)) \<and> d \<notin> dn_Name ` set nodes"
| "culprit nodes (CycleAt x) \<longleftrightarrow> (x, x) \<in> (dag_relation nodes)\<^sup>+"

definition dep_entry :: "dag_node \<Rightarrow> string \<times> string list" where
  "dep_entry n = (dn_Name n, dn_DependsOn n)"

lemma map_of_fst_None: "map_of m x = None \<longleftrightarrow> x \<notin> set (map fst m)"
  by (simp add: map_of_eq_None_iff)

lemma build_dependencies_Inr:
  "build_dependencies m nodes = Inr m' \<longleftrightarrow>
     m' = m @ map dep_entry nodes \<and> distinct (map dn_Name nodes) \<and>
     set (map dn_Name nodes) \<inter> set (map fst m) = {}"
  by (induction m nodes rule: build_dependencies.induct) (auto simp: map_of_fst_None dep_entry_def)

lemma count_list_pos: "x \<in> set xs \<Longrightarrow> 1 \<le> count_list xs x"
  by (induction xs) auto

lemma build_dependencies_Inl:
  "build_dependencies m nodes = Inl e \<Longrightarrow>
     \<exists>x. e = DuplicateNode x \<and> 2 \<le> count_list (map fst m @ map dn_Name nodes) x"
proof (induction m nodes rule: build_dependencies.induct)
  case (2 m node nodes)
  show ?case
  proof (cases "map_of m (dn_Name node) = None")
    case True
    with 2(2) have "build_dependencies (m @ [(dn_Name node, dn_DependsOn node)]) nodes = Inl e"
      by simp
    with 2(1) True show ?thesis by simp
  next
    case False
    with 2(2) have e: "e = DuplicateNode (dn_Name node)" by auto
    from False have "1 \<le> count_list (map fst m) (dn_Name node)"
      by (intro count_list_pos) (auto simp: map_of_fst_None)
    with e show ?thesis by simp
  qed
qed simp

lemma deps_of_entries:
  assumes "distinct (map dn_Name nodes)"
  shows "d \<in> set (deps_of (map dep_entry nodes) x) \<longleftrightarrow> (x, d) \<in> dag_relation nodes"
proof -
  have dist: "distinct (map fst (map dep_entry nodes))"
    using assms by (simp add: comp_def dep_entry_def)
  show ?thesis
  proof (cases "map_of (map dep_entry nodes) x")
    case None
    then have "x \<notin> dn_Name ` set nodes"
      by (simp add: map_of_fst_None dep_entry_def image_image)
    with None show ?thesis by (auto simp: deps_of_def dag_relation_def)
  next
    case (Some ds)
    have "n = n'" if "n \<in> set nodes" "n' \<in> set nodes" "dn_Name n = dn_Name n'" for n n'
      using assms that by (simp add: distinct_map inj_on_def)
    with Some map_of_SomeD [OF Some] show ?thesis
      by (auto simp: deps_of_def dag_relation_def dep_entry_def)
  qed
qed

lemma dep_edges_entries:
  "distinct (map dn_Name nodes) \<Longrightarrow> dep_edges (map dep_entry nodes) = dag_relation nodes"
  by (auto simp: dep_edges_def deps_of_entries)

lemma check_dependencies_None:
  "check_dependencies m order = None \<longleftrightarrow>
     (\<forall>x \<in> set order. \<forall>d \<in> set (deps_of m x). map_of m d \<noteq> None)"
  by (induction m order rule: check_dependencies.induct)
     (auto simp: find_None_iff split: option.splits dest: find_SomeD)

lemma check_dependencies_Some:
  "check_dependencies m order = Some e \<Longrightarrow>
     \<exists>x d. e = UnknownDependency x d \<and> d \<in> set (deps_of m x) \<and> map_of m d = None"
  by (induction m order rule: check_dependencies.induct) (auto split: option.splits dest: find_SomeD)

subsection \<open>The verdict\<close>

lemma validateDAG_cases:
  assumes "nodes \<noteq> []"
  shows "case validateDAG r1 r2 (Some \<lparr>dag_Nodes = nodes\<rparr>) of
           None \<Rightarrow> wf_dag nodes
         | Some e \<Rightarrow> culprit nodes e \<and> \<not> wf_dag nodes"
proof (cases "build_dependencies [] nodes")
  case (Inl e)
  then have "\<not> distinct (map dn_Name nodes)"
    using build_dependencies_Inr [of "[]" nodes] by auto
  with Inl build_dependencies_Inl [OF Inl] assms show ?thesis
    by (auto simp: validateDAG_def wf_dag_def)
next
  case (Inr m)
  then have m: "m = map dep_entry nodes" and dist: "distinct (map dn_Name nodes)"
    by (simp_all add: build_dependencies_Inr)
  have keys: "map fst m = map dn_Name nodes" by (simp add: m dep_entry_def)
  have names: "map_of m d = None \<longleftrightarrow> d \<notin> dn_Name ` set nodes" for d
    by (simp add: map_of_fst_None keys)
  have deps: "d \<in> set (deps_of m x) \<longleftrightarrow> (x, d) \<in> dag_relation nodes" for x d
    unfolding m by (rule deps_of_entries [OF dist])
  show ?thesis
  proof (cases "check_dependencies m (visit_order r1 (map fst m))")
    case (Some e)
    with check_dependencies_Some [OF Some] Inr assms show ?thesis
      by (auto simp: validateDAG_def deps names wf_dag_def dag_relation_def)
  next
    case None
    then have "\<forall>x \<in> dn_Name ` set nodes. \<forall>d. (x, d) \<in> dag_relation nodes \<longrightarrow> d \<in> dn_Name ` set nodes"
      by (simp add: check_dependencies_None keys deps names)
    then have known: "\<forall>n \<in> set nodes. \<forall>d \<in> set (dn_DependsOn n). d \<in> dn_Name ` set nodes"
      unfolding dag_relation_def by blast
    have "set (visit_order r2 (map fst m)) = fst ` set m" by simp
    from search_correct [OF this] None Inr assms dist known show ?thesis
      by (auto simp: validateDAG_def wf_dag_def dep_edges_entries [OF dist, folded m] acyclic_def
          split: sum.splits)
  qed
qed

lemma validateDAG_accepts:
  "validateDAG r1 r2 dag = None \<longleftrightarrow> (case dag of None \<Rightarrow> True | Some d \<Rightarrow> wf_dag (dag_Nodes d))"
proof (cases dag)
  case None
  then show ?thesis by (simp add: validateDAG_def)
next
  case (Some d)
  obtain nodes where d: "d = \<lparr>dag_Nodes = nodes\<rparr>" by (cases d) simp
  show ?thesis
  proof (cases "nodes = []")
    case True
    then show ?thesis by (simp add: Some d validateDAG_def wf_dag_def dag_relation_def acyclic_def)
  next
    case False
    with validateDAG_cases [of nodes r1 r2] show ?thesis
      by (simp add: Some d split: option.splits)
  qed
qed

subsection \<open>What a caller may rely on\<close>

text \<open>
  The contract of a DAG checker: it accepts exactly the well-formed DAGs. What follows from it is
  proved once, here, for every checker that satisfies it: an accepted DAG has an execution order in
  which each node comes after all it depends on, and the order in which the nodes are written does
  not matter.
\<close>

definition schedule :: "(string \<times> string) set \<Rightarrow> string list \<Rightarrow> bool" where
  "schedule r xs \<longleftrightarrow>
     distinct xs \<and> (\<forall>ys x zs d. xs = ys @ x # zs \<longrightarrow> (x, d) \<in> r \<longrightarrow> d \<in> set ys)"

lemma schedule_snoc:
  assumes "schedule (r \<inter> A \<times> A) xs" and "set xs = A" and "x \<notin> A"
    and "\<forall>y \<in> insert x A. (y, x) \<notin> r"
  shows "schedule (r \<inter> insert x A \<times> insert x A) (xs @ [x])"
  unfolding schedule_def
proof (intro conjI allI impI)
  show "distinct (xs @ [x])" using assms by (simp add: schedule_def)
  fix ys y zs d
  assume eq: "xs @ [x] = ys @ y # zs" and e: "(y, d) \<in> r \<inter> insert x A \<times> insert x A"
  with assms(4) have d: "d \<in> A" by auto
  show "d \<in> set ys"
  proof (cases zs rule: rev_cases)
    case Nil
    with eq assms(2) d show ?thesis by auto
  next
    case (snoc zs' z)
    with eq have "xs = ys @ y # zs'" by auto
    with assms(1,2) e d show ?thesis by (auto simp: schedule_def)
  qed
qed

lemma acyclic_schedule:
  assumes "finite A" and "acyclic r"
  shows "\<exists>xs. set xs = A \<and> schedule (r \<inter> A \<times> A) xs"
  using assms(1)
proof (induction A rule: finite_psubset_induct)
  case (psubset A)
  show ?case
  proof (cases "A = {}")
    case True
    then show ?thesis by (auto simp: schedule_def)
  next
    case False
    have "acyclic (r \<inter> A \<times> A)" using assms(2) by (rule acyclic_subset) auto
    then have "wf (r \<inter> A \<times> A)" using psubset.hyps by (intro finite_acyclic_wf) auto
    then have "\<exists>x \<in> A. \<forall>y. (y, x) \<in> r \<inter> A \<times> A \<longrightarrow> y \<notin> A"
      unfolding wf_eq_minimal using False by (elim allE [of _ A]) blast
    then obtain x where x: "x \<in> A" "\<forall>y. (y, x) \<in> r \<inter> A \<times> A \<longrightarrow> y \<notin> A"
      by blast
    let ?B = "A - {x}"
    have A: "insert x ?B = A" using x(1) by auto
    have "?B \<subset> A" using x(1) by auto
    from psubset.IH [OF this] obtain xs where xs: "set xs = ?B" "schedule (r \<inter> ?B \<times> ?B) xs"
      by (elim exE conjE)
    have "(y, x) \<notin> r" if "y \<in> A" for y
      using x(2) that x(1) by blast
    then have "\<forall>y \<in> insert x ?B. (y, x) \<notin> r" unfolding A by blast
    with xs have "schedule (r \<inter> insert x ?B \<times> insert x ?B) (xs @ [x])"
      by (intro schedule_snoc) simp_all
    then have "schedule (r \<inter> A \<times> A) (xs @ [x])" unfolding A .
    moreover have "set (xs @ [x]) = A" using A xs(1) by simp
    ultimately show ?thesis by blast
  qed
qed

locale dag_checker =
  fixes accepts :: "dag_node list \<Rightarrow> bool"
  assumes accepts_iff: "accepts nodes \<longleftrightarrow> wf_dag nodes"
begin

lemma accepted_schedule:
  assumes "accepts nodes"
  shows "\<exists>xs. set xs = dn_Name ` set nodes \<and> schedule (dag_relation nodes) xs"
proof -
  from assms have wf: "wf_dag nodes" by (simp add: accepts_iff)
  then have "dag_relation nodes \<inter> (dn_Name ` set nodes) \<times> (dn_Name ` set nodes) = dag_relation nodes"
    by (auto simp: wf_dag_def dag_relation_def)
  with wf acyclic_schedule [of "dn_Name ` set nodes" "dag_relation nodes"] show ?thesis
    by (simp add: wf_dag_def)
qed

lemma accepts_permuted:
  assumes "mset nodes = mset nodes'"
  shows "accepts nodes \<longleftrightarrow> accepts nodes'"
proof -
  have "mset (map dn_Name nodes) = mset (map dn_Name nodes')" using assms by simp
  then have "distinct (map dn_Name nodes) = distinct (map dn_Name nodes')"
    by (rule mset_eq_imp_distinct_iff)
  moreover have "set nodes = set nodes'" using assms by (rule mset_eq_setD)
  ultimately show ?thesis by (simp add: accepts_iff wf_dag_def dag_relation_def)
qed

end

interpretation go_dag: dag_checker
  "\<lambda>nodes. validateDAG r1 r2 (Some \<lparr>dag_Nodes = nodes\<rparr>) = None" for r1 r2
  by unfold_locales (simp add: validateDAG_accepts)

subsection \<open>Properties\<close>

text \<open>
  C11. \<open>validateDAG\<close> returns nil exactly when the names of the nodes are distinct, every dependency
  names a node and the dependency relation is acyclic, whatever order the two \<open>range\<close> loops take;
  no DAG, or one without nodes, is accepted.
\<close>

theorem validateDAG_iff_wf:
  "validateDAG r1 r2 dag = None \<longleftrightarrow> (case dag of None \<Rightarrow> True | Some d \<Rightarrow> wf_dag (dag_Nodes d))"
  by (rule validateDAG_accepts)

text \<open>
  An error of \<open>validateDAG\<close> names a true culprit: a name that occurs twice, a dependency that
  no node has as its name, or a node on a cycle.
\<close>

lemma validateDAG_error_culprit:
  assumes "validateDAG r1 r2 (Some d) = Some e"
  shows "culprit (dag_Nodes d) e"
proof -
  obtain nodes where d: "d = \<lparr>dag_Nodes = nodes\<rparr>" by (cases d) simp
  with assms have "nodes \<noteq> []" by (auto simp: validateDAG_def)
  from validateDAG_cases [OF this, of r1 r2] assms d show ?thesis by simp
qed

theorem validateDAG_error_culprit_witness:
  "culprit [\<lparr>dn_Name = ''a'', dn_Role = [], dn_DependsOn = [''b''], dn_Prompt = []\<rparr>,
            \<lparr>dn_Name = ''b'', dn_Role = [], dn_DependsOn = [''a''], dn_Prompt = []\<rparr>] (CycleAt ''a'')"
  using validateDAG_error_culprit [of insertion_order insertion_order
    "\<lparr>dag_Nodes = [\<lparr>dn_Name = ''a'', dn_Role = [], dn_DependsOn = [''b''], dn_Prompt = []\<rparr>,
                   \<lparr>dn_Name = ''b'', dn_Role = [], dn_DependsOn = [''a''], dn_Prompt = []\<rparr>]\<rparr>" "CycleAt ''a''"]
  by (simp add: validateDAG_def deps_of_def dfs0_def visit.simps)

text \<open>
  A DAG that \<open>validateDAG\<close> accepts can be executed: its node names have an order without
  repetition in which every node comes after all the nodes it depends on.
\<close>

lemma validateDAG_schedulable:
  assumes "validateDAG r1 r2 (Some d) = None"
  shows "\<exists>xs. set xs = dn_Name ` set (dag_Nodes d) \<and> schedule (dag_relation (dag_Nodes d)) xs"
proof -
  obtain nodes where d: "d = \<lparr>dag_Nodes = nodes\<rparr>" by (cases d) simp
  with assms show ?thesis by (simp add: go_dag.accepted_schedule [of r1 r2])
qed

definition sample_dag :: dag_spec where
  "sample_dag = \<lparr>dag_Nodes =
     [\<lparr>dn_Name = ''retrieve'', dn_Role = ''researcher'', dn_DependsOn = [], dn_Prompt = []\<rparr>,
      \<lparr>dn_Name = ''review'', dn_Role = ''analyst'', dn_DependsOn = [''retrieve''], dn_Prompt = []\<rparr>]\<rparr>"

lemma sample_dag_accepted:
  "validateDAG insertion_order insertion_order (Some sample_dag) = None"
  "validateDAG reverse_order insertion_order (Some sample_dag) = None"
  by (simp_all add: sample_dag_def validateDAG_def deps_of_def dfs0_def visit.simps)

theorem validateDAG_schedulable_witness:
  "\<exists>xs. set xs = {''retrieve'', ''review''} \<and> schedule {(''review'', ''retrieve'')} xs"
proof -
  have "dag_relation (dag_Nodes sample_dag) = {(''review'', ''retrieve'')}"
    unfolding dag_relation_def sample_dag_def by force
  with validateDAG_schedulable [OF sample_dag_accepted(1)] show ?thesis
    by (simp add: sample_dag_def)
qed

text \<open>
  The verdict depends neither on the order in which Go visits the maps nor on the order in
  which the nodes are listed: the API comment asks for dependency order, the code accepts any.
\<close>

lemma validateDAG_order_irrelevant:
  assumes "mset (dag_Nodes d) = mset (dag_Nodes d')"
  shows "validateDAG r1 r2 (Some d) = None \<longleftrightarrow> validateDAG r3 r4 (Some d') = None"
proof -
  have "validateDAG r1 r2 (Some d) = None \<longleftrightarrow> validateDAG r3 r4 (Some d) = None"
    by (simp add: validateDAG_accepts)
  with go_dag.accepts_permuted [OF assms, of r3 r4] show ?thesis by (cases d; cases d') simp
qed

theorem validateDAG_order_irrelevant_witness:
  "validateDAG reverse_order insertion_order (Some \<lparr>dag_Nodes = rev (dag_Nodes sample_dag)\<rparr>) = None"
  using validateDAG_order_irrelevant [of sample_dag "\<lparr>dag_Nodes = rev (dag_Nodes sample_dag)\<rparr>"
      insertion_order insertion_order reverse_order insertion_order]
  by (simp add: sample_dag_accepted)

end
