(* ===== verification/Run_Gateway.thy ===== *)
theory Run_Gateway
  imports Api_Types Go_Strings
begin

text \<open>
  The interface \<open>RunGateway\<close> between reconciliation and the control plane, the first part of
  src/controllers/run_gateway.go: the values that cross it, its errors, and its three operations as
  a record of functions over the state \<open>'n\<close> of whatever is behind it. Kubernetes state is no part
  of \<open>'n\<close>: Kubernetes objects never cross this interface.
\<close>

subsection \<open>Values\<close>

record run_node =
  rn_Name :: string
  rn_Prompt :: string
  rn_Role :: string
  rn_Model :: string
  rn_MaxTokens :: int
  rn_DependsOn :: "string list"
  rn_MaxRetries :: "int option"

record run_submission =
  rs_TenantID :: string
  rs_ProjectID :: string
  rs_Task :: string
  rs_Nodes :: "run_node list"
  rs_IdempotencyKey :: string

record control_plane_step =
  cps_Name :: string
  cps_Status :: string
  cps_Output :: string
  cps_Error :: string
  cps_LatencyMS :: int

record control_plane_run =
  cpr_ID :: string
  cpr_Status :: string
  cpr_Summary :: string
  cpr_ErrorCode :: string
  cpr_StartedAt :: "gotime option"
  cpr_FinishedAt :: "gotime option"
  cpr_Steps :: "control_plane_step list"

subsection \<open>Errors\<close>

text \<open>
  The errors of the HTTP adapter. \<open>HTTPStatus\<close> is \<open>*GatewayHTTPError\<close>, the one error the
  controller looks into; the others wrap an error of the standard library by its text.
\<close>

datatype gateway_error =
    BaseURLRequired
  | CreateRequestFailed string
  | RequestFailed string
  | ReadFailed string
  | HTTPStatus int string
  | DecodeFailed string
  | NoRunID

fun gateway_error_text :: "gateway_error \<Rightarrow> string" where
  "gateway_error_text BaseURLRequired = ''GOVERNED_API_URL is required''"
| "gateway_error_text (CreateRequestFailed e) = ''create control plane request: '' @ e"
| "gateway_error_text (RequestFailed e) = ''control plane request: '' @ e"
| "gateway_error_text (ReadFailed e) = ''read control plane response: '' @ e"
| "gateway_error_text (HTTPStatus code body) = ''control plane returned '' @ itoa code @ '': '' @ body"
| "gateway_error_text (DecodeFailed e) = ''decode control plane response: '' @ e"
| "gateway_error_text NoRunID = ''submit run: control plane returned no run id''"

subsection \<open>Operations and their contract\<close>

record 'n gateway =
  gwSubmit :: "run_submission \<Rightarrow> 'n \<Rightarrow> (gateway_error, control_plane_run) result \<times> 'n"
  gwGet :: "string \<Rightarrow> string \<Rightarrow> 'n \<Rightarrow> (gateway_error, control_plane_run) result \<times> 'n"
  gwCancel :: "string \<Rightarrow> string \<Rightarrow> 'n \<Rightarrow> (gateway_error, control_plane_run) result \<times> 'n"

text \<open>
  What the controller relies on: a submission that succeeds identifies the run. Without it the next
  pass would take the run for one that was never submitted.
\<close>

locale run_gateway =
  fixes G :: "'n gateway"
  assumes submit_identifies: "gwSubmit G s n = (Inr r, n') \<Longrightarrow> cpr_ID r \<noteq> []"

end
