(* ===== verification/Run_Status.thy ===== *)
theory Run_Status
  imports Platform Run_Gateway
begin

text \<open>
  The status of an AgentRun, the pure part of src/controllers/agentrun_controller.go: the phase a
  backend status word stands for, the projection of the backend's run into the status
  (\<open>applyControlPlaneStatus\<close>), the condition helpers and the clean-up of terminal statuses. The code
  updates the run in place; here each function returns the run it leaves.

  The code reads the clock at several points of a pass. \<open>clock\<close> holds one reading per program
  point, in no assumed order: \<open>now()\<close> itself, and the reading inside each kind of
  \<open>meta.SetStatusCondition\<close> call; \<open>ck_expiry\<close> is the one of \<open>time.Until\<close>.
\<close>

record clock =
  ck_now :: gotime
  ck_completed :: gotime
  ck_references :: gotime
  ck_plane :: gotime
  ck_outcome :: gotime
  ck_expiry :: gotime

subsection \<open>Phases\<close>

definition projectPhase :: "string \<Rightarrow> agent_run_phase" where
  "projectPhase status =
     (let s = to_lower status in
      if s = ''pending'' \<or> s = ''queued'' then AgentRunQueued
      else if s = ''dispatching'' \<or> s = ''running'' then AgentRunRunning
      else if s = ''done'' \<or> s = ''succeeded'' \<or> s = ''completed'' then AgentRunSucceeded
      else if s = ''failed'' \<or> s = ''error'' then AgentRunFailed
      else if s = ''cancelled'' \<or> s = ''canceled'' then AgentRunCancelled
      else AgentRunQueued)"

definition isTerminal :: "agent_run_phase \<Rightarrow> bool" where
  "isTerminal phase \<longleftrightarrow>
     phase = AgentRunSucceeded \<or> phase = AgentRunFailed \<or> phase = AgentRunCancelled"

definition controlPlaneStatusMessage :: "agent_run_phase \<Rightarrow> string" where
  "controlPlaneStatusMessage phase =
     (if phase = AgentRunSucceeded then ''run succeeded; inspect resultRef for result metadata''
      else if phase = AgentRunFailed then ''run failed; inspect the Governed Agent control-plane run ledger''
      else if phase = AgentRunCancelled then ''run cancelled by the Governed Agent control plane''
      else if phase = AgentRunRunning then ''run is executing in the Governed Agent control plane''
      else ''run is queued in the Governed Agent control plane'')"

subsection \<open>Condition helpers\<close>

text \<open>\<open>meta.SetStatusCondition(&run.Status.Conditions, c)\<close> at time \<open>t\<close>.\<close>

definition set_run_cond :: "platform \<Rightarrow> gotime \<Rightarrow> agent_run \<Rightarrow> condition \<Rightarrow> agent_run" where
  "set_run_cond P t run c = with_status run (\<lambda>s. s\<lparr>st_Conditions := set_cond P t (st_Conditions s) c\<rparr>)"

definition run_condition :: "agent_run \<Rightarrow> string \<Rightarrow> string \<Rightarrow> string \<Rightarrow> string \<Rightarrow> condition" where
  "run_condition run ty st reason message =
     condition_lit ty st reason message (om_Generation (run_Meta run))"

definition markReferencesReady :: "platform \<Rightarrow> clock \<Rightarrow> agent_run \<Rightarrow> agent_run" where
  "markReferencesReady P T run =
     set_run_cond P (ck_references T) run
       (run_condition run ''Ready'' ConditionTrue ''ReferencesResolved''
          ''tenant binding, Agent, and DAG references are valid'')"

definition markControlPlaneReady :: "platform \<Rightarrow> clock \<Rightarrow> agent_run \<Rightarrow> agent_run" where
  "markControlPlaneReady P T run =
     set_run_cond P (ck_plane T) run
       (run_condition run ''ControlPlaneReady'' ConditionTrue ''RunGatewayReachable''
          ''Governed Agent control-plane run gateway is reachable'')"

subsection \<open>applyControlPlaneStatus\<close>

definition run_ref :: "string \<Rightarrow> string" where
  "run_ref backendRunID = ''governed://agent-runs/'' @ backendRunID"

definition node_ref :: "string \<Rightarrow> string \<Rightarrow> string" where
  "node_ref backendRunID node = ''governed://agent-runs/'' @ backendRunID @ ''/nodes/'' @ node"

definition node_state_of :: "string \<Rightarrow> control_plane_step \<Rightarrow> node_state" where
  "node_state_of backendRunID step =
     (let phase = projectPhase (cps_Status step) in
      \<lparr>ns_Name = cps_Name step, ns_Phase = phase, ns_StartedAt = None, ns_FinishedAt = None,
       ns_ResultRef = (if phase = AgentRunSucceeded then node_ref backendRunID (cps_Name step) else [])\<rparr>)"

text \<open>Status and reason of the condition \<open>Completed\<close> in \<open>applyControlPlaneStatus\<close>.\<close>

definition completed_verdict :: "agent_run_phase \<Rightarrow> string \<times> string" where
  "completed_verdict phase =
     (if phase = AgentRunSucceeded then (ConditionTrue, ''RunSucceeded'')
      else if phase = AgentRunFailed \<or> phase = AgentRunCancelled then (ConditionFalse, ''Run'' @ phase)
      else (ConditionUnknown, ''RunInProgress''))"

definition applyControlPlaneStatus :: "platform \<Rightarrow> clock \<Rightarrow> agent_run \<Rightarrow> control_plane_run \<Rightarrow> agent_run" where
  "applyControlPlaneStatus P T run control =
     (let s0 = run_Status run;
          s1 = (if cpr_ID control \<noteq> [] then s0\<lparr>st_BackendRunID := cpr_ID control\<rparr> else s0);
          s2 = s1\<lparr>st_Phase := projectPhase (cpr_Status control)\<rparr>;
          s3 = (case cpr_StartedAt control of
                  Some t \<Rightarrow> s2\<lparr>st_StartedAt := Some t\<rparr>
                | None \<Rightarrow> if st_Phase s2 = AgentRunRunning \<and> st_StartedAt s2 = None
                          then s2\<lparr>st_StartedAt := Some (ck_now T)\<rparr> else s2);
          s4 = (case cpr_FinishedAt control of
                  Some t \<Rightarrow> s3\<lparr>st_FinishedAt := Some t\<rparr>
                | None \<Rightarrow> if isTerminal (st_Phase s3) \<and> st_FinishedAt s3 = None
                          then s3\<lparr>st_FinishedAt := Some (ck_now T)\<rparr> else s3);
          s5 = (if st_Phase s4 = AgentRunSucceeded
                then s4\<lparr>st_ResultRef := run_ref (st_BackendRunID s4)\<rparr> else s4);
          s6 = (if st_Phase s5 = AgentRunFailed
                then s5\<lparr>st_ErrorCode := (if cpr_ErrorCode control = [] then ''RUN_FAILED''
                                         else cpr_ErrorCode control)\<rparr> else s5);
          s7 = s6\<lparr>st_Message := controlPlaneStatusMessage (st_Phase s6)\<rparr>;
          s8 = s7\<lparr>st_NodeStates := Some (map (node_state_of (st_BackendRunID s7)) (cpr_Steps control))\<rparr>;
          (conditionStatus, conditionReason) = completed_verdict (st_Phase s8);
          run8 = run\<lparr>run_Status := s8\<rparr>
      in set_run_cond P (ck_completed T) run8
           (run_condition run8 ''Completed'' conditionStatus conditionReason (st_Message s8)))"

subsection \<open>sanitizeTerminalStatus\<close>

text \<open>
  Returns the run it leaves beside the code's result. \<open>before\<close> is a deep copy of the status;
  equality of the two records is \<open>reflect.DeepEqual\<close>.
\<close>

definition sanitizeTerminalStatus :: "platform \<Rightarrow> clock \<Rightarrow> agent_run \<Rightarrow> bool \<times> agent_run" where
  "sanitizeTerminalStatus P T run =
     (if \<not> isTerminal (st_Phase (run_Status run)) then (False, run)
      else
        let before = run_Status run;
            run1 = with_status run (\<lambda>s. s\<lparr>st_Message := controlPlaneStatusMessage (st_Phase s)\<rparr>);
            run2 = (if st_BackendRunID (run_Status run1) \<noteq> [] then markControlPlaneReady P T run1 else run1);
            phase = st_Phase (run_Status run2);
            (conditionStatus, conditionReason) =
              (if phase = AgentRunFailed \<or> phase = AgentRunCancelled then (ConditionFalse, ''Run'' @ phase)
               else (ConditionTrue, ''RunSucceeded''));
            run3 = set_run_cond P (ck_completed T) run2
              (run_condition run2 ''Completed'' conditionStatus conditionReason (st_Message (run_Status run2)))
        in (before \<noteq> run_Status run3, run3))"

subsection \<open>Facts about phases\<close>

lemma isTerminal_phases [simp]:
  "isTerminal AgentRunSucceeded" "isTerminal AgentRunFailed" "isTerminal AgentRunCancelled"
  "\<not> isTerminal AgentRunQueued" "\<not> isTerminal AgentRunRunning" "\<not> isTerminal []"
  by (simp_all add: isTerminal_def) (simp add: text_defs)

lemma projectPhase_cases:
  "projectPhase s \<in> {AgentRunQueued, AgentRunRunning, AgentRunSucceeded, AgentRunFailed, AgentRunCancelled}"
  by (simp add: projectPhase_def Let_def)

lemma projectPhase_phase:
  "phase \<in> {AgentRunQueued, AgentRunRunning, AgentRunSucceeded, AgentRunFailed, AgentRunCancelled} \<Longrightarrow>
     projectPhase phase = phase"
proof -
  have "projectPhase AgentRunQueued = AgentRunQueued" "projectPhase AgentRunRunning = AgentRunRunning"
    "projectPhase AgentRunSucceeded = AgentRunSucceeded" "projectPhase AgentRunFailed = AgentRunFailed"
    "projectPhase AgentRunCancelled = AgentRunCancelled"
    by code_simp+
  then show "phase \<in> {AgentRunQueued, AgentRunRunning, AgentRunSucceeded, AgentRunFailed, AgentRunCancelled} \<Longrightarrow>
      projectPhase phase = phase"
    by auto
qed

lemma projectPhase_terminal:
  "isTerminal (projectPhase s) \<longleftrightarrow>
     to_lower s \<in> {''done'', ''succeeded'', ''completed'', ''failed'', ''error'', ''cancelled'', ''canceled''}"
  by (simp add: projectPhase_def Let_def)

lemma projectPhase_nonempty [simp]: "projectPhase s \<noteq> []"
  using projectPhase_cases [of s] by (auto simp: text_defs)

subsection \<open>The fields the functions leave\<close>

lemma set_run_cond_simps [simp]:
  "run_Meta (set_run_cond P t run c) = run_Meta run"
  "run_Spec (set_run_cond P t run c) = run_Spec run"
  "run_Status (set_run_cond P t run c) =
     (run_Status run)\<lparr>st_Conditions := set_cond P t (st_Conditions (run_Status run)) c\<rparr>"
  by (simp_all add: set_run_cond_def)

lemma run_condition_simps [simp]:
  "cond_Type (run_condition run ty st r m) = ty"
  "cond_Status (run_condition run ty st r m) = st"
  "cond_Reason (run_condition run ty st r m) = r"
  "cond_Message (run_condition run ty st r m) = m"
  "cond_LastTransitionTime (run_condition run ty st r m) = zero_time"
  by (simp_all add: run_condition_def)

lemma mark_frame [simp]:
  "run_Meta (markReferencesReady P T run) = run_Meta run"
  "run_Spec (markReferencesReady P T run) = run_Spec run"
  "run_Meta (markControlPlaneReady P T run) = run_Meta run"
  "run_Spec (markControlPlaneReady P T run) = run_Spec run"
  "st_Phase (run_Status (markReferencesReady P T run)) = st_Phase (run_Status run)"
  "st_Phase (run_Status (markControlPlaneReady P T run)) = st_Phase (run_Status run)"
  "st_BackendRunID (run_Status (markReferencesReady P T run)) = st_BackendRunID (run_Status run)"
  "st_BackendRunID (run_Status (markControlPlaneReady P T run)) = st_BackendRunID (run_Status run)"
  by (simp_all add: markReferencesReady_def markControlPlaneReady_def)

text \<open>
  The assignments of \<open>applyControlPlaneStatus\<close> under an \<open>if\<close> or a nil test, as assignments of a
  conditional value: with them the whole chain is one record update.
\<close>

lemma conditional_assignments:
  "(if b then s\<lparr>st_BackendRunID := x\<rparr> else s) = s\<lparr>st_BackendRunID := if b then x else st_BackendRunID s\<rparr>"
  "(if b then s\<lparr>st_ResultRef := x\<rparr> else s) = s\<lparr>st_ResultRef := if b then x else st_ResultRef s\<rparr>"
  "(if b then s\<lparr>st_ErrorCode := x\<rparr> else s) = s\<lparr>st_ErrorCode := if b then x else st_ErrorCode s\<rparr>"
  "(case p of None \<Rightarrow> if b then s\<lparr>st_StartedAt := y\<rparr> else s | Some t \<Rightarrow> s\<lparr>st_StartedAt := f t\<rparr>) =
     s\<lparr>st_StartedAt := case p of None \<Rightarrow> if b then y else st_StartedAt s | Some t \<Rightarrow> f t\<rparr>"
  "(case p of None \<Rightarrow> if b then s\<lparr>st_FinishedAt := y\<rparr> else s | Some t \<Rightarrow> s\<lparr>st_FinishedAt := f t\<rparr>) =
     s\<lparr>st_FinishedAt := case p of None \<Rightarrow> if b then y else st_FinishedAt s | Some t \<Rightarrow> f t\<rparr>"
  for s :: agent_run_status
  by (simp_all split: option.split)

lemmas apply_unfold = applyControlPlaneStatus_def Let_def case_prod_unfold conditional_assignments

lemma apply_frame [simp]:
  "run_Meta (applyControlPlaneStatus P T run control) = run_Meta run"
  "run_Spec (applyControlPlaneStatus P T run control) = run_Spec run"
  by (simp_all add: apply_unfold split del: if_split cong: if_cong option.case_cong)

text \<open>The backend id after a projection: the answer's, if it has one.\<close>

definition projected_id :: "agent_run \<Rightarrow> control_plane_run \<Rightarrow> string" where
  "projected_id run control =
     (if cpr_ID control \<noteq> [] then cpr_ID control else st_BackendRunID (run_Status run))"


lemma apply_status_fields [simp]:
  fixes P T run control
  defines "s \<equiv> run_Status (applyControlPlaneStatus P T run control)"
  shows "st_Phase s = projectPhase (cpr_Status control)"
    and "st_BackendRunID s = projected_id run control"
    and "st_Message s = controlPlaneStatusMessage (projectPhase (cpr_Status control))"
    and "st_NodeStates s = Some (map (node_state_of (projected_id run control)) (cpr_Steps control))"
    and "st_ObservedGeneration s = st_ObservedGeneration (run_Status run)"
    and "st_Attempts s = st_Attempts (run_Status run)"
    and "st_TraceID s = st_TraceID (run_Status run)"
  unfolding s_def
  by (simp_all add: apply_unfold projected_id_def split del: if_split cong: if_cong option.case_cong)

lemma apply_status_StartedAt:
  "st_StartedAt (run_Status (applyControlPlaneStatus P T run control)) =
     (case cpr_StartedAt control of Some t \<Rightarrow> Some t
      | None \<Rightarrow> if projectPhase (cpr_Status control) = AgentRunRunning \<and> st_StartedAt (run_Status run) = None
                then Some (ck_now T) else st_StartedAt (run_Status run))"
  by (simp add: apply_unfold split del: if_split cong: if_cong option.case_cong)

lemma apply_status_FinishedAt:
  "st_FinishedAt (run_Status (applyControlPlaneStatus P T run control)) =
     (case cpr_FinishedAt control of Some t \<Rightarrow> Some t
      | None \<Rightarrow> if isTerminal (projectPhase (cpr_Status control)) \<and> st_FinishedAt (run_Status run) = None
                then Some (ck_now T) else st_FinishedAt (run_Status run))"
  by (simp add: apply_unfold split del: if_split cong: if_cong option.case_cong)

lemma apply_status_refs:
  "st_ResultRef (run_Status (applyControlPlaneStatus P T run control)) =
     (if projectPhase (cpr_Status control) = AgentRunSucceeded then run_ref (projected_id run control)
      else st_ResultRef (run_Status run))"
  "st_ErrorCode (run_Status (applyControlPlaneStatus P T run control)) =
     (if projectPhase (cpr_Status control) = AgentRunFailed
      then if cpr_ErrorCode control = [] then ''RUN_FAILED'' else cpr_ErrorCode control
      else st_ErrorCode (run_Status run))"
  by (simp_all add: apply_unfold projected_id_def split del: if_split cong: if_cong option.case_cong)

definition completed_condition :: "agent_run \<Rightarrow> agent_run_phase \<Rightarrow> condition" where
  "completed_condition run phase =
     run_condition run ''Completed'' (fst (completed_verdict phase)) (snd (completed_verdict phase))
       (controlPlaneStatusMessage phase)"

lemma apply_status_Conditions:
  "st_Conditions (run_Status (applyControlPlaneStatus P T run control)) =
     set_cond P (ck_completed T) (st_Conditions (run_Status run))
       (completed_condition run (projectPhase (cpr_Status control)))"
  by (simp add: apply_unfold completed_condition_def run_condition_def split del: if_split cong: if_cong option.case_cong)


lemma completed_condition_simps [simp]:
  "cond_Type (completed_condition run ph) = ''Completed''"
  "cond_Status (completed_condition run ph) = fst (completed_verdict ph)"
  "cond_Reason (completed_condition run ph) = snd (completed_verdict ph)"
  "cond_Message (completed_condition run ph) = controlPlaneStatusMessage ph"
  "cond_LastTransitionTime (completed_condition run ph) = zero_time"
  by (simp_all add: completed_condition_def)

subsection \<open>The ledger invariant\<close>

text \<open>
  What the status of a run promises to its readers: one condition per type; a terminal run is
  stamped as finished and a running one as started; a failed run has an error code and a succeeded
  one the reference to its result; a run the backend does not know is new or was cancelled; and for
  a run the backend knows, message and condition \<open>Completed\<close> say what the phase says, in the fixed
  words of the phase.
\<close>

definition completed_ok :: "agent_run_status \<Rightarrow> bool" where
  "completed_ok s \<longleftrightarrow>
     st_Message s = controlPlaneStatusMessage (st_Phase s) \<and>
     (\<exists>c. find_cond (st_Conditions s) ''Completed'' = Some c \<and>
          (cond_Status c, cond_Reason c) = completed_verdict (st_Phase s) \<and>
          cond_Message c = controlPlaneStatusMessage (st_Phase s))"

definition ledger_ok :: "agent_run_status \<Rightarrow> bool" where
  "ledger_ok s \<longleftrightarrow>
     conds_ok (st_Conditions s) \<and>
     (isTerminal (st_Phase s) \<longrightarrow> st_FinishedAt s \<noteq> None) \<and>
     (st_Phase s = AgentRunRunning \<longrightarrow> st_StartedAt s \<noteq> None) \<and>
     (st_Phase s = AgentRunFailed \<longrightarrow> st_ErrorCode s \<noteq> []) \<and>
     (st_Phase s = AgentRunSucceeded \<longrightarrow> st_ResultRef s = run_ref (st_BackendRunID s)) \<and>
     (if st_BackendRunID s = [] then st_Phase s \<in> {[], AgentRunCancelled} else completed_ok s)"

lemma set_cond_conds_ok:
  "set_cond_law (set_cond P) \<Longrightarrow> cond_LastTransitionTime c = zero_time \<Longrightarrow> conds_ok cs \<Longrightarrow>
     conds_ok (set_cond P t cs c)"
  by (rule conds_ok_set_cond)

lemma apply_completed_ok:
  assumes "set_cond_law (set_cond P)"
  shows "completed_ok (run_Status (applyControlPlaneStatus P T run control))"
  by (simp add: completed_ok_def apply_status_Conditions
      set_cond_same [OF assms, of "completed_condition run ph" for ph, simplified])

lemma apply_ledger_ok:
  assumes law: "set_cond_law (set_cond P)" and "conds_ok (st_Conditions (run_Status run))"
    and id: "projected_id run control \<noteq> []"
  shows "ledger_ok (run_Status (applyControlPlaneStatus P T run control))"
proof -
  have "conds_ok (st_Conditions (run_Status (applyControlPlaneStatus P T run control)))"
    unfolding apply_status_Conditions by (rule set_cond_conds_ok) (use assms in simp_all)
  with apply_completed_ok [OF law, of T run control] id show ?thesis
    by (simp add: ledger_ok_def apply_status_FinishedAt apply_status_StartedAt apply_status_refs
        split: option.split)
qed

text \<open>A condition of another type than \<open>Completed\<close> does not touch the ledger.\<close>

lemma ledger_ok_other_cond:
  assumes "set_cond_law (set_cond P)" and "cond_LastTransitionTime c = zero_time"
    and "cond_Type c \<noteq> ''Completed''" and "ledger_ok s"
  shows "ledger_ok (s\<lparr>st_Conditions := set_cond P t (st_Conditions s) c\<rparr>)"
  using assms(4) set_cond_other [OF assms(1,2), of "''Completed''"] assms(3)
    set_cond_conds_ok [OF assms(1,2)]
  by (simp add: ledger_ok_def completed_ok_def split: if_splits)

lemma ledger_ok_irrelevant [simp]:
  "ledger_ok (s\<lparr>st_ObservedGeneration := g\<rparr>) = ledger_ok s"
  "ledger_ok (s\<lparr>st_Attempts := n\<rparr>) = ledger_ok s"
  by (simp_all add: ledger_ok_def completed_ok_def)

lemma mark_ledger_ok:
  assumes "set_cond_law (set_cond P)" and "ledger_ok (run_Status run)"
  shows "ledger_ok (run_Status (markReferencesReady P T run))"
    and "ledger_ok (run_Status (markControlPlaneReady P T run))"
  using assms by (simp_all add: markReferencesReady_def markControlPlaneReady_def ledger_ok_other_cond)

subsection \<open>Clean-up\<close>

lemma terminal_verdict:
  "isTerminal phase \<Longrightarrow>
     (if phase = AgentRunFailed \<or> phase = AgentRunCancelled
      then (ConditionFalse, CHR ''R'' # CHR ''u'' # CHR ''n'' # phase)
      else (ConditionTrue, ''RunSucceeded'')) = completed_verdict phase"
  by (auto simp: isTerminal_def completed_verdict_def)

text \<open>The status \<open>sanitizeTerminalStatus\<close> leaves, in one expression.\<close>

definition clean_conditions :: "platform \<Rightarrow> clock \<Rightarrow> agent_run \<Rightarrow> condition list" where
  "clean_conditions P T run =
     set_cond P (ck_completed T)
       (if st_BackendRunID (run_Status run) \<noteq> []
        then st_Conditions (run_Status (markControlPlaneReady P T run)) else st_Conditions (run_Status run))
       (completed_condition run (st_Phase (run_Status run)))"

definition clean_status :: "platform \<Rightarrow> clock \<Rightarrow> agent_run \<Rightarrow> agent_run_status" where
  "clean_status P T run =
     (run_Status run)\<lparr>st_Message := controlPlaneStatusMessage (st_Phase (run_Status run)),
       st_Conditions := clean_conditions P T run\<rparr>"

lemma sanitize_terminal:
  assumes "isTerminal (st_Phase (run_Status run))"
  shows "sanitizeTerminalStatus P T run =
     (run_Status run \<noteq> clean_status P T run, run\<lparr>run_Status := clean_status P T run\<rparr>)"
  using assms
  by (cases "st_BackendRunID (run_Status run) = []")
     (simp_all add: sanitizeTerminalStatus_def Let_def clean_conditions_def clean_status_def
       terminal_verdict completed_condition_def run_condition_def markControlPlaneReady_def
       set_run_cond_def case_prod_unfold split del: if_split cong: if_cong)

lemma sanitize_other: "\<not> isTerminal (st_Phase (run_Status run)) \<Longrightarrow> sanitizeTerminalStatus P T run = (False, run)"
  by (simp add: sanitizeTerminalStatus_def)


definition plane_condition :: "agent_run \<Rightarrow> condition" where
  "plane_condition run =
     run_condition run ''ControlPlaneReady'' ConditionTrue ''RunGatewayReachable''
       ''Governed Agent control-plane run gateway is reachable''"

lemma plane_condition_simps [simp]:
  "cond_Type (plane_condition run) = ''ControlPlaneReady''"
  "cond_LastTransitionTime (plane_condition run) = zero_time"
  "plane_condition (run\<lparr>run_Status := s\<rparr>) = plane_condition run"
  "completed_condition (run\<lparr>run_Status := s\<rparr>) ph = completed_condition run ph"
  by (simp_all add: plane_condition_def completed_condition_def run_condition_def)

lemma clean_conditions_alt:
  "clean_conditions P T run =
     set_cond P (ck_completed T)
       (if st_BackendRunID (run_Status run) \<noteq> []
        then set_cond P (ck_plane T) (st_Conditions (run_Status run)) (plane_condition run)
        else st_Conditions (run_Status run))
       (completed_condition run (st_Phase (run_Status run)))"
  by (simp add: clean_conditions_def markControlPlaneReady_def plane_condition_def)

text \<open>Cleaning a second time, at any later time, finds nothing to do.\<close>

lemma clean_conditions_idem:
  assumes law: "set_cond_law (set_cond P)" and ok: "conds_ok (st_Conditions (run_Status run))"
  shows "clean_conditions P T' (run\<lparr>run_Status := clean_status P T run\<rparr>) = clean_conditions P T run"
proof -
  let ?s = "run_Status run" and ?run' = "run\<lparr>run_Status := clean_status P T run\<rparr>"
  define mid where "mid =
    (if st_BackendRunID ?s \<noteq> [] then set_cond P (ck_plane T) (st_Conditions ?s) (plane_condition run)
     else st_Conditions ?s)"
  define cs where "cs = set_cond P (ck_completed T) mid (completed_condition run (st_Phase ?s))"
  have ok_mid: "conds_ok mid"
    using set_cond_conds_ok [OF law, of "plane_condition run"] ok by (simp add: mid_def)
  have ok_cs: "conds_ok cs"
    unfolding cs_def by (rule set_cond_conds_ok [OF law _ ok_mid]) simp
  have clean: "clean_conditions P T run = cs" by (simp add: clean_conditions_alt cs_def mid_def)
  have plane: "set_cond P t cs (plane_condition run) = cs" if "st_BackendRunID ?s \<noteq> []" for t
  proof (rule set_cond_idem [OF law _ ok_cs])
    show "find_cond cs (cond_Type (plane_condition run)) =
        Some (plane_condition run\<lparr>cond_LastTransitionTime :=
          set_cond_time (ck_plane T) (st_Conditions ?s) (plane_condition run)\<rparr>)"
      using that set_cond_same [OF law, of "plane_condition run" "ck_plane T" "st_Conditions ?s"]
        set_cond_other [OF law, of "completed_condition run (st_Phase ?s)"]
      by (simp add: cs_def mid_def)
  qed simp
  have "set_cond P t cs (completed_condition run (st_Phase ?s)) = cs" for t
    unfolding cs_def by (rule set_cond_twice [OF law _ ok_mid]) simp
  then show ?thesis
    by (simp add: clean clean_conditions_alt [of P T'] clean_status_def plane)
qed

lemma clean_completed_ok:
  assumes "set_cond_law (set_cond P)"
  shows "completed_ok (clean_status P T run)"
  by (simp add: completed_ok_def clean_status_def clean_conditions_alt
      set_cond_same [OF assms, of "completed_condition run ph" for ph, simplified])

lemma sanitize_stable:
  assumes law: "set_cond_law (set_cond P)" and ok: "conds_ok (st_Conditions (run_Status run))"
  shows "\<not> fst (sanitizeTerminalStatus P T' (snd (sanitizeTerminalStatus P T run)))"
proof (cases "isTerminal (st_Phase (run_Status run))")
  case True
  have "clean_status P T' (run\<lparr>run_Status := clean_status P T run\<rparr>) = clean_status P T run"
    by (simp add: clean_status_def [of P T'] clean_conditions_idem [OF law ok])
       (simp add: clean_status_def)
  moreover have "st_Phase (clean_status P T run) = st_Phase (run_Status run)"
    by (simp add: clean_status_def)
  ultimately show ?thesis using True by (simp add: sanitize_terminal)
qed (simp add: sanitize_other)

subsection \<open>Properties\<close>

text \<open>
  \<open>projectPhase\<close> is total on the five phases, reaches a terminal phase for exactly seven backend
  words, letter case aside, and maps the name of a phase to that phase; an unknown word is \<open>Queued\<close>.
\<close>

lemma projectPhase_total:
  "projectPhase s \<in> {AgentRunQueued, AgentRunRunning, AgentRunSucceeded, AgentRunFailed, AgentRunCancelled} \<and>
   (isTerminal (projectPhase s) \<longleftrightarrow>
      to_lower s \<in> {''done'', ''succeeded'', ''completed'', ''failed'', ''error'', ''cancelled'', ''canceled''}) \<and>
   projectPhase (projectPhase s) = projectPhase s"
  using projectPhase_cases projectPhase_phase [OF projectPhase_cases] projectPhase_terminal by blast

text \<open>The part of the backend's run that is no model output.\<close>

definition lifecycle_step :: "control_plane_step \<Rightarrow> control_plane_step" where
  "lifecycle_step step = step\<lparr>cps_Output := [], cps_Error := [], cps_LatencyMS := 0\<rparr>"

definition lifecycle_of :: "control_plane_run \<Rightarrow> control_plane_run" where
  "lifecycle_of control =
     control\<lparr>cpr_Summary := [], cpr_Steps := map lifecycle_step (cpr_Steps control)\<rparr>"

lemma node_state_of_lifecycle [simp]: "node_state_of b (lifecycle_step step) = node_state_of b step"
  by (simp add: node_state_of_def lifecycle_step_def Let_def)

lemma lifecycle_simps:
  "cpr_ID (lifecycle_of control) = cpr_ID control" "cpr_Status (lifecycle_of control) = cpr_Status control"
  "cpr_ErrorCode (lifecycle_of control) = cpr_ErrorCode control"
  "cpr_StartedAt (lifecycle_of control) = cpr_StartedAt control"
  "cpr_FinishedAt (lifecycle_of control) = cpr_FinishedAt control"
  "map (node_state_of b) (cpr_Steps (lifecycle_of control)) = map (node_state_of b) (cpr_Steps control)"
  by (simp_all add: lifecycle_of_def)

text \<open>
  C18. No model output reaches the custom resource: the status the projection leaves does not depend
  on the summary of the backend's run nor on the output, the error and the latency of its steps.
\<close>

theorem status_hides_output:
  "applyControlPlaneStatus P T run (lifecycle_of control) = applyControlPlaneStatus P T run control"
  by (simp only: applyControlPlaneStatus_def lifecycle_simps)

text \<open>
  The node states are the steps of the backend's run in their order, each under its name and in
  its phase, and exactly the succeeded ones reference a result, under the run's backend id.
\<close>

lemma node_states_follow_steps:
  "\<exists>states. st_NodeStates (run_Status (applyControlPlaneStatus P T run control)) = Some states \<and>
     map ns_Name states = map cps_Name (cpr_Steps control) \<and>
     map ns_Phase states = map (projectPhase \<circ> cps_Status) (cpr_Steps control) \<and>
     map ns_ResultRef states =
       map (\<lambda>s. if ns_Phase s = AgentRunSucceeded
                then run_ref (st_BackendRunID (run_Status (applyControlPlaneStatus P T run control))) @
                     ''/nodes/'' @ ns_Name s
                else []) states"
  by (simp add: node_state_of_def Let_def comp_def node_ref_def run_ref_def)

text \<open>
  Cleaning a terminal status leaves exactly the fixed words of its phase in message and
  condition \<open>Completed\<close>, whatever an earlier version had copied there, touches no status that is not
  terminal, and is done once: a second pass, at any later time, finds nothing to write.
\<close>

lemma sanitize_cleans_once:
  assumes "set_cond_law (set_cond P)" and "conds_ok (st_Conditions (run_Status run))"
  shows "(if isTerminal (st_Phase (run_Status run))
          then completed_ok (run_Status (snd (sanitizeTerminalStatus P T run)))
          else sanitizeTerminalStatus P T run = (False, run)) \<and>
    \<not> fst (sanitizeTerminalStatus P T' (snd (sanitizeTerminalStatus P T run)))"
  using sanitize_stable [OF assms] clean_completed_ok [OF assms(1)]
  by (simp add: sanitize_terminal sanitize_other)

subsection \<open>Witnesses\<close>

definition sample_clock :: clock where
  "sample_clock = \<lparr>ck_now = zero_time, ck_completed = zero_time, ck_references = zero_time,
     ck_plane = zero_time, ck_outcome = zero_time, ck_expiry = zero_time\<rparr>"

definition new_status :: agent_run_status where
  "new_status = \<lparr>st_Phase = [], st_ObservedGeneration = 0, st_Conditions = [], st_NodeStates = None,
     st_Attempts = 0, st_StartedAt = None, st_FinishedAt = None, st_TraceID = [], st_BackendRunID = [],
     st_ResultRef = [], st_ErrorCode = [], st_Message = []\<rparr>"

text \<open>A terminal status with the model output an earlier version copied into it.\<close>

definition legacy_run :: agent_run where
  "legacy_run =
     \<lparr>run_Meta =
        \<lparr>om_Name = ''research-1'', om_Namespace = ''tenant-a'', om_UID = ''uid-1'', om_ResourceVersion = 0,
         om_Generation = 2, om_DeletionTimestamp = None, om_Labels = Map.empty, om_Finalizers = []\<rparr>,
      run_Spec =
        \<lparr>ars_AgentRef = ''research'', ars_Input = \<lparr>in_Task = ''compare retrieval''\<rparr>, ars_DAG = None,
         ars_RetryPolicy = \<lparr>rp_MaxAttempts = 0\<rparr>, ars_TTLSecondsAfterFinished = 0,
         ars_IdempotencyKey = [], ars_Cancel = False\<rparr>,
      run_Status = new_status\<lparr>st_Phase := AgentRunSucceeded, st_BackendRunID := ''backend-run-1'',
        st_Message := ''legacy model output'',
        st_Conditions :=
          [condition_lit ''Completed'' ConditionTrue ''RunSucceeded'' ''legacy model output'' 2,
           condition_lit ''ControlPlaneReady'' ConditionFalse ''SubmitFailed'' ''legacy transient error'' 2]\<rparr>\<rparr>"

theorem sanitize_cleans_once_witness:
  "completed_ok (run_Status (snd (sanitizeTerminalStatus sample_platform sample_clock legacy_run))) \<and>
   \<not> fst (sanitizeTerminalStatus sample_platform sample_clock
            (snd (sanitizeTerminalStatus sample_platform sample_clock legacy_run)))"
  using sanitize_cleans_once [of sample_platform legacy_run sample_clock sample_clock]
  by (simp add: sample_set_cond_law legacy_run_def conds_ok_def)

end
