(* ===== verification/AgentRun_Controller.thy ===== *)
theory AgentRun_Controller
  imports Agent_Controller Dag_Validation Run_Status
begin

text \<open>
  The AgentRun controller, src/controllers/agentrun_controller.go: one definition per method of the
  reconciler, in the order of \<open>Reconcile\<close>. Kubernetes and the run gateway are steps of one world
  \<open>'w\<close>, so a pass is a sequence of steps in the order the code takes them. After a successful status
  update the run is the object the server sent back, as the Go client overwrites it. The log calls
  are left out.
\<close>

subsection \<open>Constants and errors\<close>

definition runFinalizer :: string where [text_defs]:
  "runFinalizer = ''agents.governed.io/agent-run-finalizer''"

definition pollInterval :: int where
  "pollInterval = 2 * second"

text \<open>The error a pass returns: of the API server, or of the gateway when a deletion is pending.\<close>

datatype reconcile_error = KubeErr kube_error | GatewayErr gateway_error

type_synonym pass_result = "(reconcile_error, ctrl_result) result"

text \<open>\<open>return ctrl.Result{}, client.IgnoreNotFound(err)\<close>, \<open>err\<close> possibly nil.\<close>

definition ignoreNotFound :: "kube_error option \<Rightarrow> pass_result" where
  "ignoreNotFound err =
     (case err of None \<Rightarrow> Inr empty_result
      | Some e \<Rightarrow> if ke_NotFound e then Inr empty_result else Inl (KubeErr e))"

text \<open>The errors of \<open>validateReferences\<close> and their texts.\<close>

datatype reference_error =
    TenantBinding tenant_error
  | AgentMissing string
  | AgentLookup kube_error
  | AgentTenantMismatch
  | AgentNotReady string
  | InvalidDAG dag_error

fun dag_error_text :: "platform \<Rightarrow> dag_error \<Rightarrow> string" where
  "dag_error_text P (DuplicateNode n) = ''DAG node '' @ quote (print_table P) n @ '' is duplicated''"
| "dag_error_text P (UnknownDependency n d) =
     ''DAG node '' @ quote (print_table P) n @ '' depends on unknown node '' @ quote (print_table P) d"
| "dag_error_text P (CycleAt n) = ''DAG contains a cycle at node '' @ quote (print_table P) n"

fun reference_error_text :: "platform \<Rightarrow> reference_error \<Rightarrow> string" where
  "reference_error_text P (TenantBinding e) = tenant_error_text P e"
| "reference_error_text P (AgentMissing n) = ''Agent '' @ quote (print_table P) n @ '' does not exist''"
| "reference_error_text P (AgentLookup e) = ke_Text e"
| "reference_error_text P AgentTenantMismatch = ''Agent and AgentRun tenant labels must match''"
| "reference_error_text P (AgentNotReady n) =
     ''Agent '' @ quote (print_table P) n @ '' is not ready for its current generation''"
| "reference_error_text P (InvalidDAG e) = dag_error_text P e"

subsection \<open>References\<close>

definition agent_key :: "agent_run \<Rightarrow> object_key" where
  "agent_key run = \<lparr>ok_Namespace = om_Namespace (run_Meta run), ok_Name = ars_AgentRef (run_Spec run)\<rparr>"

definition validateReferences ::
  "platform \<Rightarrow> 'w kube \<Rightarrow> agent_run \<Rightarrow> 'w \<Rightarrow> (reference_error, string \<times> agent) result \<times> 'w" where
  "validateReferences P K run w =
     (case tenantIDFor P K (run_Meta run) w of
        (Inl err, w1) \<Rightarrow> (Inl (TenantBinding err), w1)
      | (Inr tenantID, w1) \<Rightarrow>
          (case kGetAgent K (agent_key run) w1 of
             (Inl err, w2) \<Rightarrow>
               if ke_NotFound err then (Inl (AgentMissing (ars_AgentRef (run_Spec run))), w2)
               else (Inl (AgentLookup err), w2)
           | (Inr agent, w2) \<Rightarrow>
               if map_get (om_Labels (ag_Meta agent)) TenantIDLabel \<noteq> tenantID then
                 (Inl AgentTenantMismatch, w2)
               else if \<not> ags_Ready (ag_Status agent) \<or>
                       ags_ObservedGeneration (ag_Status agent) \<noteq> om_Generation (ag_Meta agent) then
                 (Inl (AgentNotReady (om_Name (ag_Meta agent))), w2)
               else (case validateDAG (range_check P) (range_visit P) (ars_DAG (run_Spec run)) of
                       Some err \<Rightarrow> (Inl (InvalidDAG err), w2)
                     | None \<Rightarrow> (Inr (tenantID, agent), w2))))"

subsection \<open>Recording a failure\<close>

text \<open>Update of the status subresource followed by a fixed result.\<close>

definition update_status_then :: "'w kube \<Rightarrow> agent_run \<Rightarrow> ctrl_result \<Rightarrow> 'w \<Rightarrow> pass_result \<times> 'w" where
  "update_status_then K run res w =
     (case kUpdateAgentRunStatus K run w of
        (Inl err, w1) \<Rightarrow> (Inl (KubeErr err), w1)
      | (Inr _, w1) \<Rightarrow> (Inr res, w1))"

definition rejected_run :: "platform \<Rightarrow> clock \<Rightarrow> agent_run \<Rightarrow> string \<Rightarrow> string \<Rightarrow> agent_run" where
  "rejected_run P T run reason message =
     (let run1 = with_status run (\<lambda>s. s\<lparr>st_ObservedGeneration := om_Generation (run_Meta run)\<rparr>)
      in set_run_cond P (ck_outcome T) run1
           (run_condition run1 ''Ready'' ConditionFalse reason message))"

definition reject ::
  "platform \<Rightarrow> 'w kube \<Rightarrow> clock \<Rightarrow> agent_run \<Rightarrow> string \<Rightarrow> string \<Rightarrow> 'w \<Rightarrow> pass_result \<times> 'w" where
  "reject P K T run reason message w =
     update_status_then K (rejected_run P T run reason message) (requeue_after (15 * second)) w"

definition failed_run :: "platform \<Rightarrow> clock \<Rightarrow> agent_run \<Rightarrow> string \<Rightarrow> gateway_error \<Rightarrow> agent_run" where
  "failed_run P T run reason err =
     (let message0 = gateway_error_text err;
          message = (if 1024 < length message0 then take 1024 message0 else message0)
      in set_run_cond P (ck_outcome T) run
           (run_condition run ''ControlPlaneReady'' ConditionFalse reason message))"

definition gatewayFailure ::
  "platform \<Rightarrow> 'w kube \<Rightarrow> clock \<Rightarrow> agent_run \<Rightarrow> string \<Rightarrow> gateway_error \<Rightarrow> 'w \<Rightarrow> pass_result \<times> 'w" where
  "gatewayFailure P K T run reason err w =
     update_status_then K (failed_run P T run reason err) (requeue_after (10 * second)) w"

subsection \<open>Submission\<close>

definition project_node :: "agent_run \<Rightarrow> agent \<Rightarrow> dag_node \<Rightarrow> run_node" where
  "project_node run agent node =
     (let prompt = (if dn_Prompt node = [] then in_Task (ars_Input (run_Spec run)) else dn_Prompt node);
          projected = \<lparr>rn_Name = dn_Name node, rn_Prompt = prompt, rn_Role = dn_Role node,
            rn_Model = mr_Model (as_Model (ag_Spec agent)),
            rn_MaxTokens = mr_MaxTokens (as_Model (ag_Spec agent)),
            rn_DependsOn = dn_DependsOn node, rn_MaxRetries = None\<rparr>;
          projected1 = (if rn_Role projected = []
                        then projected\<lparr>rn_Role := rt_Role (as_Runtime (ag_Spec agent))\<rparr> else projected);
          attempts = rp_MaxAttempts (ars_RetryPolicy (run_Spec run))
      in if 1 < attempts then projected1\<lparr>rn_MaxRetries := Some (attempts - 1)\<rparr> else projected1)"

definition main_node :: "agent_run \<Rightarrow> agent \<Rightarrow> run_node" where
  "main_node run agent =
     \<lparr>rn_Name = ''main'', rn_Prompt = in_Task (ars_Input (run_Spec run)),
      rn_Role = rt_Role (as_Runtime (ag_Spec agent)), rn_Model = mr_Model (as_Model (ag_Spec agent)),
      rn_MaxTokens = mr_MaxTokens (as_Model (ag_Spec agent)), rn_DependsOn = [], rn_MaxRetries = None\<rparr>"

definition submission_of :: "agent_run \<Rightarrow> string \<Rightarrow> agent \<Rightarrow> run_submission" where
  "submission_of run tenantID agent =
     (let idempotencyKey = (if ars_IdempotencyKey (run_Spec run) = [] then om_UID (run_Meta run)
                            else ars_IdempotencyKey (run_Spec run));
          nodes0 = (case ars_DAG (run_Spec run) of None \<Rightarrow> []
                    | Some dag \<Rightarrow> map (project_node run agent) (dag_Nodes dag));
          nodes = (if nodes0 = [] then [main_node run agent] else nodes0)
      in \<lparr>rs_TenantID = tenantID, rs_ProjectID = as_ProjectID (ag_Spec agent),
          rs_Task = in_Task (ars_Input (run_Spec run)), rs_Nodes = nodes,
          rs_IdempotencyKey = idempotencyKey\<rparr>)"

text \<open>The run \<open>reconcileSubmit\<close> writes after the backend has accepted it.\<close>

definition accepted_run :: "platform \<Rightarrow> clock \<Rightarrow> agent_run \<Rightarrow> control_plane_run \<Rightarrow> agent_run" where
  "accepted_run P T run controlRun =
     (let run1 = with_status run (\<lambda>s. s\<lparr>st_BackendRunID := cpr_ID controlRun, st_Attempts := 1,
                   st_ObservedGeneration := om_Generation (run_Meta run)\<rparr>);
          run2 = applyControlPlaneStatus P T run1 controlRun;
          run3 = markReferencesReady P T run2;
          run4 = markControlPlaneReady P T run3
      in set_run_cond P (ck_outcome T) run4
           (run_condition run4 ''Accepted'' ConditionTrue ''ControlPlaneAccepted''
              ''run is durably recorded by the Governed Agent control plane''))"

definition reconcileSubmit ::
  "platform \<Rightarrow> 'w kube \<Rightarrow> 'w gateway \<Rightarrow> clock \<Rightarrow> agent_run \<Rightarrow> string \<Rightarrow> agent \<Rightarrow> 'w \<Rightarrow> pass_result \<times> 'w" where
  "reconcileSubmit P K G T run tenantID agent w =
     (case gwSubmit G (submission_of run tenantID agent) w of
        (Inl err, w1) \<Rightarrow> gatewayFailure P K T run ''SubmitFailed'' err w1
      | (Inr controlRun, w1) \<Rightarrow>
          update_status_then K (accepted_run P T run controlRun) (requeue_after pollInterval) w1)"

subsection \<open>Expiry\<close>

definition expires_at :: "agent_run \<Rightarrow> gotime \<Rightarrow> gotime" where
  "expires_at run finishedAt = time_add finishedAt (seconds (ars_TTLSecondsAfterFinished (run_Spec run)))"

definition reconcileTTL :: "'w kube \<Rightarrow> clock \<Rightarrow> agent_run \<Rightarrow> 'w \<Rightarrow> pass_result \<times> 'w" where
  "reconcileTTL K T run w =
     (if ars_TTLSecondsAfterFinished (run_Spec run) = 0 then (Inr empty_result, w)
      else case st_FinishedAt (run_Status run) of
             None \<Rightarrow> (Inr empty_result, w)
           | Some finishedAt \<Rightarrow>
               let remaining = time_until (expires_at run finishedAt) (ck_expiry T) in
               if remaining \<le> 0 then
                 (case kDeleteAgentRun K run w of (err, w1) \<Rightarrow> (ignoreNotFound err, w1))
               else (Inr (requeue_after remaining), w))"

subsection \<open>Polling\<close>

definition polled_run :: "platform \<Rightarrow> clock \<Rightarrow> agent_run \<Rightarrow> control_plane_run \<Rightarrow> agent_run" where
  "polled_run P T run controlRun =
     (let run1 = applyControlPlaneStatus P T run controlRun;
          run2 = with_status run1 (\<lambda>s. s\<lparr>st_ObservedGeneration := om_Generation (run_Meta run1)\<rparr>)
      in markControlPlaneReady P T run2)"

text \<open>\<open>if isTerminal(phase) { return r.reconcileTTL(ctx, run) }; return RequeueAfter: pollInterval\<close>\<close>

definition finish_or_poll :: "'w kube \<Rightarrow> clock \<Rightarrow> agent_run \<Rightarrow> 'w \<Rightarrow> pass_result \<times> 'w" where
  "finish_or_poll K T run w =
     (if isTerminal (st_Phase (run_Status run)) then reconcileTTL K T run w
      else (Inr (requeue_after pollInterval), w))"

definition reconcilePoll ::
  "platform \<Rightarrow> 'w kube \<Rightarrow> 'w gateway \<Rightarrow> clock \<Rightarrow> agent_run \<Rightarrow> string \<Rightarrow> 'w \<Rightarrow> pass_result \<times> 'w" where
  "reconcilePoll P K G T run tenantID w =
     (case gwGet G tenantID (st_BackendRunID (run_Status run)) w of
        (Inl err, w1) \<Rightarrow> gatewayFailure P K T run ''PollFailed'' err w1
      | (Inr controlRun, w1) \<Rightarrow>
          let before = run_Status run; run1 = polled_run P T run controlRun in
          if before \<noteq> run_Status run1 then
            (case kUpdateAgentRunStatus K run1 w1 of
               (Inl err, w2) \<Rightarrow> (Inl (KubeErr err), w2)
             | (Inr run2, w2) \<Rightarrow> finish_or_poll K T run2 w2)
          else finish_or_poll K T run1 w1)"

subsection \<open>Cancellation\<close>

definition cancelled_before_submit :: "platform \<Rightarrow> clock \<Rightarrow> agent_run \<Rightarrow> agent_run" where
  "cancelled_before_submit P T run =
     (let run1 = with_status run (\<lambda>s. s\<lparr>st_Phase := AgentRunCancelled, st_FinishedAt := Some (ck_now T),
                   st_ObservedGeneration := om_Generation (run_Meta run)\<rparr>);
          run2 = markReferencesReady P T run1
      in set_run_cond P (ck_outcome T) run2
           (run_condition run2 ''Cancelled'' ConditionTrue ''CancelledBeforeSubmit''
              ''run was cancelled before control-plane submission''))"

definition cancelled_run :: "platform \<Rightarrow> clock \<Rightarrow> agent_run \<Rightarrow> control_plane_run \<Rightarrow> agent_run" where
  "cancelled_run P T run controlRun =
     (let run1 = applyControlPlaneStatus P T run controlRun;
          run2 = with_status run1 (\<lambda>s. s\<lparr>st_ObservedGeneration := om_Generation (run_Meta run1)\<rparr>);
          run3 = markReferencesReady P T run2;
          run4 = markControlPlaneReady P T run3
      in set_run_cond P (ck_outcome T) run4
           (run_condition run4 ''CancelRequested'' ConditionTrue ''ControlPlaneNotified''
              ''cancellation was accepted by the Governed Agent control plane''))"

definition reconcileCancel ::
  "platform \<Rightarrow> 'w kube \<Rightarrow> 'w gateway \<Rightarrow> clock \<Rightarrow> agent_run \<Rightarrow> string \<Rightarrow> 'w \<Rightarrow> pass_result \<times> 'w" where
  "reconcileCancel P K G T run tenantID w =
     (if st_BackendRunID (run_Status run) = [] then
        update_status_then K (cancelled_before_submit P T run) empty_result w
      else
        (case gwCancel G tenantID (st_BackendRunID (run_Status run)) w of
           (Inl err, w1) \<Rightarrow> gatewayFailure P K T run ''CancelFailed'' err w1
         | (Inr controlRun, w1) \<Rightarrow>
             (case kUpdateAgentRunStatus K (cancelled_run P T run controlRun) w1 of
                (Inl err, w2) \<Rightarrow> (Inl (KubeErr err), w2)
              | (Inr run2, w2) \<Rightarrow> finish_or_poll K T run2 w2)))"

subsection \<open>Deletion\<close>

definition without_finalizer :: "platform \<Rightarrow> agent_run \<Rightarrow> agent_run" where
  "without_finalizer P run =
     run\<lparr>run_Meta := (run_Meta run)\<lparr>om_Finalizers :=
       remove_finalizer P (om_Finalizers (run_Meta run)) runFinalizer\<rparr>\<rparr>"

text \<open>\<open>controllerutil.RemoveFinalizer(run, runFinalizer); return ctrl.Result{}, r.Update(ctx, run)\<close>\<close>

definition release :: "platform \<Rightarrow> 'w kube \<Rightarrow> agent_run \<Rightarrow> 'w \<Rightarrow> pass_result \<times> 'w" where
  "release P K run w =
     (case kUpdateAgentRun K (without_finalizer P run) w of
        (Inl err, w1) \<Rightarrow> (Inl (KubeErr err), w1)
      | (Inr _, w1) \<Rightarrow> (Inr empty_result, w1))"

text \<open>\<open>errors.As(err, &httpErr)\<close> and its status is 404.\<close>

fun gateway_not_found :: "gateway_error \<Rightarrow> bool" where
  "gateway_not_found (HTTPStatus code body) = (code = 404)"
| "gateway_not_found _ = False"

definition reconcileDelete ::
  "platform \<Rightarrow> 'w kube \<Rightarrow> 'w gateway \<Rightarrow> clock \<Rightarrow> agent_run \<Rightarrow> 'w \<Rightarrow> pass_result \<times> 'w" where
  "reconcileDelete P K G T run w =
     (if \<not> contains_finalizer P (om_Finalizers (run_Meta run)) runFinalizer then (Inr empty_result, w)
      else
        let tenantID = map_get (om_Labels (run_Meta run)) TenantIDLabel in
        if st_BackendRunID (run_Status run) \<noteq> [] \<and> \<not> isTerminal (st_Phase (run_Status run)) then
          (case gwCancel G tenantID (st_BackendRunID (run_Status run)) w of
             (Inl err, w1) \<Rightarrow>
               if \<not> gateway_not_found err then (Inl (GatewayErr err), w1) else release P K run w1
           | (Inr controlRun, w1) \<Rightarrow>
               (case kUpdateAgentRunStatus K (applyControlPlaneStatus P T run controlRun) w1 of
                  (Inl err, w2) \<Rightarrow> (Inl (KubeErr err), w2)
                | (Inr run2, w2) \<Rightarrow>
                    if \<not> isTerminal (st_Phase (run_Status run2)) then (Inr (requeue_after pollInterval), w2)
                    else release P K run2 w2))
        else release P K run w)"

subsection \<open>Reconcile\<close>

definition with_finalizer :: "platform \<Rightarrow> agent_run \<Rightarrow> agent_run" where
  "with_finalizer P run =
     run\<lparr>run_Meta := (run_Meta run)\<lparr>om_Finalizers :=
       add_finalizer P (om_Finalizers (run_Meta run)) runFinalizer\<rparr>\<rparr>"

definition reconcileTerminal ::
  "platform \<Rightarrow> 'w kube \<Rightarrow> clock \<Rightarrow> agent_run \<Rightarrow> 'w \<Rightarrow> pass_result \<times> 'w" where
  "reconcileTerminal P K T run w =
     (case sanitizeTerminalStatus P T run of
        (changed, run1) \<Rightarrow>
          if changed then
            (case kUpdateAgentRunStatus K run1 w of
               (Inl err, w1) \<Rightarrow> (Inl (KubeErr err), w1)
             | (Inr run2, w1) \<Rightarrow> reconcileTTL K T run2 w1)
          else reconcileTTL K T run1 w)"

text \<open>The pass on a run that is live, has the finalizer and whose references are valid.\<close>

definition dispatch ::
  "platform \<Rightarrow> 'w kube \<Rightarrow> 'w gateway \<Rightarrow> clock \<Rightarrow> agent_run \<Rightarrow> string \<Rightarrow> agent \<Rightarrow> 'w \<Rightarrow> pass_result \<times> 'w" where
  "dispatch P K G T run tenantID agent w =
     (if ars_Cancel (run_Spec run) then reconcileCancel P K G T run tenantID w
      else if st_BackendRunID (run_Status run) = [] then reconcileSubmit P K G T run tenantID agent w
      else if isTerminal (st_Phase (run_Status run)) then reconcileTerminal P K T run w
      else reconcilePoll P K G T run tenantID w)"

definition Reconcile ::
  "platform \<Rightarrow> 'w kube \<Rightarrow> 'w gateway \<Rightarrow> clock \<Rightarrow> object_key \<Rightarrow> 'w \<Rightarrow> pass_result \<times> 'w" where
  "Reconcile P K G T request w =
     (case kGetAgentRun K request w of
        (Inl err, w1) \<Rightarrow> (ignoreNotFound (Some err), w1)
      | (Inr run, w1) \<Rightarrow>
          if \<not> time_is_zero (om_DeletionTimestamp (run_Meta run)) then reconcileDelete P K G T run w1
          else if \<not> contains_finalizer P (om_Finalizers (run_Meta run)) runFinalizer then
            (case kUpdateAgentRun K (with_finalizer P run) w1 of
               (Inl err, w2) \<Rightarrow> (Inl (KubeErr err), w2)
             | (Inr _, w2) \<Rightarrow> (Inr requeue_now, w2))
          else
            (case validateReferences P K run w1 of
               (Inl err, w2) \<Rightarrow> reject P K T run ''ReferencesNotReady'' (reference_error_text P err) w2
             | (Inr (tenantID, agent), w2) \<Rightarrow> dispatch P K G T run tenantID agent w2))"

subsection \<open>The watch on Agents\<close>

text \<open>The requests an Agent event causes; a failed list is logged and causes none.\<close>

definition runsForAgent :: "'w kube \<Rightarrow> object_meta \<Rightarrow> 'w \<Rightarrow> object_key list \<times> 'w" where
  "runsForAgent K object w =
     (case kListAgentRuns K (om_Namespace object) w of
        (Inl err, w1) \<Rightarrow> ([], w1)
      | (Inr runs, w1) \<Rightarrow>
          (map (key_of \<circ> run_Meta)
             (filter (\<lambda>run. ars_AgentRef (run_Spec run) = om_Name object \<and>
                            \<not> isTerminal (st_Phase (run_Status run))) runs), w1))"

end
