(* ===== verification/Json.thy ===== *)
theory Json
  imports Go_Time Go_Strings
begin

text \<open>
  JSON documents and the rules of \<open>encoding/json\<close> for structs: an object is decoded member by
  member in order, a member is matched to a field by its folded name, an unknown member is skipped,
  \<open>null\<close> leaves a scalar alone and clears a pointer or a slice, a value of the wrong kind is an error,
  and a repeated member is decoded over what is there. \<open>None\<close> stands for an error.
\<close>

datatype json =
    JNull
  | JBool bool
  | JInt int
  | JReal string
  | JStr string
  | JArr "json list"
  | JObj "(string \<times> json) list"

subsection \<open>Field names\<close>

text \<open>
  \<open>foldName\<close> of encoding/json: ASCII letters are raised; the two runes outside ASCII that fold to an
  ASCII letter are the long s (C5 BF) and the Kelvin sign (E2 84 AA).
\<close>

definition upper_byte :: "char \<Rightarrow> char" where
  "upper_byte c = (if 97 \<le> byte c \<and> byte c \<le> 122 then char_of (byte c - 32) else c)"

fun fold_name :: "string \<Rightarrow> string" where
  "fold_name [] = []"
| "fold_name (c # cs) =
     (if c = CHR 0xC5 \<and> take 1 cs = [CHR 0xBF] then CHR ''S'' # fold_name (drop 1 cs)
      else if c = CHR 0xE2 \<and> take 2 cs = [CHR 0x84, CHR 0xAA] then CHR ''K'' # fold_name (drop 2 cs)
      else upper_byte c # fold_name cs)"

declare fold_name.simps [simp del]

subsection \<open>Decoding\<close>

fun dec_string :: "json \<Rightarrow> string \<Rightarrow> string option" where
  "dec_string JNull cur = Some cur"
| "dec_string (JStr s) cur = Some s"
| "dec_string _ cur = None"

fun dec_int :: "json \<Rightarrow> int \<Rightarrow> int option" where
  "dec_int JNull cur = Some cur"
| "dec_int (JInt n) cur = (if int64_min \<le> n \<and> n \<le> int64_max then Some n else None)"
| "dec_int _ cur = None"

fun dec_int_ptr :: "json \<Rightarrow> int option \<Rightarrow> int option option" where
  "dec_int_ptr JNull cur = Some None"
| "dec_int_ptr j cur = map_option Some (dec_int j (case cur of None \<Rightarrow> 0 | Some n \<Rightarrow> n))"

text \<open>A \<open>*time.Time\<close>; \<open>parse\<close> is the RFC 3339 parser of \<open>time.Time.UnmarshalJSON\<close>.\<close>

fun dec_time_ptr :: "(string \<Rightarrow> gotime option) \<Rightarrow> json \<Rightarrow> gotime option \<Rightarrow> gotime option option" where
  "dec_time_ptr parse JNull cur = Some None"
| "dec_time_ptr parse (JStr s) cur = map_option Some (parse s)"
| "dec_time_ptr parse _ cur = None"

text \<open>Elements of a slice are decoded over the elements already there, then over zero values.\<close>

fun dec_elems :: "(json \<Rightarrow> 'a \<Rightarrow> 'a option) \<Rightarrow> 'a \<Rightarrow> json list \<Rightarrow> 'a list \<Rightarrow> 'a list option" where
  "dec_elems f zero [] cur = Some []"
| "dec_elems f zero (j # js) cur =
     (case f j (case cur of [] \<Rightarrow> zero | c # _ \<Rightarrow> c) of
        None \<Rightarrow> None
      | Some x \<Rightarrow> map_option ((#) x) (dec_elems f zero js (drop 1 cur)))"

fun dec_slice :: "(json \<Rightarrow> 'a \<Rightarrow> 'a option) \<Rightarrow> 'a \<Rightarrow> json \<Rightarrow> 'a list \<Rightarrow> 'a list option" where
  "dec_slice f zero JNull cur = Some []"
| "dec_slice f zero (JArr js) cur = dec_elems f zero js cur"
| "dec_slice f zero _ cur = None"

text \<open>The members of an object; \<open>field\<close> gets the folded name of the member.\<close>

fun dec_members :: "(string \<Rightarrow> json \<Rightarrow> 'r \<Rightarrow> 'r option) \<Rightarrow> (string \<times> json) list \<Rightarrow> 'r \<Rightarrow> 'r option" where
  "dec_members field [] r = Some r"
| "dec_members field ((name, j) # ms) r =
     (case field (fold_name name) j r of None \<Rightarrow> None | Some r' \<Rightarrow> dec_members field ms r')"

fun dec_struct :: "(string \<Rightarrow> json \<Rightarrow> 'r \<Rightarrow> 'r option) \<Rightarrow> json \<Rightarrow> 'r \<Rightarrow> 'r option" where
  "dec_struct field JNull r = Some r"
| "dec_struct field (JObj ms) r = dec_members field ms r"
| "dec_struct field _ r = None"

subsection \<open>Encoding with omitempty\<close>

definition omit_str :: "string \<Rightarrow> string \<Rightarrow> (string \<times> json) list" where
  "omit_str name s = (if s = [] then [] else [(name, JStr s)])"

definition omit_int :: "string \<Rightarrow> int \<Rightarrow> (string \<times> json) list" where
  "omit_int name n = (if n = 0 then [] else [(name, JInt n)])"

definition omit_int_ptr :: "string \<Rightarrow> int option \<Rightarrow> (string \<times> json) list" where
  "omit_int_ptr name p = (case p of None \<Rightarrow> [] | Some n \<Rightarrow> [(name, JInt n)])"

definition omit_arr :: "string \<Rightarrow> json list \<Rightarrow> (string \<times> json) list" where
  "omit_arr name js = (if js = [] then [] else [(name, JArr js)])"

subsection \<open>Decoding what was encoded\<close>

lemma dec_members_append:
  "dec_members field (ms @ ms') r = Option.bind (dec_members field ms r) (dec_members field ms')"
  by (induction field ms r rule: dec_members.induct) (auto split: option.splits)

lemma dec_elems_map:
  assumes "\<And>x. x \<in> set xs \<Longrightarrow> f (enc x) zero = Some x"
  shows "dec_elems f zero (map enc xs) [] = Some xs"
  using assms by (induction xs) auto

text \<open>
  An omitted field keeps the value it had; a member that is present is decoded into its field.
\<close>

lemma dec_omit_str:
  "dec_members field (omit_str name s) r = (if s = [] then Some r else field (fold_name name) (JStr s) r)"
  by (auto simp: omit_str_def split: option.splits)

lemma dec_omit_int:
  "dec_members field (omit_int name n) r = (if n = 0 then Some r else field (fold_name name) (JInt n) r)"
  by (auto simp: omit_int_def split: option.splits)

lemma dec_omit_int_ptr:
  "dec_members field (omit_int_ptr name p) r =
     (case p of None \<Rightarrow> Some r | Some n \<Rightarrow> field (fold_name name) (JInt n) r)"
  by (auto simp: omit_int_ptr_def split: option.splits)

lemma dec_omit_arr:
  "dec_members field (omit_arr name js) r =
     (if js = [] then Some r else field (fold_name name) (JArr js) r)"
  by (auto simp: omit_arr_def split: option.splits)

lemmas dec_omit = dec_members_append dec_omit_str dec_omit_int dec_omit_int_ptr dec_omit_arr

end
