(* ===== verification/Http_Gateway.thy ===== *)
theory Http_Gateway
  imports Run_Gateway Json
begin

text \<open>
  \<open>HTTPRunGateway\<close>, the production adapter of src/controllers/run_gateway.go: construction from
  URL and token, the JSON bodies, one HTTP exchange per operation, and the projection of the
  backend's run. The network peer and the parts of the standard library below the HTTP exchange are
  the parameters \<open>net\<close>: whether a URL can be parsed, the exchange itself as a step of the world
  \<open>'n\<close>, the parser from bytes to JSON documents and from RFC 3339 text to times, and the texts of
  decoding errors.
\<close>

subsection \<open>HTTP\<close>

record http_client =
  hc_Timeout :: int

record http_request =
  rq_Method :: string
  rq_URL :: string
  rq_Headers :: "string \<rightharpoonup> string"
  rq_Body :: "json option"

text \<open>A response body is the bytes it delivers and the error, if any, that ends it before EOF.\<close>

record http_response =
  rsp_StatusCode :: int
  rsp_Body :: string
  rsp_BodyError :: "string option"

record 'n net =
  net_URLError :: "string \<Rightarrow> string option"
  net_Do :: "http_client \<Rightarrow> http_request \<Rightarrow> 'n \<Rightarrow> (string, http_response) result \<times> 'n"
  net_ParseJSON :: "string \<Rightarrow> json option"
  net_ParseTime :: "string \<Rightarrow> gotime option"
  net_DecodeText :: "string \<Rightarrow> string"

text \<open>\<open>io.ReadAll(io.LimitReader(body, limit))\<close>: the limit is reached before an error behind it.\<close>

definition body_limit :: nat where "body_limit = 2 ^ 20"

definition read_limited :: "nat \<Rightarrow> http_response \<Rightarrow> (string, string) result" where
  "read_limited limit response =
     (if limit \<le> length (rsp_Body response) then Inr (take limit (rsp_Body response))
      else case rsp_BodyError response of Some e \<Rightarrow> Inl e | None \<Rightarrow> Inr (rsp_Body response))"

subsection \<open>The adapter\<close>

record http_run_gateway =
  hg_baseURL :: string
  hg_token :: string
  hg_client :: http_client

definition NewHTTPRunGateway :: "string \<Rightarrow> string \<Rightarrow> http_client option \<Rightarrow> http_run_gateway" where
  "NewHTTPRunGateway baseURL token client =
     \<lparr>hg_baseURL = trim_right_slash baseURL, hg_token = token,
      hg_client = (case client of None \<Rightarrow> \<lparr>hc_Timeout = 30 * second\<rparr> | Some c \<Rightarrow> c)\<rparr>"

text \<open>\<open>getenv\<close> is \<open>os.Getenv\<close>.\<close>

definition NewHTTPRunGatewayFromEnv :: "(string \<Rightarrow> string) \<Rightarrow> http_run_gateway" where
  "NewHTTPRunGatewayFromEnv getenv =
     NewHTTPRunGateway (getenv ''GOVERNED_API_URL'') (getenv ''GOVERNED_API_TOKEN'') None"

subsection \<open>Bodies\<close>

record submit_run_body =
  srb_Task :: string
  srb_Nodes :: "run_node list"
  srb_ProjectID :: string
  srb_IdempotencyKey :: string

definition enc_run_node :: "run_node \<Rightarrow> json" where
  "enc_run_node n =
     JObj ([(''name'', JStr (rn_Name n)), (''prompt'', JStr (rn_Prompt n))] @
       omit_str ''role'' (rn_Role n) @ omit_str ''model'' (rn_Model n) @
       omit_int ''maxTokens'' (rn_MaxTokens n) @
       omit_arr ''dependsOn'' (map JStr (rn_DependsOn n)) @
       omit_int_ptr ''maxRetries'' (rn_MaxRetries n))"

definition enc_submit_run_body :: "submit_run_body \<Rightarrow> json" where
  "enc_submit_run_body b =
     JObj ([(''task'', JStr (srb_Task b))] @
       omit_arr ''nodes'' (map enc_run_node (srb_Nodes b)) @
       omit_str ''project_id'' (srb_ProjectID b) @
       [(''idempotency_key'', JStr (srb_IdempotencyKey b))])"

record backend_step =
  bst_NodeID :: string
  bst_Status :: string
  bst_Output :: string
  bst_Error :: string
  bst_LatencyMS :: int

record backend_run =
  br_ID :: string
  br_Status :: string
  br_Summary :: string
  br_CreatedAt :: "gotime option"
  br_FinishedAt :: "gotime option"
  br_Steps :: "backend_step list"

record run_envelope =
  env_Run :: backend_run

definition zero_backend_step :: backend_step where
  "zero_backend_step = \<lparr>bst_NodeID = [], bst_Status = [], bst_Output = [], bst_Error = [], bst_LatencyMS = 0\<rparr>"

definition zero_run_envelope :: run_envelope where
  "zero_run_envelope =
     \<lparr>env_Run = \<lparr>br_ID = [], br_Status = [], br_Summary = [], br_CreatedAt = None, br_FinishedAt = None,
                br_Steps = []\<rparr>\<rparr>"

definition dec_backend_step :: "json \<Rightarrow> backend_step \<Rightarrow> backend_step option" where
  "dec_backend_step = dec_struct (\<lambda>name j s.
     if name = ''NODE_ID'' then map_option (\<lambda>x. s\<lparr>bst_NodeID := x\<rparr>) (dec_string j (bst_NodeID s))
     else if name = ''STATUS'' then map_option (\<lambda>x. s\<lparr>bst_Status := x\<rparr>) (dec_string j (bst_Status s))
     else if name = ''OUTPUT'' then map_option (\<lambda>x. s\<lparr>bst_Output := x\<rparr>) (dec_string j (bst_Output s))
     else if name = ''ERROR'' then map_option (\<lambda>x. s\<lparr>bst_Error := x\<rparr>) (dec_string j (bst_Error s))
     else if name = ''LATENCY_MS'' then map_option (\<lambda>x. s\<lparr>bst_LatencyMS := x\<rparr>) (dec_int j (bst_LatencyMS s))
     else Some s)"

definition dec_backend_run :: "(string \<Rightarrow> gotime option) \<Rightarrow> json \<Rightarrow> backend_run \<Rightarrow> backend_run option" where
  "dec_backend_run parse = dec_struct (\<lambda>name j r.
     if name = ''ID'' then map_option (\<lambda>x. r\<lparr>br_ID := x\<rparr>) (dec_string j (br_ID r))
     else if name = ''STATUS'' then map_option (\<lambda>x. r\<lparr>br_Status := x\<rparr>) (dec_string j (br_Status r))
     else if name = ''SUMMARY'' then map_option (\<lambda>x. r\<lparr>br_Summary := x\<rparr>) (dec_string j (br_Summary r))
     else if name = ''CREATED_AT'' then
       map_option (\<lambda>x. r\<lparr>br_CreatedAt := x\<rparr>) (dec_time_ptr parse j (br_CreatedAt r))
     else if name = ''FINISHED_AT'' then
       map_option (\<lambda>x. r\<lparr>br_FinishedAt := x\<rparr>) (dec_time_ptr parse j (br_FinishedAt r))
     else if name = ''STEPS'' then
       map_option (\<lambda>x. r\<lparr>br_Steps := x\<rparr>) (dec_slice dec_backend_step zero_backend_step j (br_Steps r))
     else Some r)"

definition dec_run_envelope :: "(string \<Rightarrow> gotime option) \<Rightarrow> json \<Rightarrow> run_envelope option" where
  "dec_run_envelope parse j = dec_struct (\<lambda>name j e.
     if name = ''RUN'' then map_option (\<lambda>x. e\<lparr>env_Run := x\<rparr>) (dec_backend_run parse j (env_Run e))
     else Some e) j zero_run_envelope"

definition projectRun :: "backend_run \<Rightarrow> control_plane_run" where
  "projectRun run =
     \<lparr>cpr_ID = br_ID run, cpr_Status = br_Status run, cpr_Summary = br_Summary run,
      cpr_ErrorCode = [], cpr_StartedAt = br_CreatedAt run, cpr_FinishedAt = br_FinishedAt run,
      cpr_Steps = map (\<lambda>step.
        \<lparr>cps_Name = bst_NodeID step, cps_Status = bst_Status step, cps_Output = bst_Output step,
         cps_Error = bst_Error step, cps_LatencyMS = bst_LatencyMS step\<rparr>) (br_Steps run)\<rparr>"

subsection \<open>One exchange\<close>

definition request_headers :: "http_run_gateway \<Rightarrow> string \<Rightarrow> string \<Rightarrow> string \<Rightarrow> json option \<Rightarrow> (string \<rightharpoonup> string)" where
  "request_headers g tenantID projectID idempotencyKey body =
     (let h0 = [''Accept'' \<mapsto> ''application/json''];
          h1 = (if body \<noteq> None then h0(''Content-Type'' \<mapsto> ''application/json'') else h0);
          h2 = h1(''X-Tenant-Id'' \<mapsto> tenantID);
          h3 = (if projectID \<noteq> [] then h2(''X-Project-Id'' \<mapsto> projectID) else h2);
          h4 = (if idempotencyKey \<noteq> [] then h3(''X-Idempotency-Key'' \<mapsto> idempotencyKey) else h3)
      in if hg_token g \<noteq> [] then h4(''Authorization'' \<mapsto> ''Bearer '' @ hg_token g) else h4)"

text \<open>\<open>do\<close>; \<open>decode\<close> is \<open>json.Unmarshal\<close> into the result the caller passes.\<close>

definition http_do ::
  "'n net \<Rightarrow> http_run_gateway \<Rightarrow> string \<Rightarrow> string \<Rightarrow> string \<Rightarrow> string \<Rightarrow> string \<Rightarrow> json option \<Rightarrow>
   (json \<Rightarrow> 'r option) \<Rightarrow> 'n \<Rightarrow> (gateway_error, 'r) result \<times> 'n" where
  "http_do N g meth path tenantID projectID idempotencyKey body decode n =
     (if hg_baseURL g = [] then (Inl BaseURLRequired, n)
      else case net_URLError N (hg_baseURL g @ path) of
        Some e \<Rightarrow> (Inl (CreateRequestFailed e), n)
      | None \<Rightarrow>
          (case net_Do N (hg_client g)
                  \<lparr>rq_Method = meth, rq_URL = hg_baseURL g @ path,
                   rq_Headers = request_headers g tenantID projectID idempotencyKey body,
                   rq_Body = body\<rparr> n of
             (Inl e, n1) \<Rightarrow> (Inl (RequestFailed e), n1)
           | (Inr response, n1) \<Rightarrow>
               (case read_limited body_limit response of
                  Inl e \<Rightarrow> (Inl (ReadFailed e), n1)
                | Inr bytes \<Rightarrow>
                    if rsp_StatusCode response < 200 \<or> 300 \<le> rsp_StatusCode response then
                      (Inl (HTTPStatus (rsp_StatusCode response) bytes), n1)
                    else (case Option.bind (net_ParseJSON N bytes) decode of
                            None \<Rightarrow> (Inl (DecodeFailed (net_DecodeText N bytes)), n1)
                          | Some r \<Rightarrow> (Inr r, n1)))))"

definition httpSubmit ::
  "'n net \<Rightarrow> http_run_gateway \<Rightarrow> run_submission \<Rightarrow> 'n \<Rightarrow> (gateway_error, control_plane_run) result \<times> 'n" where
  "httpSubmit N g s n =
     (case http_do N g ''POST'' ''/api/agent-runs'' (rs_TenantID s) (rs_ProjectID s) (rs_IdempotencyKey s)
             (Some (enc_submit_run_body
                \<lparr>srb_Task = rs_Task s, srb_Nodes = rs_Nodes s, srb_ProjectID = rs_ProjectID s,
                 srb_IdempotencyKey = rs_IdempotencyKey s\<rparr>))
             (dec_run_envelope (net_ParseTime N)) n of
        (Inl e, n1) \<Rightarrow> (Inl e, n1)
      | (Inr envelope, n1) \<Rightarrow>
          if br_ID (env_Run envelope) = [] then (Inl NoRunID, n1)
          else (Inr (projectRun (env_Run envelope)), n1))"

definition httpGet ::
  "'n net \<Rightarrow> http_run_gateway \<Rightarrow> string \<Rightarrow> string \<Rightarrow> 'n \<Rightarrow> (gateway_error, control_plane_run) result \<times> 'n" where
  "httpGet N g tenantID runID n =
     (case http_do N g ''GET'' (''/api/agent-runs/'' @ runID) tenantID [] [] None
             (dec_run_envelope (net_ParseTime N)) n of
        (Inl e, n1) \<Rightarrow> (Inl e, n1)
      | (Inr envelope, n1) \<Rightarrow> (Inr (projectRun (env_Run envelope)), n1))"

definition httpCancel ::
  "'n net \<Rightarrow> http_run_gateway \<Rightarrow> string \<Rightarrow> string \<Rightarrow> 'n \<Rightarrow> (gateway_error, control_plane_run) result \<times> 'n" where
  "httpCancel N g tenantID runID n =
     (case http_do N g ''POST'' (''/api/agent-runs/'' @ runID @ ''/cancel'') tenantID [] [] None
             (dec_run_envelope (net_ParseTime N)) n of
        (Inl e, n1) \<Rightarrow> (Inl e, n1)
      | (Inr envelope, n1) \<Rightarrow> (Inr (projectRun (env_Run envelope)), n1))"

text \<open>The adapter as a \<open>RunGateway\<close>; it satisfies the contract for every network.\<close>

definition http_gateway :: "'n net \<Rightarrow> http_run_gateway \<Rightarrow> 'n gateway" where
  "http_gateway N g = \<lparr>gwSubmit = httpSubmit N g, gwGet = httpGet N g, gwCancel = httpCancel N g\<rparr>"

lemma projectRun_ID [simp]: "cpr_ID (projectRun r) = br_ID r"
  by (simp add: projectRun_def)

interpretation http: run_gateway "http_gateway N g" for N g
  by unfold_locales (auto simp: http_gateway_def httpSubmit_def split: prod.splits sum.splits if_splits)

subsection \<open>What the peer reads back\<close>

text \<open>
  Decoding a submission into \<open>submitRunBody\<close>, as a Go server with the same struct does (the test of
  the adapter in src/controllers/run_gateway_test.go).
\<close>

definition zero_run_node :: run_node where
  "zero_run_node =
     \<lparr>rn_Name = [], rn_Prompt = [], rn_Role = [], rn_Model = [], rn_MaxTokens = 0, rn_DependsOn = [],
      rn_MaxRetries = None\<rparr>"

definition run_node_field :: "string \<Rightarrow> json \<Rightarrow> run_node \<Rightarrow> run_node option" where
  "run_node_field name j r =
     (if name = ''NAME'' then map_option (\<lambda>x. r\<lparr>rn_Name := x\<rparr>) (dec_string j (rn_Name r))
      else if name = ''PROMPT'' then map_option (\<lambda>x. r\<lparr>rn_Prompt := x\<rparr>) (dec_string j (rn_Prompt r))
      else if name = ''ROLE'' then map_option (\<lambda>x. r\<lparr>rn_Role := x\<rparr>) (dec_string j (rn_Role r))
      else if name = ''MODEL'' then map_option (\<lambda>x. r\<lparr>rn_Model := x\<rparr>) (dec_string j (rn_Model r))
      else if name = ''MAXTOKENS'' then map_option (\<lambda>x. r\<lparr>rn_MaxTokens := x\<rparr>) (dec_int j (rn_MaxTokens r))
      else if name = ''DEPENDSON'' then
        map_option (\<lambda>x. r\<lparr>rn_DependsOn := x\<rparr>) (dec_slice dec_string [] j (rn_DependsOn r))
      else if name = ''MAXRETRIES'' then
        map_option (\<lambda>x. r\<lparr>rn_MaxRetries := x\<rparr>) (dec_int_ptr j (rn_MaxRetries r))
      else Some r)"

definition submit_field :: "string \<Rightarrow> json \<Rightarrow> submit_run_body \<Rightarrow> submit_run_body option" where
  "submit_field name j b =
     (if name = ''TASK'' then map_option (\<lambda>x. b\<lparr>srb_Task := x\<rparr>) (dec_string j (srb_Task b))
      else if name = ''NODES'' then
        map_option (\<lambda>x. b\<lparr>srb_Nodes := x\<rparr>)
          (dec_slice (dec_struct run_node_field) zero_run_node j (srb_Nodes b))
      else if name = ''PROJECT_ID'' then map_option (\<lambda>x. b\<lparr>srb_ProjectID := x\<rparr>) (dec_string j (srb_ProjectID b))
      else if name = ''IDEMPOTENCY_KEY'' then
        map_option (\<lambda>x. b\<lparr>srb_IdempotencyKey := x\<rparr>) (dec_string j (srb_IdempotencyKey b))
      else Some b)"

definition dec_submit_run_body :: "json \<Rightarrow> submit_run_body option" where
  "dec_submit_run_body j =
     dec_struct submit_field j \<lparr>srb_Task = [], srb_Nodes = [], srb_ProjectID = [], srb_IdempotencyKey = []\<rparr>"

text \<open>The folded names of the members.\<close>

lemma fold_names:
  "fold_name ''name'' = ''NAME''" "fold_name ''prompt'' = ''PROMPT''" "fold_name ''role'' = ''ROLE''"
  "fold_name ''model'' = ''MODEL''" "fold_name ''maxTokens'' = ''MAXTOKENS''"
  "fold_name ''dependsOn'' = ''DEPENDSON''" "fold_name ''maxRetries'' = ''MAXRETRIES''"
  "fold_name ''task'' = ''TASK''" "fold_name ''nodes'' = ''NODES''"
  "fold_name ''project_id'' = ''PROJECT_ID''" "fold_name ''idempotency_key'' = ''IDEMPOTENCY_KEY''"
  by code_simp+

definition int64_ok :: "int \<Rightarrow> bool" where
  "int64_ok n \<longleftrightarrow> int64_min \<le> n \<and> n \<le> int64_max"

definition node_ints_ok :: "run_node \<Rightarrow> bool" where
  "node_ints_ok n \<longleftrightarrow> int64_ok (rn_MaxTokens n) \<and> (\<forall>k. rn_MaxRetries n = Some k \<longrightarrow> int64_ok k)"

lemma dec_strings [simp]: "dec_elems dec_string [] (map JStr xs) [] = Some xs"
  by (rule dec_elems_map) simp

text \<open>Each member, present or omitted, sets a field that holds its zero value.\<close>

lemma dec_role:
  "dec_members run_node_field (omit_str ''role'' x) r = Some (r\<lparr>rn_Role := x\<rparr>)" if "rn_Role r = []"
  using that by (cases r) (simp add: dec_omit fold_names run_node_field_def)

lemma dec_model:
  "dec_members run_node_field (omit_str ''model'' x) r = Some (r\<lparr>rn_Model := x\<rparr>)" if "rn_Model r = []"
  using that by (cases r) (simp add: dec_omit fold_names run_node_field_def)

lemma dec_max_tokens:
  "dec_members run_node_field (omit_int ''maxTokens'' k) r = Some (r\<lparr>rn_MaxTokens := k\<rparr>)"
  if "rn_MaxTokens r = 0" and "int64_ok k"
  using that by (cases r) (simp add: dec_omit fold_names run_node_field_def int64_ok_def)

lemma dec_depends_on:
  "dec_members run_node_field (omit_arr ''dependsOn'' (map JStr ds)) r = Some (r\<lparr>rn_DependsOn := ds\<rparr>)"
  if "rn_DependsOn r = []"
  using that by (cases r) (simp add: dec_omit fold_names run_node_field_def)

lemma dec_max_retries:
  "dec_members run_node_field (omit_int_ptr ''maxRetries'' p) r = Some (r\<lparr>rn_MaxRetries := p\<rparr>)"
  if "rn_MaxRetries r = None" and "\<forall>k. p = Some k \<longrightarrow> int64_ok k"
  using that by (cases r; cases p) (simp_all add: dec_omit fold_names run_node_field_def int64_ok_def)

lemma dec_enc_run_node:
  assumes "node_ints_ok n"
  shows "dec_struct run_node_field (enc_run_node n) zero_run_node = Some n"
  using assms
  by (cases n)
     (simp add: enc_run_node_def zero_run_node_def dec_members_append dec_role dec_model dec_max_tokens
        dec_depends_on dec_max_retries node_ints_ok_def fold_names run_node_field_def)

lemma dec_enc_submit:
  assumes "\<forall>n \<in> set (srb_Nodes b). node_ints_ok n"
  shows "dec_submit_run_body (enc_submit_run_body b) = Some b"
proof -
  have nodes: "dec_elems (dec_struct run_node_field) zero_run_node (map enc_run_node (srb_Nodes b)) [] =
      Some (srb_Nodes b)"
    by (rule dec_elems_map) (use assms dec_enc_run_node in blast)
  then show ?thesis
    by (cases b) (simp add: dec_submit_run_body_def enc_submit_run_body_def dec_omit fold_names submit_field_def)
qed

subsection \<open>Outcomes of an exchange\<close>

definition the_request ::
  "http_run_gateway \<Rightarrow> string \<Rightarrow> string \<Rightarrow> string \<Rightarrow> string \<Rightarrow> string \<Rightarrow> json option \<Rightarrow> http_request" where
  "the_request g meth path tenantID projectID idempotencyKey body =
     \<lparr>rq_Method = meth, rq_URL = hg_baseURL g @ path,
      rq_Headers = request_headers g tenantID projectID idempotencyKey body, rq_Body = body\<rparr>"

definition submit_request :: "http_run_gateway \<Rightarrow> run_submission \<Rightarrow> http_request" where
  "submit_request g s =
     the_request g ''POST'' ''/api/agent-runs'' (rs_TenantID s) (rs_ProjectID s) (rs_IdempotencyKey s)
       (Some (enc_submit_run_body
          \<lparr>srb_Task = rs_Task s, srb_Nodes = rs_Nodes s, srb_ProjectID = rs_ProjectID s,
           srb_IdempotencyKey = rs_IdempotencyKey s\<rparr>))"

lemma http_do_Inr:
  "http_do N g meth path t p k body decode n = (Inr r, n') \<longleftrightarrow>
     hg_baseURL g \<noteq> [] \<and> net_URLError N (hg_baseURL g @ path) = None \<and>
     (\<exists>response bytes doc.
        net_Do N (hg_client g) (the_request g meth path t p k body) n = (Inr response, n') \<and>
        200 \<le> rsp_StatusCode response \<and> rsp_StatusCode response < 300 \<and>
        read_limited body_limit response = Inr bytes \<and>
        net_ParseJSON N bytes = Some doc \<and> decode doc = Some r)"
  by (fastforce simp: http_do_def the_request_def
      split: option.splits prod.splits sum.splits if_splits bind_splits)

text \<open>The peer answers a request with a status outside 2xx and a readable body.\<close>

definition status_answer ::
  "'n net \<Rightarrow> http_run_gateway \<Rightarrow> http_request \<Rightarrow> int \<Rightarrow> string \<Rightarrow> 'n \<Rightarrow> 'n \<Rightarrow> bool" where
  "status_answer N g request code bytes n n' \<longleftrightarrow>
     hg_baseURL g \<noteq> [] \<and> net_URLError N (rq_URL request) = None \<and>
     (\<exists>response. net_Do N (hg_client g) request n = (Inr response, n') \<and>
        rsp_StatusCode response = code \<and> (code < 200 \<or> 300 \<le> code) \<and>
        read_limited body_limit response = Inr bytes)"

lemma http_do_status:
  "http_do N g meth path t p k body decode n = (Inl (HTTPStatus code bytes), n') \<longleftrightarrow>
     hg_baseURL g \<noteq> [] \<and> net_URLError N (hg_baseURL g @ path) = None \<and>
     (\<exists>response.
        net_Do N (hg_client g) (the_request g meth path t p k body) n = (Inr response, n') \<and>
        rsp_StatusCode response = code \<and> (code < 200 \<or> 300 \<le> code) \<and>
        read_limited body_limit response = Inr bytes)"
  by (fastforce simp: http_do_def the_request_def
      split: option.splits prod.splits sum.splits if_splits bind_splits)

lemma read_limited_prefix: "read_limited k response = Inr bytes \<Longrightarrow> bytes = take k (rsp_Body response)"
  by (auto simp: read_limited_def split: if_splits option.splits)

lemma httpSubmit_Inr:
  "httpSubmit N g s n = (Inr r, n') \<Longrightarrow>
     \<exists>envelope. r = projectRun (env_Run envelope) \<and> br_ID (env_Run envelope) \<noteq> [] \<and>
       http_do N g ''POST'' ''/api/agent-runs'' (rs_TenantID s) (rs_ProjectID s) (rs_IdempotencyKey s)
         (rq_Body (submit_request g s)) (dec_run_envelope (net_ParseTime N)) n = (Inr envelope, n')"
  by (auto simp: httpSubmit_def submit_request_def the_request_def split: prod.splits sum.splits if_splits)

lemma httpGet_status:
  "httpGet N g tenant runID n = (Inl (HTTPStatus code bytes), n') \<longleftrightarrow>
     http_do N g ''GET'' (''/api/agent-runs/'' @ runID) tenant [] [] None
       (dec_run_envelope (net_ParseTime N)) n = (Inl (HTTPStatus code bytes), n')"
  by (auto simp: httpGet_def split: prod.splits sum.splits)

lemma httpCancel_status:
  "httpCancel N g tenant runID n = (Inl (HTTPStatus code bytes), n') \<longleftrightarrow>
     http_do N g ''POST'' (''/api/agent-runs/'' @ runID @ ''/cancel'') tenant [] [] None
       (dec_run_envelope (net_ParseTime N)) n = (Inl (HTTPStatus code bytes), n')"
  by (auto simp: httpCancel_def split: prod.splits sum.splits)

subsection \<open>Properties\<close>

text \<open>
  The headers of a request: always \<open>Accept\<close> and the tenant; the content type exactly with a body;
  project, idempotency key and bearer token exactly when they are not empty; nothing else.
\<close>

lemma request_headers_exact:
  "request_headers g tenant project key body h =
     (if h = ''Accept'' then Some ''application/json''
      else if h = ''Content-Type'' then (if body = None then None else Some ''application/json'')
      else if h = ''X-Tenant-Id'' then Some tenant
      else if h = ''X-Project-Id'' then (if project = [] then None else Some project)
      else if h = ''X-Idempotency-Key'' then (if key = [] then None else Some key)
      else if h = ''Authorization'' then (if hg_token g = [] then None else Some (''Bearer '' @ hg_token g))
      else None)"
  by (simp add: request_headers_def Let_def)

text \<open>
  Round trip of a submission: a peer that decodes the request body into the same struct gets
  back exactly what was submitted, omitted empty fields included, as long as the integers are
  \<open>int64\<close> values. The statement is about JSON documents; their byte encoding is the library's.
\<close>

lemma submit_body_roundtrip:
  assumes "\<forall>n \<in> set (srb_Nodes b). node_ints_ok n"
  shows "dec_submit_run_body (enc_submit_run_body b) = Some b"
  using assms by (rule dec_enc_submit)

text \<open>
  A submission succeeds only on a 2xx answer to the one request it sends, whose body, cut at
  1 MiB, is a JSON document that decodes to a run with a non-empty id.
\<close>

lemma submit_success_requires_id:
  assumes "httpSubmit N g s n = (Inr r, n')"
  shows "\<exists>response doc envelope.
     net_Do N (hg_client g) (submit_request g s) n = (Inr response, n') \<and>
     200 \<le> rsp_StatusCode response \<and> rsp_StatusCode response < 300 \<and>
     net_ParseJSON N (take body_limit (rsp_Body response)) = Some doc \<and>
     dec_run_envelope (net_ParseTime N) doc = Some envelope \<and>
     r = projectRun (env_Run envelope) \<and> cpr_ID r \<noteq> []"
proof -
  from httpSubmit_Inr [OF assms] obtain envelope where
    r: "r = projectRun (env_Run envelope)" "br_ID (env_Run envelope) \<noteq> []" and
    ok: "http_do N g ''POST'' ''/api/agent-runs'' (rs_TenantID s) (rs_ProjectID s) (rs_IdempotencyKey s)
         (rq_Body (submit_request g s)) (dec_run_envelope (net_ParseTime N)) n = (Inr envelope, n')"
    by blast
  have req: "the_request g ''POST'' ''/api/agent-runs'' (rs_TenantID s) (rs_ProjectID s)
      (rs_IdempotencyKey s) (rq_Body (submit_request g s)) = submit_request g s"
    by (simp add: submit_request_def the_request_def)
  from ok r show ?thesis
    unfolding http_do_Inr req by (auto dest!: read_limited_prefix)
qed

text \<open>
  A status outside 2xx comes back as the typed error with the response's own code and its body
  cut at 1 MiB, for a poll and for a cancellation alike, and nothing else produces that error: it is
  on this error that the deletion of a run decides that the backend no longer knows it.
\<close>

lemma http_error_is_typed:
  "(httpGet N g tenant runID n = (Inl (HTTPStatus code bytes), n') \<longleftrightarrow>
     status_answer N g (the_request g ''GET'' (''/api/agent-runs/'' @ runID) tenant [] [] None)
       code bytes n n') \<and>
   (httpCancel N g tenant runID n = (Inl (HTTPStatus code bytes), n') \<longleftrightarrow>
     status_answer N g (the_request g ''POST'' (''/api/agent-runs/'' @ runID @ ''/cancel'') tenant [] [] None)
       code bytes n n')"
  by (simp add: httpGet_status httpCancel_status http_do_status status_answer_def the_request_def)

text \<open>
  The base URL loses exactly its trailing slashes, so the request path never starts with two,
  and a gateway without a base URL fails without touching the network.
\<close>

lemma base_url_normalised:
  "(\<exists>k. url = hg_baseURL (NewHTTPRunGateway url token client) @ replicate k (CHR ''/'')) \<and>
   (\<nexists>s. hg_baseURL (NewHTTPRunGateway url token client) = s @ ''/'') \<and>
   httpGet N (NewHTTPRunGateway [] token client) tenant runID n = (Inl BaseURLRequired, n)"
  using trim_right_slash_decomp [of url] trim_right_slash_no_slash [of url]
  by (simp add: NewHTTPRunGateway_def httpGet_def http_do_def trim_right_slash_Nil)

subsection \<open>Witnesses\<close>

definition sample_node :: run_node where
  "sample_node =
     \<lparr>rn_Name = ''plan'', rn_Prompt = ''do it'', rn_Role = [], rn_Model = ''mock'', rn_MaxTokens = 4096,
      rn_DependsOn = [], rn_MaxRetries = Some 2\<rparr>"

definition sample_submission :: run_submission where
  "sample_submission =
     \<lparr>rs_TenantID = ''tenant'', rs_ProjectID = [], rs_Task = ''do it'', rs_Nodes = [sample_node],
      rs_IdempotencyKey = ''key''\<rparr>"

text \<open>A peer that answers every request with one response, which holds one document.\<close>

definition answering :: "int \<Rightarrow> json \<Rightarrow> unit net" where
  "answering code doc =
     \<lparr>net_URLError = (\<lambda>_. None),
      net_Do = (\<lambda>_ _ n. (Inr \<lparr>rsp_StatusCode = code, rsp_Body = ''...'', rsp_BodyError = None\<rparr>, n)),
      net_ParseJSON = (\<lambda>_. Some doc), net_ParseTime = (\<lambda>_. None), net_DecodeText = (\<lambda>_. [])\<rparr>"

definition sample_adapter :: http_run_gateway where
  "sample_adapter = NewHTTPRunGateway ''http://api/'' ''secret'' None"

definition sample_answer :: json where
  "sample_answer = JObj [(''run'', JObj [(''id'', JStr ''run-1''), (''status'', JStr ''queued'')])]"

theorem submit_body_roundtrip_witness:
  "dec_submit_run_body (enc_submit_run_body
      \<lparr>srb_Task = ''do it'', srb_Nodes = [sample_node], srb_ProjectID = [], srb_IdempotencyKey = ''key''\<rparr>) =
   Some \<lparr>srb_Task = ''do it'', srb_Nodes = [sample_node], srb_ProjectID = [], srb_IdempotencyKey = ''key''\<rparr>"
  by (rule submit_body_roundtrip) (simp add: node_ints_ok_def int64_ok_def sample_node_def int64_min_def int64_max_def)

lemma answer_fold_names:
  "fold_name ''run'' = ''RUN''" "fold_name ''id'' = ''ID''" "fold_name ''status'' = ''STATUS''"
  by code_simp+

lemma sample_submit:
  "httpSubmit (answering 200 sample_answer) sample_adapter sample_submission () =
     (Inr \<lparr>cpr_ID = ''run-1'', cpr_Status = ''queued'', cpr_Summary = [], cpr_ErrorCode = [],
          cpr_StartedAt = None, cpr_FinishedAt = None, cpr_Steps = []\<rparr>, ())"
  by (simp add: httpSubmit_def http_do_def answering_def sample_adapter_def sample_answer_def
      NewHTTPRunGateway_def trim_right_slash_def read_limited_def body_limit_def dec_run_envelope_def
      dec_backend_run_def zero_run_envelope_def answer_fold_names projectRun_def)

theorem submit_success_requires_id_witness:
  "\<exists>response doc envelope.
     net_Do (answering 200 sample_answer) (hg_client sample_adapter)
       (submit_request sample_adapter sample_submission) () = (Inr response, ()) \<and>
     200 \<le> rsp_StatusCode response \<and> rsp_StatusCode response < 300 \<and>
     net_ParseJSON (answering 200 sample_answer) (take body_limit (rsp_Body response)) = Some doc \<and>
     dec_run_envelope (net_ParseTime (answering 200 sample_answer)) doc = Some envelope \<and>
     \<lparr>cpr_ID = ''run-1'', cpr_Status = ''queued'', cpr_Summary = [], cpr_ErrorCode = [],
      cpr_StartedAt = None, cpr_FinishedAt = None, cpr_Steps = []\<rparr> = projectRun (env_Run envelope) \<and>
     cpr_ID \<lparr>cpr_ID = ''run-1'', cpr_Status = ''queued'', cpr_Summary = [], cpr_ErrorCode = [],
      cpr_StartedAt = None, cpr_FinishedAt = None, cpr_Steps = []\<rparr> \<noteq> []"
  by (rule submit_success_requires_id [OF sample_submit])

end
