(* ===== verification/Run_Trace.thy ===== *)
theory Run_Trace
  imports AgentRun_Controller Http_Gateway
begin

text \<open>
  What a pass of the AgentRun controller does to the outside, as a sequence of events: the calls of
  the gateway and the writes to the API server, with their answers, in the order they happen. The
  client and the gateway are wrapped so that they record their calls; a pass over the wrapped ones
  is the same pass (\<open>traced_Reconcile\<close>). \<open>run_pass\<close> is the specification of a pass, one rule per
  path of the code; the model of the code refines it (\<open>Reconcile_run_pass\<close>).
\<close>

subsection \<open>Events\<close>

type_synonym gateway_answer = "(gateway_error, control_plane_run) result"
type_synonym write_answer = "(kube_error, agent_run) result"

datatype event =
    EvSubmit run_submission gateway_answer
  | EvPoll string string gateway_answer
  | EvCancel string string gateway_answer
  | EvUpdate agent_run write_answer
  | EvStatus agent_run write_answer
  | EvDelete agent_run "kube_error option"

type_synonym 'w traced = "'w \<times> event list"

fun gateway_event :: "event \<Rightarrow> bool" where
  "gateway_event (EvSubmit _ _) = True"
| "gateway_event (EvPoll _ _ _) = True"
| "gateway_event (EvCancel _ _ _) = True"
| "gateway_event _ = False"

text \<open>A call without a record, and one that records its answer.\<close>

definition unrecorded :: "('w \<Rightarrow> 'a \<times> 'w) \<Rightarrow> 'w traced \<Rightarrow> 'a \<times> 'w traced" where
  "unrecorded f s = (fst (f (fst s)), (snd (f (fst s)), snd s))"

definition recorded :: "('a \<Rightarrow> event) \<Rightarrow> ('w \<Rightarrow> 'a \<times> 'w) \<Rightarrow> 'w traced \<Rightarrow> 'a \<times> 'w traced" where
  "recorded ev f s = (fst (f (fst s)), (snd (f (fst s)), snd s @ [ev (fst (f (fst s)))]))"

definition traced_kube :: "'w kube \<Rightarrow> 'w traced kube" where
  "traced_kube K =
     \<lparr>kGetNamespace = (\<lambda>n. unrecorded (kGetNamespace K n)),
      kGetAgentRun = (\<lambda>k. unrecorded (kGetAgentRun K k)), kGetAgent = (\<lambda>k. unrecorded (kGetAgent K k)),
      kGetTenantPolicy = (\<lambda>k. unrecorded (kGetTenantPolicy K k)),
      kUpdateAgentRun = (\<lambda>r. recorded (EvUpdate r) (kUpdateAgentRun K r)),
      kUpdateAgentRunStatus = (\<lambda>r. recorded (EvStatus r) (kUpdateAgentRunStatus K r)),
      kDeleteAgentRun = (\<lambda>r. recorded (EvDelete r) (kDeleteAgentRun K r)),
      kUpdateAgentStatus = (\<lambda>a. unrecorded (kUpdateAgentStatus K a)),
      kUpdateTenantPolicyStatus = (\<lambda>p. unrecorded (kUpdateTenantPolicyStatus K p)),
      kListAgentRuns = (\<lambda>n. unrecorded (kListAgentRuns K n)), kListAgents = (\<lambda>n. unrecorded (kListAgents K n))\<rparr>"

definition traced_gateway :: "'w gateway \<Rightarrow> 'w traced gateway" where
  "traced_gateway G =
     \<lparr>gwSubmit = (\<lambda>s. recorded (EvSubmit s) (gwSubmit G s)),
      gwGet = (\<lambda>t i. recorded (EvPoll t i) (gwGet G t i)),
      gwCancel = (\<lambda>t i. recorded (EvCancel t i) (gwCancel G t i))\<rparr>"

lemma traced_simps [simp]:
  "kGetNamespace (traced_kube K) n = unrecorded (kGetNamespace K n)"
  "kGetAgentRun (traced_kube K) k = unrecorded (kGetAgentRun K k)"
  "kGetAgent (traced_kube K) k = unrecorded (kGetAgent K k)"
  "kUpdateAgentRun (traced_kube K) r = recorded (EvUpdate r) (kUpdateAgentRun K r)"
  "kUpdateAgentRunStatus (traced_kube K) r = recorded (EvStatus r) (kUpdateAgentRunStatus K r)"
  "kDeleteAgentRun (traced_kube K) r = recorded (EvDelete r) (kDeleteAgentRun K r)"
  "gwSubmit (traced_gateway G) s = recorded (EvSubmit s) (gwSubmit G s)"
  "gwGet (traced_gateway G) t i = recorded (EvPoll t i) (gwGet G t i)"
  "gwCancel (traced_gateway G) t i = recorded (EvCancel t i) (gwCancel G t i)"
  by (simp_all add: traced_kube_def traced_gateway_def)

lemma recorded_simps [simp]:
  "unrecorded f (w, es) = (case f w of (x, w') \<Rightarrow> (x, (w', es)))"
  "recorded ev f (w, es) = (case f w of (x, w') \<Rightarrow> (x, (w', es @ [ev x])))"
  by (simp_all add: unrecorded_def recorded_def split: prod.split)

text \<open>Recording keeps the contract of the gateway.\<close>

lemma traced_run_gateway: "run_gateway G \<Longrightarrow> run_gateway (traced_gateway G)"
  by unfold_locales (auto simp: recorded_def dest: run_gateway.submit_identifies [OF _ prod_eqI])

interpretation traced_http: run_gateway "traced_gateway (http_gateway N g)" for N g
  by (rule traced_run_gateway) (rule http.run_gateway_axioms)

subsection \<open>The specification of a pass\<close>

text \<open>The result of a write whose success ends the pass with \<open>res\<close>.\<close>

definition write_result :: "ctrl_result \<Rightarrow> write_answer \<Rightarrow> pass_result" where
  "write_result res r = (case r of Inl e \<Rightarrow> Inl (KubeErr e) | Inr _ \<Rightarrow> Inr res)"

text \<open>Expiry of a finished run: nothing to do, a later pass, or the deletion of the run.\<close>

inductive expiry :: "clock \<Rightarrow> agent_run \<Rightarrow> event list \<Rightarrow> pass_result \<Rightarrow> bool" for T run where
  no_ttl: "ars_TTLSecondsAfterFinished (run_Spec run) = 0 \<or> st_FinishedAt (run_Status run) = None \<Longrightarrow>
    expiry T run [] (Inr empty_result)"
| pending: "ars_TTLSecondsAfterFinished (run_Spec run) \<noteq> 0 \<Longrightarrow> st_FinishedAt (run_Status run) = Some t \<Longrightarrow>
    0 < time_until (expires_at run t) (ck_expiry T) \<Longrightarrow>
    expiry T run [] (Inr (requeue_after (time_until (expires_at run t) (ck_expiry T))))"
| expired: "ars_TTLSecondsAfterFinished (run_Spec run) \<noteq> 0 \<Longrightarrow> st_FinishedAt (run_Status run) = Some t \<Longrightarrow>
    time_until (expires_at run t) (ck_expiry T) \<le> 0 \<Longrightarrow>
    expiry T run [EvDelete run err] (ignoreNotFound err)"

inductive settle :: "clock \<Rightarrow> agent_run \<Rightarrow> event list \<Rightarrow> pass_result \<Rightarrow> bool" for T run where
  finished: "isTerminal (st_Phase (run_Status run)) \<Longrightarrow> expiry T run es res \<Longrightarrow> settle T run es res"
| unfinished: "\<not> isTerminal (st_Phase (run_Status run)) \<Longrightarrow>
    settle T run [] (Inr (requeue_after pollInterval))"

text \<open>
  The status of a run is written. A failure ends the pass; after a success the pass goes on with the
  run the server answered, as \<open>nxt\<close> describes.
\<close>

inductive written ::
  "(agent_run \<Rightarrow> event list \<Rightarrow> pass_result \<Rightarrow> bool) \<Rightarrow> agent_run \<Rightarrow> event list \<Rightarrow> pass_result \<Rightarrow> bool"
  for nxt run where
  failed: "written nxt run [EvStatus run (Inl e)] (Inl (KubeErr e))"
| stored: "nxt run' es res \<Longrightarrow> written nxt run (EvStatus run (Inr run') # es) res"

inductive deletion :: "platform \<Rightarrow> clock \<Rightarrow> agent_run \<Rightarrow> event list \<Rightarrow> pass_result \<Rightarrow> bool" for P T run where
  foreign: "\<not> contains_finalizer P (om_Finalizers (run_Meta run)) runFinalizer \<Longrightarrow>
    deletion P T run [] (Inr empty_result)"
| nothing_to_cancel: "contains_finalizer P (om_Finalizers (run_Meta run)) runFinalizer \<Longrightarrow>
    st_BackendRunID (run_Status run) = [] \<or> isTerminal (st_Phase (run_Status run)) \<Longrightarrow>
    deletion P T run [EvUpdate (without_finalizer P run) r] (write_result empty_result r)"
| backend_fails: "contains_finalizer P (om_Finalizers (run_Meta run)) runFinalizer \<Longrightarrow>
    st_BackendRunID (run_Status run) \<noteq> [] \<Longrightarrow> \<not> isTerminal (st_Phase (run_Status run)) \<Longrightarrow>
    \<not> gateway_not_found err \<Longrightarrow>
    deletion P T run
      [EvCancel (map_get (om_Labels (run_Meta run)) TenantIDLabel) (st_BackendRunID (run_Status run)) (Inl err)]
      (Inl (GatewayErr err))"
| backend_forgot: "contains_finalizer P (om_Finalizers (run_Meta run)) runFinalizer \<Longrightarrow>
    st_BackendRunID (run_Status run) \<noteq> [] \<Longrightarrow> \<not> isTerminal (st_Phase (run_Status run)) \<Longrightarrow>
    gateway_not_found err \<Longrightarrow>
    deletion P T run
      [EvCancel (map_get (om_Labels (run_Meta run)) TenantIDLabel) (st_BackendRunID (run_Status run)) (Inl err),
       EvUpdate (without_finalizer P run) r]
      (write_result empty_result r)"
| backend_cancels: "contains_finalizer P (om_Finalizers (run_Meta run)) runFinalizer \<Longrightarrow>
    st_BackendRunID (run_Status run) \<noteq> [] \<Longrightarrow> \<not> isTerminal (st_Phase (run_Status run)) \<Longrightarrow>
    written (\<lambda>run' es res.
        if isTerminal (st_Phase (run_Status run'))
        then (\<exists>r. es = [EvUpdate (without_finalizer P run') r] \<and> res = write_result empty_result r)
        else es = [] \<and> res = Inr (requeue_after pollInterval))
      (applyControlPlaneStatus P T run control) es res \<Longrightarrow>
    deletion P T run
      (EvCancel (map_get (om_Labels (run_Meta run)) TenantIDLabel) (st_BackendRunID (run_Status run)) (Inr control)
        # es) res"

text \<open>
  A pass on a live run with the finalizer and valid references. \<open>answers\<close> relates a submission to
  the answers the gateway may give to it.
\<close>

inductive active ::
  "platform \<Rightarrow> clock \<Rightarrow> (run_submission \<Rightarrow> gateway_answer \<Rightarrow> bool) \<Rightarrow> agent_run \<Rightarrow> string \<Rightarrow> agent \<Rightarrow>
   event list \<Rightarrow> pass_result \<Rightarrow> bool"
  for P T answers run tenant agent where
  cancel_new: "ars_Cancel (run_Spec run) \<Longrightarrow> st_BackendRunID (run_Status run) = [] \<Longrightarrow>
    active P T answers run tenant agent
      [EvStatus (cancelled_before_submit P T run) r] (write_result empty_result r)"
| cancel_fails: "ars_Cancel (run_Spec run) \<Longrightarrow> st_BackendRunID (run_Status run) \<noteq> [] \<Longrightarrow>
    active P T answers run tenant agent
      [EvCancel tenant (st_BackendRunID (run_Status run)) (Inl err),
       EvStatus (failed_run P T run ''CancelFailed'' err) r]
      (write_result (requeue_after (10 * second)) r)"
| cancel: "ars_Cancel (run_Spec run) \<Longrightarrow> st_BackendRunID (run_Status run) \<noteq> [] \<Longrightarrow>
    written (settle T) (cancelled_run P T run control) es res \<Longrightarrow>
    active P T answers run tenant agent
      (EvCancel tenant (st_BackendRunID (run_Status run)) (Inr control) # es) res"
| submit_fails: "\<not> ars_Cancel (run_Spec run) \<Longrightarrow> st_BackendRunID (run_Status run) = [] \<Longrightarrow>
    answers (submission_of run tenant agent) (Inl err) \<Longrightarrow>
    active P T answers run tenant agent
      [EvSubmit (submission_of run tenant agent) (Inl err),
       EvStatus (failed_run P T run ''SubmitFailed'' err) r]
      (write_result (requeue_after (10 * second)) r)"
| submit: "\<not> ars_Cancel (run_Spec run) \<Longrightarrow> st_BackendRunID (run_Status run) = [] \<Longrightarrow>
    answers (submission_of run tenant agent) (Inr control) \<Longrightarrow>
    active P T answers run tenant agent
      [EvSubmit (submission_of run tenant agent) (Inr control),
       EvStatus (accepted_run P T run control) r]
      (write_result (requeue_after pollInterval) r)"
| terminal_clean: "\<not> ars_Cancel (run_Spec run) \<Longrightarrow> st_BackendRunID (run_Status run) \<noteq> [] \<Longrightarrow>
    isTerminal (st_Phase (run_Status run)) \<Longrightarrow> run_Status run = clean_status P T run \<Longrightarrow>
    expiry T run es res \<Longrightarrow> active P T answers run tenant agent es res"
| terminal_dirty: "\<not> ars_Cancel (run_Spec run) \<Longrightarrow> st_BackendRunID (run_Status run) \<noteq> [] \<Longrightarrow>
    isTerminal (st_Phase (run_Status run)) \<Longrightarrow> run_Status run \<noteq> clean_status P T run \<Longrightarrow>
    written (expiry T) (run\<lparr>run_Status := clean_status P T run\<rparr>) es res \<Longrightarrow>
    active P T answers run tenant agent es res"
| poll_fails: "\<not> ars_Cancel (run_Spec run) \<Longrightarrow> st_BackendRunID (run_Status run) \<noteq> [] \<Longrightarrow>
    \<not> isTerminal (st_Phase (run_Status run)) \<Longrightarrow>
    active P T answers run tenant agent
      [EvPoll tenant (st_BackendRunID (run_Status run)) (Inl err),
       EvStatus (failed_run P T run ''PollFailed'' err) r]
      (write_result (requeue_after (10 * second)) r)"
| poll_same: "\<not> ars_Cancel (run_Spec run) \<Longrightarrow> st_BackendRunID (run_Status run) \<noteq> [] \<Longrightarrow>
    \<not> isTerminal (st_Phase (run_Status run)) \<Longrightarrow>
    run_Status run = run_Status (polled_run P T run control) \<Longrightarrow>
    active P T answers run tenant agent
      [EvPoll tenant (st_BackendRunID (run_Status run)) (Inr control)] (Inr (requeue_after pollInterval))"
| poll_changed: "\<not> ars_Cancel (run_Spec run) \<Longrightarrow> st_BackendRunID (run_Status run) \<noteq> [] \<Longrightarrow>
    \<not> isTerminal (st_Phase (run_Status run)) \<Longrightarrow>
    run_Status run \<noteq> run_Status (polled_run P T run control) \<Longrightarrow>
    written (settle T) (polled_run P T run control) es res \<Longrightarrow>
    active P T answers run tenant agent
      (EvPoll tenant (st_BackendRunID (run_Status run)) (Inr control) # es) res"

inductive run_pass ::
  "platform \<Rightarrow> clock \<Rightarrow> (run_submission \<Rightarrow> gateway_answer \<Rightarrow> bool) \<Rightarrow> agent_run \<Rightarrow>
   (reference_error, string \<times> agent) result \<Rightarrow> event list \<Rightarrow> pass_result \<Rightarrow> bool"
  for P T answers run refs where
  deleted: "\<not> time_is_zero (om_DeletionTimestamp (run_Meta run)) \<Longrightarrow> deletion P T run es res \<Longrightarrow>
    run_pass P T answers run refs es res"
| adopt: "time_is_zero (om_DeletionTimestamp (run_Meta run)) \<Longrightarrow>
    \<not> contains_finalizer P (om_Finalizers (run_Meta run)) runFinalizer \<Longrightarrow>
    run_pass P T answers run refs [EvUpdate (with_finalizer P run) r] (write_result requeue_now r)"
| unresolved: "time_is_zero (om_DeletionTimestamp (run_Meta run)) \<Longrightarrow>
    contains_finalizer P (om_Finalizers (run_Meta run)) runFinalizer \<Longrightarrow> refs = Inl err \<Longrightarrow>
    run_pass P T answers run refs
      [EvStatus (rejected_run P T run ''ReferencesNotReady'' (reference_error_text P err)) r]
      (write_result (requeue_after (15 * second)) r)"
| resolved: "time_is_zero (om_DeletionTimestamp (run_Meta run)) \<Longrightarrow>
    contains_finalizer P (om_Finalizers (run_Meta run)) runFinalizer \<Longrightarrow> refs = Inr (tenant, agent) \<Longrightarrow>
    active P T answers run tenant agent es res \<Longrightarrow> run_pass P T answers run refs es res"


subsection \<open>The code refines the specification\<close>

text \<open>A recorded step appends events that, with its result, satisfy a specification.\<close>

definition emits ::
  "('w traced \<Rightarrow> pass_result \<times> 'w traced) \<Rightarrow> (event list \<Rightarrow> pass_result \<Rightarrow> bool) \<Rightarrow> bool" where
  "emits m spec \<longleftrightarrow>
     (\<forall>w es0. \<exists>es. snd (snd (m (w, es0))) = es0 @ es \<and> spec es (fst (m (w, es0))))"

lemma emitsI:
  "(\<And>w es0. \<exists>es. snd (snd (m (w, es0))) = es0 @ es \<and> spec es (fst (m (w, es0)))) \<Longrightarrow> emits m spec"
  by (simp add: emits_def)

lemma emitsD:
  assumes "emits m spec"
  obtains es where "snd (snd (m (w, es0))) = es0 @ es" and "spec es (fst (m (w, es0)))"
  using assms by (auto simp: emits_def)

lemma emits_from_nil: "emits m spec \<Longrightarrow> spec (snd (snd (m (w, [])))) (fst (m (w, [])))"
  by (erule emitsD [of m spec w "[]"]) simp

lemma emits_mono: "emits m spec \<Longrightarrow> (\<And>es res. spec es res \<Longrightarrow> spec' es res) \<Longrightarrow> emits m spec'"
  unfolding emits_def by blast

text \<open>An immediate result, and a recorded call followed by a step that may depend on its answer.\<close>

lemma emits_return: "spec [] res \<Longrightarrow> emits (\<lambda>s. (res, s)) spec"
  by (simp add: emits_def)

lemma emits_recorded:
  assumes "\<And>x w w'. f w = (x, w') \<Longrightarrow> emits (k x) (\<lambda>es res. spec (ev x # es) res)"
  shows "emits (\<lambda>s. case recorded ev f s of (x, s') \<Rightarrow> k x s') spec"
proof (rule emitsI)
  fix w es0
  obtain x w' where f: "f w = (x, w')" by (cases "f w")
  from emitsD [OF assms [OF f], of w' "es0 @ [ev x]"] obtain es where
    "snd (snd (k x (w', es0 @ [ev x]))) = (es0 @ [ev x]) @ es"
    "spec (ev x # es) (fst (k x (w', es0 @ [ev x])))" .
  then show "\<exists>es. snd (snd (case recorded ev f (w, es0) of (x, s') \<Rightarrow> k x s')) = es0 @ es \<and>
      spec es (fst (case recorded ev f (w, es0) of (x, s') \<Rightarrow> k x s'))"
    by (intro exI [of _ "ev x # es"]) (simp add: f)
qed

lemma sum_prod_case:
  "(case p of (Inl e, s) \<Rightarrow> f e s | (Inr y, s) \<Rightarrow> g y s) =
     (case p of (x, s) \<Rightarrow> (case x of Inl e \<Rightarrow> f e | Inr y \<Rightarrow> g y) s)"
  by (simp split: prod.split sum.split)

text \<open>A call whose answer is an error or a value, in the form the code tests it.\<close>

lemma emits_call:
  assumes "\<And>e w w'. c w = (Inl e, w') \<Longrightarrow> emits (f e) (\<lambda>es res. spec (ev (Inl e) # es) res)"
    and "\<And>y w w'. c w = (Inr y, w') \<Longrightarrow> emits (g y) (\<lambda>es res. spec (ev (Inr y) # es) res)"
  shows "emits (\<lambda>s. case recorded ev c s of (x, s') \<Rightarrow> (case x of Inl e \<Rightarrow> f e | Inr y \<Rightarrow> g y) s') spec"
proof (rule emits_recorded)
  fix x w w' assume "c w = (x, w')"
  with assms show "emits (case x of Inl e \<Rightarrow> f e | Inr y \<Rightarrow> g y) (\<lambda>es res. spec (ev x # es) res)"
    by (cases x) auto
qed

lemma emits_update_status_then:
  "emits (update_status_then (traced_kube K) run res)
     (\<lambda>es result. \<exists>r. es = [EvStatus run r] \<and> result = write_result res r)"
  unfolding update_status_then_def traced_simps sum_prod_case
  by (rule emits_call) (auto intro: emits_return simp: write_result_def)

lemma emits_release:
  "emits (release P (traced_kube K) run)
     (\<lambda>es result. \<exists>r. es = [EvUpdate (without_finalizer P run) r] \<and> result = write_result empty_result r)"
  unfolding release_def traced_simps sum_prod_case
  by (rule emits_call) (auto intro: emits_return simp: write_result_def)

lemma emits_reconcileTTL: "emits (reconcileTTL (traced_kube K) T run) (expiry T run)"
  by (rule emitsI)
     (auto simp: reconcileTTL_def Let_def intro: expiry.intros split: option.split prod.split)

lemma emits_finish_or_poll: "emits (finish_or_poll (traced_kube K) T run) (settle T run)"
proof (cases "isTerminal (st_Phase (run_Status run))")
  case True
  then have "finish_or_poll (traced_kube K) T run = reconcileTTL (traced_kube K) T run"
    by (simp add: finish_or_poll_def fun_eq_iff)
  then show ?thesis by (simp add: emits_mono [OF emits_reconcileTTL settle.finished [OF True]])
next
  case False
  then show ?thesis by (simp add: finish_or_poll_def emits_def settle.unfinished)
qed

lemma emits_written:
  assumes "\<And>run'. emits (k run') (nxt run')"
  shows "emits (\<lambda>s. case kUpdateAgentRunStatus (traced_kube K) run s of
                   (Inl err, s') \<Rightarrow> (Inl (KubeErr err), s') | (Inr run', s') \<Rightarrow> k run' s')
          (written nxt run)"
  unfolding traced_simps sum_prod_case
  by (rule emits_call)
     (auto intro: emits_return emits_mono [OF assms] written.intros)


text \<open>The two ways the methods go on after a status write.\<close>

lemma emits_written_poll:
  "emits (\<lambda>s. case kUpdateAgentRunStatus (traced_kube K) run s of
                (Inl err, s') \<Rightarrow> (Inl (KubeErr err), s')
              | (Inr run', s') \<Rightarrow> finish_or_poll (traced_kube K) T run' s') (written (settle T) run)"
  by (rule emits_written) (rule emits_finish_or_poll)

lemma emits_written_TTL:
  "emits (\<lambda>s. case kUpdateAgentRunStatus (traced_kube K) run s of
                (Inl err, s') \<Rightarrow> (Inl (KubeErr err), s')
              | (Inr run', s') \<Rightarrow> reconcileTTL (traced_kube K) T run' s') (written (expiry T) run)"
  by (rule emits_written) (rule emits_reconcileTTL)

lemma emits_gatewayFailure:
  "emits (gatewayFailure P (traced_kube K) T run reason err)
     (\<lambda>es res. \<exists>r. es = [EvStatus (failed_run P T run reason err) r] \<and>
                 res = write_result (requeue_after (10 * second)) r)"
  unfolding gatewayFailure_def by (rule emits_update_status_then)

lemma emits_eq: "emits m spec \<Longrightarrow> m' = m \<Longrightarrow> emits m' spec"
  by simp

text \<open>The methods behind the dispatch, each against the rules of its branch.\<close>

lemma emits_reconcileSubmit:
  assumes "\<not> ars_Cancel (run_Spec run)" and "st_BackendRunID (run_Status run) = []"
  shows "emits (reconcileSubmit P (traced_kube K) (traced_gateway G) T run tenant agent)
     (active P T (\<lambda>s r. \<exists>w w'. gwSubmit G s w = (r, w')) run tenant agent)"
  unfolding reconcileSubmit_def traced_simps sum_prod_case
  by (rule emits_call)
     (auto intro!: emits_mono [OF emits_gatewayFailure] emits_mono [OF emits_update_status_then]
        submit_fails submit assms)

lemma emits_reconcileCancel:
  assumes "ars_Cancel (run_Spec run)"
  shows "emits (reconcileCancel P (traced_kube K) (traced_gateway G) T run tenant)
     (active P T answers run tenant agent)"
proof (cases "st_BackendRunID (run_Status run) = []")
  case True
  have "emits (update_status_then (traced_kube K) (cancelled_before_submit P T run) empty_result)
      (active P T answers run tenant agent)"
    by (auto intro!: emits_mono [OF emits_update_status_then] cancel_new assms True)
  then show ?thesis by (rule emits_eq) (simp add: reconcileCancel_def True fun_eq_iff)
next
  case False
  have "emits (\<lambda>s. case recorded (EvCancel tenant (st_BackendRunID (run_Status run)))
        (gwCancel G tenant (st_BackendRunID (run_Status run))) s of (x, s') \<Rightarrow>
        (case x of Inl err \<Rightarrow> gatewayFailure P (traced_kube K) T run ''CancelFailed'' err
         | Inr controlRun \<Rightarrow> (\<lambda>w1. case kUpdateAgentRunStatus (traced_kube K) (cancelled_run P T run controlRun) w1 of
                (Inl err, w2) \<Rightarrow> (Inl (KubeErr err), w2)
              | (Inr run2, w2) \<Rightarrow> finish_or_poll (traced_kube K) T run2 w2)) s')
      (active P T answers run tenant agent)"
  proof (rule emits_call)
    fix err
    show "emits (gatewayFailure P (traced_kube K) T run ''CancelFailed'' err)
        (\<lambda>es res. active P T answers run tenant agent
          (EvCancel tenant (st_BackendRunID (run_Status run)) (Inl err) # es) res)"
      by (auto intro!: emits_mono [OF emits_gatewayFailure] cancel_fails assms False)
  next
    fix control
    show "emits (\<lambda>w1. case kUpdateAgentRunStatus (traced_kube K) (cancelled_run P T run control) w1 of
            (Inl err, w2) \<Rightarrow> (Inl (KubeErr err), w2)
          | (Inr run2, w2) \<Rightarrow> finish_or_poll (traced_kube K) T run2 w2)
        (\<lambda>es res. active P T answers run tenant agent
          (EvCancel tenant (st_BackendRunID (run_Status run)) (Inr control) # es) res)"
      by (rule emits_mono [OF emits_written_poll cancel [OF assms False]])
  qed
  then show ?thesis
    by (rule emits_eq) (simp add: reconcileCancel_def False sum_prod_case fun_eq_iff)
qed

lemma emits_reconcilePoll:
  assumes "\<not> ars_Cancel (run_Spec run)" and "st_BackendRunID (run_Status run) \<noteq> []"
    and "\<not> isTerminal (st_Phase (run_Status run))"
  shows "emits (reconcilePoll P (traced_kube K) (traced_gateway G) T run tenant)
     (active P T answers run tenant agent)"
  unfolding reconcilePoll_def traced_simps sum_prod_case
proof (rule emits_call)
  fix control
  let ?run1 = "polled_run P T run control"
  let ?spec = "\<lambda>es res. active P T answers run tenant agent
    (EvPoll tenant (st_BackendRunID (run_Status run)) (Inr control) # es) res"
  show "emits (\<lambda>w1. let before = run_Status run; run1 = ?run1 in
      if before \<noteq> run_Status run1 then
        (case recorded (EvStatus run1) (kUpdateAgentRunStatus K run1) w1 of
           (x, w2) \<Rightarrow> (case x of Inl err \<Rightarrow> Pair (Inl (KubeErr err))
                      | Inr run2 \<Rightarrow> finish_or_poll (traced_kube K) T run2) w2)
      else finish_or_poll (traced_kube K) T run1 w1) ?spec"
  proof (cases "run_Status run = run_Status ?run1")
    case True
    have "emits (finish_or_poll (traced_kube K) T ?run1) ?spec"
    proof (rule emits_mono [OF emits_finish_or_poll])
      fix es res assume "settle T ?run1 es res"
      then have "es = [] \<and> res = Inr (requeue_after pollInterval)"
        using True assms(3) by cases simp_all
      with poll_same [OF assms True] show "?spec es res" by simp
    qed
    then show ?thesis by (rule emits_eq) (simp add: Let_def True fun_eq_iff)
  next
    case False
    from emits_mono [OF emits_written_poll [of K] poll_changed [OF assms False]]
    show ?thesis
      by (rule emits_eq) (auto simp: Let_def False split: prod.split sum.split)
  qed
qed (auto intro!: emits_mono [OF emits_gatewayFailure] poll_fails assms)


lemma emits_reconcileTerminal:
  assumes "\<not> ars_Cancel (run_Spec run)" and "st_BackendRunID (run_Status run) \<noteq> []"
    and "isTerminal (st_Phase (run_Status run))"
  shows "emits (reconcileTerminal P (traced_kube K) T run) (active P T answers run tenant agent)"
proof (cases "run_Status run = clean_status P T run")
  case True
  then have "run\<lparr>run_Status := clean_status P T run\<rparr> = run" by (cases run) simp
  then have "reconcileTerminal P (traced_kube K) T run = reconcileTTL (traced_kube K) T run"
    by (simp add: reconcileTerminal_def sanitize_terminal [OF assms(3)] True [symmetric] fun_eq_iff)
  with emits_mono [OF emits_reconcileTTL [of K] terminal_clean [OF assms True]] show ?thesis
    by (rule emits_eq)
next
  case False
  from emits_mono [OF emits_written_TTL [of K] terminal_dirty [OF assms False]] show ?thesis
    by (rule emits_eq)
       (auto simp: reconcileTerminal_def sanitize_terminal [OF assms(3)] False split: prod.split sum.split)
qed

lemma emits_dispatch:
  "emits (dispatch P (traced_kube K) (traced_gateway G) T run tenant agent)
     (active P T (\<lambda>s r. \<exists>w w'. gwSubmit G s w = (r, w')) run tenant agent)"
proof -
  consider "ars_Cancel (run_Spec run)"
    | "\<not> ars_Cancel (run_Spec run)" "st_BackendRunID (run_Status run) = []"
    | "\<not> ars_Cancel (run_Spec run)" "st_BackendRunID (run_Status run) \<noteq> []"
      "isTerminal (st_Phase (run_Status run))"
    | "\<not> ars_Cancel (run_Spec run)" "st_BackendRunID (run_Status run) \<noteq> []"
      "\<not> isTerminal (st_Phase (run_Status run))"
    by blast
  then show ?thesis
  proof cases
    case 1
    show ?thesis by (rule emits_eq [OF emits_reconcileCancel [OF 1, of P K G]]) (simp add: dispatch_def 1 fun_eq_iff)
  next
    case 2
    show ?thesis by (rule emits_eq [OF emits_reconcileSubmit [OF 2, of P K G]]) (simp add: dispatch_def 2 fun_eq_iff)
  next
    case 3
    show ?thesis by (rule emits_eq [OF emits_reconcileTerminal [OF 3, of P K]]) (simp add: dispatch_def 3 fun_eq_iff)
  next
    case 4
    show ?thesis by (rule emits_eq [OF emits_reconcilePoll [OF 4, of P K G]]) (simp add: dispatch_def 4 fun_eq_iff)
  qed
qed

lemma emits_release_if:
  "emits (\<lambda>w. if \<not> isTerminal (st_Phase (run_Status run')) then (Inr (requeue_after pollInterval), w)
             else release P (traced_kube K) run' w)
     (\<lambda>es res. if isTerminal (st_Phase (run_Status run'))
        then (\<exists>r. es = [EvUpdate (without_finalizer P run') r] \<and> res = write_result empty_result r)
        else es = [] \<and> res = Inr (requeue_after pollInterval))"
  using emits_release [of P K run']
  by (cases "isTerminal (st_Phase (run_Status run'))") (simp_all add: emits_return)

lemma emits_reconcileDelete:
  "emits (reconcileDelete P (traced_kube K) (traced_gateway G) T run) (deletion P T run)"
proof -
  let ?fin = "contains_finalizer P (om_Finalizers (run_Meta run)) runFinalizer"
  let ?id = "st_BackendRunID (run_Status run)" and ?terminal = "isTerminal (st_Phase (run_Status run))"
  let ?tenant = "map_get (om_Labels (run_Meta run)) TenantIDLabel"
  consider "\<not> ?fin" | "?fin" "?id = [] \<or> ?terminal" | "?fin" "?id \<noteq> []" "\<not> ?terminal" by blast
  then show ?thesis
  proof cases
    case 1
    show ?thesis
      by (rule emits_eq [OF emits_return [of "deletion P T run", OF foreign [OF 1]]])
         (simp add: reconcileDelete_def 1 fun_eq_iff)
  next
    case 2
    have "emits (release P (traced_kube K) run) (deletion P T run)"
      by (auto intro!: emits_mono [OF emits_release] nothing_to_cancel 2)
    then show ?thesis by (rule emits_eq) (use 2 in \<open>auto simp: reconcileDelete_def Let_def fun_eq_iff\<close>)
  next
    case 3
    have "emits (\<lambda>s. case recorded (EvCancel ?tenant ?id) (gwCancel G ?tenant ?id) s of (x, s') \<Rightarrow>
        (case x of Inl err \<Rightarrow> (\<lambda>w1. if \<not> gateway_not_found err then (Inl (GatewayErr err), w1)
                                  else release P (traced_kube K) run w1)
         | Inr controlRun \<Rightarrow> (\<lambda>w1.
             case kUpdateAgentRunStatus (traced_kube K) (applyControlPlaneStatus P T run controlRun) w1 of
               (Inl err, w2) \<Rightarrow> (Inl (KubeErr err), w2)
             | (Inr run2, w2) \<Rightarrow>
                 if \<not> isTerminal (st_Phase (run_Status run2)) then (Inr (requeue_after pollInterval), w2)
                 else release P (traced_kube K) run2 w2)) s') (deletion P T run)"
    proof (rule emits_call)
      fix err
      show "emits (\<lambda>w1. if \<not> gateway_not_found err then (Inl (GatewayErr err), w1)
                        else release P (traced_kube K) run w1)
          (\<lambda>es res. deletion P T run (EvCancel ?tenant ?id (Inl err) # es) res)"
        by (cases "gateway_not_found err")
           (auto intro!: emits_return emits_mono [OF emits_release] backend_forgot backend_fails 3)
    next
      fix control
      show "emits (\<lambda>w1.
             case kUpdateAgentRunStatus (traced_kube K) (applyControlPlaneStatus P T run control) w1 of
               (Inl err, w2) \<Rightarrow> (Inl (KubeErr err), w2)
             | (Inr run2, w2) \<Rightarrow>
                 if \<not> isTerminal (st_Phase (run_Status run2)) then (Inr (requeue_after pollInterval), w2)
                 else release P (traced_kube K) run2 w2)
          (\<lambda>es res. deletion P T run (EvCancel ?tenant ?id (Inr control) # es) res)"
        by (rule emits_mono [OF emits_written [OF emits_release_if] backend_cancels [OF 3]])
    qed
    then show ?thesis
      by (rule emits_eq) (simp add: reconcileDelete_def 3 Let_def sum_prod_case fun_eq_iff)
  qed
qed


subsection \<open>Recording changes nothing\<close>

text \<open>A recorded step returns the result and leaves the world of the plain step.\<close>

definition shadows :: "('w traced \<Rightarrow> 'a \<times> 'w traced) \<Rightarrow> ('w \<Rightarrow> 'a \<times> 'w) \<Rightarrow> bool" where
  "shadows m' m \<longleftrightarrow> (\<forall>w es. fst (m' (w, es)) = fst (m w) \<and> fst (snd (m' (w, es))) = snd (m w))"

lemma shadows_return: "shadows (Pair x) (Pair x)"
  by (simp add: shadows_def)

lemma shadows_call: "shadows (unrecorded f) f" "shadows (recorded ev f) f"
  by (auto simp: shadows_def split: prod.split)

lemma shadows_bind:
  assumes "shadows m' m" and "\<And>x. shadows (k' x) (k x)"
  shows "shadows (\<lambda>s. case m' s of (x, s') \<Rightarrow> k' x s') (\<lambda>w. case m w of (x, w') \<Rightarrow> k x w')"
proof -
  have "fst (k' x (w, es)) = fst (k x w) \<and> fst (snd (k' x (w, es))) = snd (k x w)" for x w es
    using assms(2) by (simp add: shadows_def)
  with assms(1) show ?thesis
    unfolding shadows_def by (auto simp: case_prod_unfold) (metis prod.collapse)+
qed

text \<open>The unrecorded parts of a pass commute with recording.\<close>

lemma traced_tenantIDFor [simp]:
  "tenantIDFor P (traced_kube K) m = unrecorded (tenantIDFor P K m)"
  by (rule ext) (auto simp: tenantIDFor_def Let_def unrecorded_def split: prod.split sum.split)

lemma traced_validateReferences [simp]:
  "validateReferences P (traced_kube K) run = unrecorded (validateReferences P K run)"
  by (rule ext)
     (auto simp: validateReferences_def unrecorded_def split: prod.split sum.split option.split)

lemma shadows_update_status_then:
  "shadows (update_status_then (traced_kube K) run res) (update_status_then K run res)"
  unfolding update_status_then_def traced_simps sum_prod_case
  by (rule shadows_bind [OF shadows_call(2)]) (auto intro: shadows_return split: sum.split)

lemma shadows_release: "shadows (release P (traced_kube K) run) (release P K run)"
  unfolding release_def traced_simps sum_prod_case
  by (rule shadows_bind [OF shadows_call(2)]) (auto intro: shadows_return split: sum.split)

lemma shadows_reconcileTTL: "shadows (reconcileTTL (traced_kube K) T run) (reconcileTTL K T run)"
  by (auto simp: shadows_def reconcileTTL_def Let_def split: option.split prod.split)

lemma shadows_finish_or_poll: "shadows (finish_or_poll (traced_kube K) T run) (finish_or_poll K T run)"
  using shadows_reconcileTTL [of K T run] by (simp add: shadows_def finish_or_poll_def)

lemma shadows_sum:
  "(\<And>e. shadows (f' e) (f e)) \<Longrightarrow> (\<And>y. shadows (g' y) (g y)) \<Longrightarrow>
     shadows (case x of Inl e \<Rightarrow> f' e | Inr y \<Rightarrow> g' y) (case x of Inl e \<Rightarrow> f e | Inr y \<Rightarrow> g y)"
  by (simp split: sum.split)

lemma shadows_if:
  "shadows m' m \<Longrightarrow> shadows n' n \<Longrightarrow>
     shadows (\<lambda>s. if b then m' s else n' s) (\<lambda>w. if b then m w else n w)"
  by (cases b) simp_all

lemma shadows_pure: "shadows (\<lambda>s. (x, s)) (\<lambda>w. (x, w))"
  by (simp add: shadows_def)

lemmas shadows_intros =
  shadows_pure shadows_if shadows_sum shadows_bind [OF shadows_call(1)] shadows_bind [OF shadows_call(2)]
  shadows_update_status_then shadows_release shadows_reconcileTTL shadows_finish_or_poll

lemma shadows_gatewayFailure:
  "shadows (gatewayFailure P (traced_kube K) T run reason err) (gatewayFailure P K T run reason err)"
  unfolding gatewayFailure_def by (rule shadows_update_status_then)

lemma shadows_reconcileSubmit:
  "shadows (reconcileSubmit P (traced_kube K) (traced_gateway G) T run tenant agent)
     (reconcileSubmit P K G T run tenant agent)"
  unfolding reconcileSubmit_def traced_simps sum_prod_case
  by (intro shadows_intros shadows_gatewayFailure)

lemma shadows_reconcilePoll:
  "shadows (reconcilePoll P (traced_kube K) (traced_gateway G) T run tenant) (reconcilePoll P K G T run tenant)"
  unfolding reconcilePoll_def traced_simps sum_prod_case Let_def
  by (intro shadows_intros shadows_gatewayFailure)

lemma shadows_reconcileCancel:
  "shadows (reconcileCancel P (traced_kube K) (traced_gateway G) T run tenant) (reconcileCancel P K G T run tenant)"
  unfolding reconcileCancel_def traced_simps sum_prod_case
  by (intro shadows_intros shadows_gatewayFailure)

lemma shadows_reconcileTerminal:
  "shadows (reconcileTerminal P (traced_kube K) T run) (reconcileTerminal P K T run)"
proof (cases "sanitizeTerminalStatus P T run")
  case (Pair changed run1)
  show ?thesis
    unfolding reconcileTerminal_def Pair prod.case traced_simps sum_prod_case
    by (intro shadows_intros)
qed

lemma shadows_reconcileDelete:
  "shadows (reconcileDelete P (traced_kube K) (traced_gateway G) T run) (reconcileDelete P K G T run)"
  unfolding reconcileDelete_def traced_simps sum_prod_case Let_def
  by (intro shadows_intros)

lemma shadows_dispatch:
  "shadows (dispatch P (traced_kube K) (traced_gateway G) T run tenant agent)
     (dispatch P K G T run tenant agent)"
  unfolding dispatch_def
  by (intro shadows_intros shadows_reconcileCancel shadows_reconcileSubmit shadows_reconcileTerminal
      shadows_reconcilePoll)

lemma shadows_reject:
  "shadows (reject P (traced_kube K) T run reason message) (reject P K T run reason message)"
  unfolding reject_def by (rule shadows_update_status_then)

lemma shadows_Reconcile:
  "shadows (Reconcile P (traced_kube K) (traced_gateway G) T request) (Reconcile P K G T request)"
proof -
  have split: "(\<lambda>s. case p s of (Inl e, s1) \<Rightarrow> f e s1 | (Inr (a, b), s1) \<Rightarrow> g a b s1) =
      (\<lambda>s. case p s of (x, s1) \<Rightarrow> (case x of Inl e \<Rightarrow> f e | Inr y \<Rightarrow> g (fst y) (snd y)) s1)"
    for p :: "'x \<Rightarrow> ('e + 'p \<times> 'q) \<times> 'y" and f :: "'e \<Rightarrow> 'y \<Rightarrow> 'z" and g
    by (auto split: prod.split sum.split)
  show ?thesis
    unfolding Reconcile_def traced_simps traced_validateReferences split sum_prod_case
    by (intro shadows_intros shadows_reconcileDelete shadows_reject shadows_dispatch)
qed

subsection \<open>A pass\<close>

text \<open>The events of a pass and its result.\<close>

definition pass_events ::
  "platform \<Rightarrow> 'w kube \<Rightarrow> 'w gateway \<Rightarrow> clock \<Rightarrow> object_key \<Rightarrow> 'w \<Rightarrow> event list" where
  "pass_events P K G T request w =
     snd (snd (Reconcile P (traced_kube K) (traced_gateway G) T request (w, [])))"

definition answers_of :: "'w gateway \<Rightarrow> run_submission \<Rightarrow> gateway_answer \<Rightarrow> bool" where
  "answers_of G s r \<longleftrightarrow> (\<exists>w w'. gwSubmit G s w = (r, w'))"

definition pass_refs ::
  "platform \<Rightarrow> 'w kube \<Rightarrow> agent_run \<Rightarrow> object_key \<Rightarrow> 'w \<Rightarrow> (reference_error, string \<times> agent) result" where
  "pass_refs P K run request w = fst (validateReferences P K run (snd (kGetAgentRun K request w)))"

lemma emits_adopt:
  "emits (\<lambda>s. case kUpdateAgentRun (traced_kube K) (with_finalizer P run) s of
                (Inl err, s1) \<Rightarrow> (Inl (KubeErr err), s1) | (Inr _, s1) \<Rightarrow> (Inr requeue_now, s1))
     (\<lambda>es res. \<exists>r. es = [EvUpdate (with_finalizer P run) r] \<and> res = write_result requeue_now r)"
  unfolding traced_simps sum_prod_case
  by (rule emits_call) (auto intro: emits_return simp: write_result_def)

lemma Reconcile_missing:
  assumes "kGetAgentRun K request w = (Inl err, w1)"
  shows "pass_events P K G T request w = [] \<and>
     Reconcile P K G T request w = (ignoreNotFound (Some err), w1)"
  using assms by (simp add: pass_events_def Reconcile_def)

lemma Reconcile_run_pass:
  assumes get: "kGetAgentRun K request w = (Inr run, w1)"
  shows "run_pass P T (answers_of G) run (pass_refs P K run request w)
     (pass_events P K G T request w) (fst (Reconcile P K G T request w))"
proof -
  let ?R = "Reconcile P (traced_kube K) (traced_gateway G) T request (w, [])"
  let ?pass = "run_pass P T (answers_of G) run (pass_refs P K run request w)"
  have refs: "pass_refs P K run request w = fst (validateReferences P K run w1)"
    by (simp add: pass_refs_def get)
  have ans: "answers_of G = (\<lambda>s r. \<exists>w w'. gwSubmit G s w = (r, w'))"
    by (simp add: answers_of_def fun_eq_iff)
  have "?pass (snd (snd ?R)) (fst ?R)"
  proof (cases "time_is_zero (om_DeletionTimestamp (run_Meta run))")
    case False
    from emits_from_nil [OF emits_reconcileDelete [of P K G T run], of w1] False get
    show ?thesis by (auto simp: Reconcile_def intro: deleted)
  next
    case live: True
    show ?thesis
    proof (cases "contains_finalizer P (om_Finalizers (run_Meta run)) runFinalizer")
      case False
      from emits_from_nil [OF emits_adopt [of K P run], of w1] live False get
      show ?thesis by (auto simp: Reconcile_def intro: adopt)
    next
      case fin: True
      obtain r w2 where v: "validateReferences P K run w1 = (r, w2)" by fastforce
      show ?thesis
      proof (cases r)
        case (Inl err)
        from emits_from_nil [OF emits_update_status_then [of K "rejected_run P T run ''ReferencesNotReady''
            (reference_error_text P err)" "requeue_after (15 * second)"], of w2] live fin get v Inl
        show ?thesis by (auto simp: Reconcile_def reject_def refs intro: unresolved)
      next
        case (Inr ta)
        obtain tenant agent where ta: "ta = (tenant, agent)" by (cases ta)
        from emits_from_nil [OF emits_dispatch [of P K G T run tenant agent], of w2] live fin get v Inr ta
        show ?thesis by (auto simp: Reconcile_def refs ans intro: resolved)
      qed
    qed
  qed
  moreover have "fst ?R = fst (Reconcile P K G T request w)"
    using shadows_Reconcile [of P K G T request] by (simp add: shadows_def)
  ultimately show ?thesis by (simp add: pass_events_def)
qed

end
