(* ===== verification/Run_Safety.thy ===== *)
theory Run_Safety
  imports Run_Trace
begin

text \<open>
  Safety and liveness of one pass of the AgentRun controller, derived from the specification
  \<open>run_pass\<close> by case analysis over its rules: what the pass may ask of the gateway and under which
  tenant, which statuses it writes, when it lets a deleted run go, when it deletes a finished one, and
  that it never drops a run that is not finished.
\<close>

subsection \<open>Case rules\<close>

lemma expiry_events:
  "expiry T run es res \<Longrightarrow>
     es = [] \<or> (\<exists>err t. es = [EvDelete run err] \<and> ars_TTLSecondsAfterFinished (run_Spec run) \<noteq> 0 \<and>
       st_FinishedAt (run_Status run) = Some t \<and> time_until (expires_at run t) (ck_expiry T) \<le> 0)"
  by (auto elim: expiry.cases)

lemma settle_events:
  "settle T run es res \<Longrightarrow>
     es = [] \<or> (\<exists>err t. es = [EvDelete run err] \<and> isTerminal (st_Phase (run_Status run)) \<and>
       ars_TTLSecondsAfterFinished (run_Spec run) \<noteq> 0 \<and>
       st_FinishedAt (run_Status run) = Some t \<and> time_until (expires_at run t) (ck_expiry T) \<le> 0)"
  by (auto elim!: settle.cases dest: expiry_events)

inductive_cases writtenE: "written nxt run es res"

lemma written_cases:
  "written nxt run es res \<Longrightarrow>
     (\<exists>e. es = [EvStatus run (Inl e)] \<and> res = Inl (KubeErr e)) \<or>
     (\<exists>run' es'. es = EvStatus run (Inr run') # es' \<and> nxt run' es' res)"
  by (auto elim: writtenE)

subsection \<open>Gateway calls\<close>

text \<open>Writes to the API server contain no gateway call.\<close>

lemma written_no_gateway:
  assumes "written nxt run es res" and "\<And>run' es res. nxt run' es res \<Longrightarrow> filter gateway_event es = []"
  shows "filter gateway_event es = []"
  using written_cases [OF assms(1)] assms(2) by auto

lemma expiry_no_gateway: "expiry T run es res \<Longrightarrow> filter gateway_event es = []"
  by (auto dest: expiry_events)

lemma settle_no_gateway: "settle T run es res \<Longrightarrow> filter gateway_event es = []"
  by (auto dest: settle_events)

lemma written_then_no_gateway:
  "written (settle T) run es res \<Longrightarrow> filter gateway_event es = []"
  "written (expiry T) run es res \<Longrightarrow> filter gateway_event es = []"
  by (erule written_no_gateway; erule settle_no_gateway expiry_no_gateway)+

lemmas no_gateway = expiry_no_gateway settle_no_gateway written_then_no_gateway

lemma no_gateway_event: "filter gateway_event es = [] \<Longrightarrow> e \<in> set es \<Longrightarrow> gateway_event e \<Longrightarrow> False"
  by (auto simp: filter_empty_conv)

lemmas no_gateway_in = no_gateway [THEN no_gateway_event]

text \<open>The one call a pass on a live run with valid references may make.\<close>

lemma active_gateway:
  assumes "active P T answers run tenant agent es res"
  shows "filter gateway_event es =
     (if ars_Cancel (run_Spec run) \<and> st_BackendRunID (run_Status run) = [] \<or>
         \<not> ars_Cancel (run_Spec run) \<and> st_BackendRunID (run_Status run) \<noteq> [] \<and>
         isTerminal (st_Phase (run_Status run)) then [] else [hd es]) \<and>
     (\<forall>e \<in> set es. gateway_event e \<longrightarrow>
        (if ars_Cancel (run_Spec run) then \<exists>r. e = EvCancel tenant (st_BackendRunID (run_Status run)) r
         else if st_BackendRunID (run_Status run) = []
         then \<exists>r. e = EvSubmit (submission_of run tenant agent) r \<and> answers (submission_of run tenant agent) r
         else \<exists>r. e = EvPoll tenant (st_BackendRunID (run_Status run)) r))"
  using assms by cases (auto dest: no_gateway no_gateway_in)

lemma deletion_gateway:
  assumes "deletion P T run es res"
  shows "length (filter gateway_event es) \<le> 1 \<and>
     (\<forall>e \<in> set es. gateway_event e \<longrightarrow>
        (\<exists>r. e = EvCancel (map_get (om_Labels (run_Meta run)) TenantIDLabel) (st_BackendRunID (run_Status run)) r))"
proof -
  have tail: "filter gateway_event es' = []" "\<forall>e \<in> set es'. \<not> gateway_event e"
    if "written (\<lambda>run' es res. if isTerminal (st_Phase (run_Status run'))
        then (\<exists>r. es = [EvUpdate (without_finalizer P run') r] \<and> res = write_result empty_result r)
        else es = [] \<and> res = Inr (requeue_after pollInterval)) u es' res'" for u es' res'
    using written_cases [OF that] by (auto split: if_splits)
  from assms show ?thesis
    by cases (auto dest: tail)
qed

lemma run_pass_one_gateway_call:
  assumes "run_pass P T answers run refs es res"
  shows "length (filter gateway_event es) \<le> 1"
  using assms by cases (auto dest: deletion_gateway active_gateway)


subsection \<open>Statuses\<close>

text \<open>The statuses a pass may write, from a run whose status is a proper ledger.\<close>

lemma ledger_ok_conds: "ledger_ok s \<Longrightarrow> conds_ok (st_Conditions s)"
  by (simp add: ledger_ok_def)

lemma set_run_cond_ledger:
  assumes "set_cond_law (set_cond P)" and "ledger_ok (run_Status run)" and "ty \<noteq> ''Completed''"
  shows "ledger_ok (run_Status (set_run_cond P t run (run_condition run' ty st reason message)))"
  using ledger_ok_other_cond [OF assms(1), of "run_condition run' ty st reason message"] assms(2,3) by simp

lemma rejected_failed_ledger:
  assumes "set_cond_law (set_cond P)" and "ledger_ok (run_Status run)"
  shows "ledger_ok (run_Status (rejected_run P T run reason message))"
    and "ledger_ok (run_Status (failed_run P T run reason err))"
  unfolding rejected_run_def failed_run_def Let_def
  by (rule set_run_cond_ledger [OF assms(1)]; simp add: assms)+

lemma polled_run_eq:
  "polled_run P T run control =
     markControlPlaneReady P T (with_status (applyControlPlaneStatus P T run control)
       (\<lambda>s. s\<lparr>st_ObservedGeneration := om_Generation (run_Meta run)\<rparr>))"
  by (simp add: polled_run_def Let_def)

lemma projected_ledger:
  assumes "set_cond_law (set_cond P)" and "ledger_ok (run_Status run)" and "st_BackendRunID (run_Status run) \<noteq> []"
  shows "ledger_ok (run_Status (applyControlPlaneStatus P T run control))"
    and "ledger_ok (run_Status (polled_run P T run control))"
    and "ledger_ok (run_Status (cancelled_run P T run control))"
proof -
  show proj: "ledger_ok (run_Status (applyControlPlaneStatus P T run control))"
    by (rule apply_ledger_ok [OF assms(1) ledger_ok_conds [OF assms(2)]])
       (simp add: projected_id_def assms(3))
  then show "ledger_ok (run_Status (polled_run P T run control))"
    unfolding polled_run_eq by (intro mark_ledger_ok assms(1)) simp
  from proj show "ledger_ok (run_Status (cancelled_run P T run control))"
    unfolding cancelled_run_def Let_def
    by (intro set_run_cond_ledger mark_ledger_ok assms(1)) simp_all
qed

lemma accepted_ledger:
  assumes "set_cond_law (set_cond P)" and "ledger_ok (run_Status run)" and "cpr_ID control \<noteq> []"
  shows "ledger_ok (run_Status (accepted_run P T run control))"
  unfolding accepted_run_def Let_def
  by (intro set_run_cond_ledger mark_ledger_ok apply_ledger_ok assms(1))
     (simp_all add: projected_id_def assms(3) ledger_ok_conds [OF assms(2)])

lemma cancelled_before_submit_ledger:
  assumes "set_cond_law (set_cond P)" and "ledger_ok (run_Status run)" and "st_BackendRunID (run_Status run) = []"
  shows "ledger_ok (run_Status (cancelled_before_submit P T run))"
  unfolding cancelled_before_submit_def Let_def
proof (intro set_run_cond_ledger mark_ledger_ok assms(1))
  show "ledger_ok (run_Status (with_status run (\<lambda>s. s\<lparr>st_Phase := AgentRunCancelled,
      st_FinishedAt := Some (ck_now T), st_ObservedGeneration := om_Generation (run_Meta run)\<rparr>)))"
    using ledger_ok_conds [OF assms(2)] assms(3) by (simp add: ledger_ok_def)
qed simp

lemma clean_ledger:
  assumes law: "set_cond_law (set_cond P)" and ok: "ledger_ok (run_Status run)"
    and "st_BackendRunID (run_Status run) \<noteq> []"
  shows "ledger_ok (clean_status P T run)"
proof -
  have "conds_ok (clean_conditions P T run)"
    unfolding clean_conditions_alt
    by (intro set_cond_conds_ok [OF law]) (simp_all add: set_cond_conds_ok [OF law] ledger_ok_conds [OF ok])
  with clean_completed_ok [OF law, of T run] ok assms(3) show ?thesis
    by (simp add: ledger_ok_def clean_status_def)
qed

lemma written_status:
  assumes "written nxt run es res" and "EvStatus u r \<in> set es"
    and "\<And>run' es res. nxt run' es res \<Longrightarrow> EvStatus u r \<notin> set es"
  shows "u = run"
  using written_cases [OF assms(1)] assms(2,3) by auto

lemma settle_no_status: "settle T run es res \<Longrightarrow> EvStatus u r \<notin> set es"
  by (auto dest: settle_events)

lemma expiry_no_status: "expiry T run es res \<Longrightarrow> EvStatus u r \<notin> set es"
  by (auto dest: expiry_events)

lemma deletion_no_status:
  "(if isTerminal (st_Phase (run_Status run'))
    then (\<exists>r. es = [EvUpdate (without_finalizer P run') r] \<and> res = write_result empty_result r)
    else es = [] \<and> res = Inr (requeue_after pollInterval)) \<Longrightarrow> EvStatus u r \<notin> set es"
  by (auto split: if_splits)

lemmas status_written =
  written_status [OF _ _ settle_no_status] written_status [OF _ _ expiry_no_status]
  written_status [OF _ _ deletion_no_status]

lemma run_pass_ledger:
  assumes pass: "run_pass P T answers run refs es res" and law: "set_cond_law (set_cond P)"
    and ok: "ledger_ok (run_Status run)" and u: "EvStatus u r \<in> set es"
    and ids: "\<And>s control. answers s (Inr control) \<Longrightarrow> cpr_ID control \<noteq> []"
  shows "ledger_ok (run_Status u)"
  using pass
proof cases
  case deleted
  from deleted(2) u show ?thesis
    by cases (auto dest: status_written simp: projected_ledger [OF law ok])
next
  case adopt
  with u show ?thesis by simp
next
  case (unresolved err)
  with u show ?thesis by (simp add: rejected_failed_ledger [OF law ok])
next
  case (resolved tenant agent)
  from resolved(4) u show ?thesis
    by cases
       (auto dest: status_written expiry_no_status
          simp: projected_ledger [OF law ok] rejected_failed_ledger [OF law ok] clean_ledger [OF law ok]
            cancelled_before_submit_ledger [OF law ok] accepted_ledger [OF law ok] ids)
qed


subsection \<open>Release and expiry\<close>

text \<open>Why a run may be let go: what the events before the release have established.\<close>

definition backend_settled :: "agent_run \<Rightarrow> event list \<Rightarrow> bool" where
  "backend_settled run pre \<longleftrightarrow>
     st_BackendRunID (run_Status run) = [] \<or> isTerminal (st_Phase (run_Status run)) \<or>
     (\<exists>tenant body. pre = [EvCancel tenant (st_BackendRunID (run_Status run)) (Inl (HTTPStatus 404 body))]) \<or>
     (\<exists>tenant control u run'.
        pre = [EvCancel tenant (st_BackendRunID (run_Status run)) (Inr control), EvStatus u (Inr run')] \<and>
        isTerminal (st_Phase (run_Status run')))"

lemma gateway_not_found_iff: "gateway_not_found err \<longleftrightarrow> (\<exists>body. err = HTTPStatus 404 body)"
  by (cases err) auto

lemma no_update:
  "expiry T run es res \<Longrightarrow> EvUpdate u r \<notin> set es"
  "settle T run es res \<Longrightarrow> EvUpdate u r \<notin> set es"
  by (auto dest: expiry_events settle_events)

lemma written_no_update:
  assumes "written nxt run es res" and "\<And>run' es res. nxt run' es res \<Longrightarrow> EvUpdate u r \<notin> set es"
  shows "EvUpdate u r \<notin> set es"
  using written_cases [OF assms(1)] assms(2) by auto

lemma active_no_update: "active P T answers run tenant agent es res \<Longrightarrow> EvUpdate u r \<notin> set es"
  by (erule active.cases)
     (auto dest: no_update written_no_update [OF _ no_update(1)] written_no_update [OF _ no_update(2)])

lemma deletion_release:
  assumes "deletion P T run es res" and "EvUpdate u r \<in> set es"
  shows "\<exists>pre. es = pre @ [EvUpdate u r] \<and> backend_settled run pre"
  using assms(1)
proof cases
  case backend_cancels
  from written_cases [OF backend_cancels(5)] assms(2) backend_cancels(1)
  show ?thesis by (fastforce simp: backend_settled_def split: if_splits)
qed (use assms(2) in \<open>auto simp: backend_settled_def gateway_not_found_iff\<close>)

lemma run_pass_release:
  assumes pass: "run_pass P T answers run refs es res" and fin: "finalizer_law P"
    and u: "EvUpdate u r \<in> set es" and gone: "runFinalizer \<notin> set (om_Finalizers (run_Meta u))"
  shows "\<not> time_is_zero (om_DeletionTimestamp (run_Meta run)) \<and>
     (\<exists>pre. es = pre @ [EvUpdate u r] \<and> backend_settled run pre)"
  using pass
proof cases
  case deleted
  then show ?thesis using deletion_release [OF deleted(2) u] by simp
next
  case adopt
  with u gone fin show ?thesis by (auto simp: with_finalizer_def finalizer_law_def)
next
  case unresolved
  with u show ?thesis by simp
next
  case (resolved tenant agent)
  with active_no_update u show ?thesis by blast
qed

text \<open>A run is deleted only when it expired.\<close>

definition expired_run :: "clock \<Rightarrow> agent_run \<Rightarrow> bool" where
  "expired_run T u \<longleftrightarrow>
     ars_TTLSecondsAfterFinished (run_Spec u) \<noteq> 0 \<and>
     (\<exists>t. st_FinishedAt (run_Status u) = Some t \<and> time_until (expires_at u t) (ck_expiry T) \<le> 0)"

lemma expiry_delete: "expiry T run es res \<Longrightarrow> EvDelete u err \<in> set es \<Longrightarrow> u = run \<and> expired_run T u"
  by (auto dest: expiry_events simp: expired_run_def)

lemma settle_delete:
  "settle T run es res \<Longrightarrow> EvDelete u err \<in> set es \<Longrightarrow>
     u = run \<and> expired_run T u \<and> isTerminal (st_Phase (run_Status run))"
  by (auto dest: settle_events simp: expired_run_def)

text \<open>\<open>current\<close>: the run that was read, or the one the server answered to a status write.\<close>

definition current :: "agent_run \<Rightarrow> event list \<Rightarrow> agent_run \<Rightarrow> bool" where
  "current run es u \<longleftrightarrow> u = run \<or> (\<exists>v. EvStatus v (Inr u) \<in> set es)"

lemma written_delete_current:
  assumes "written nxt run es res" and "EvDelete u err \<in> set es"
    and "\<And>run' es' res. nxt run' es' res \<Longrightarrow> EvDelete u err \<in> set es' \<Longrightarrow> u = run' \<and> Q u"
  shows "(\<exists>v. EvStatus v (Inr u) \<in> set es) \<and> Q u"
  using written_cases [OF assms(1)]
proof (elim disjE exE conjE)
  fix run' es' assume "es = EvStatus run (Inr run') # es'" and "nxt run' es' res"
  with assms(2) assms(3) [of run' es' res] show ?thesis by auto
qed (use assms(2) in auto)

lemma written_settle_delete:
  "written (settle T) run es res \<Longrightarrow> EvDelete u err \<in> set es \<Longrightarrow>
     (\<exists>v. EvStatus v (Inr u) \<in> set es) \<and> expired_run T u \<and> isTerminal (st_Phase (run_Status u))"
  by (erule (1) written_delete_current) (auto dest: settle_delete)

lemma written_expiry_delete:
  "written (expiry T) run es res \<Longrightarrow> EvDelete u err \<in> set es \<Longrightarrow>
     (\<exists>v. EvStatus v (Inr u) \<in> set es) \<and> expired_run T u"
  by (erule (1) written_delete_current) (auto dest: expiry_delete)

lemma deletion_no_delete: "deletion P T run es res \<Longrightarrow> EvDelete u err \<notin> set es"
proof (erule deletion.cases, simp_all)
  fix control es res
  assume "written (\<lambda>run' es res. if isTerminal (st_Phase (run_Status run'))
      then (\<exists>r. es = [EvUpdate (without_finalizer P run') r] \<and> res = write_result empty_result r)
      else es = [] \<and> res = Inr (requeue_after pollInterval)) (applyControlPlaneStatus P T run control) es res"
  from written_cases [OF this] show "EvDelete u err \<notin> set es" by (auto split: if_splits)
qed

lemma active_delete:
  assumes "active P T answers run tenant agent es res" and "EvDelete u err \<in> set es"
  shows "current run es u \<and> expired_run T u \<and>
     (isTerminal (st_Phase (run_Status run)) \<or> isTerminal (st_Phase (run_Status u)))"
  using assms
  by cases (auto dest!: written_settle_delete written_expiry_delete expiry_delete simp: current_def)

lemma run_pass_delete:
  assumes "run_pass P T answers run refs es res" and "EvDelete u err \<in> set es"
  shows "current run es u \<and> expired_run T u \<and>
     (isTerminal (st_Phase (run_Status run)) \<or> isTerminal (st_Phase (run_Status u)))"
  using assms by cases (auto dest: deletion_no_delete active_delete)

subsection \<open>Liveness\<close>

lemma pollInterval_pos [simp]: "pollInterval \<noteq> 0" "0 < pollInterval"
  by (simp_all add: pollInterval_def second_def)

lemma write_result_ends [simp]:
  "write_result res r = Inr empty_result \<longleftrightarrow> res = empty_result \<and> (\<exists>run'. r = Inr run')"
  "Inr empty_result = write_result res r \<longleftrightarrow> res = empty_result \<and> (\<exists>run'. r = Inr run')"
  by (cases r; auto simp: write_result_def)+

lemma settle_ends:
  "settle T run es (Inr empty_result) \<Longrightarrow> isTerminal (st_Phase (run_Status run))"
  by (auto elim: settle.cases)

lemma written_ends:
  assumes "written (settle T) run es (Inr empty_result)"
  shows "\<exists>u. EvStatus run (Inr u) \<in> set es \<and> isTerminal (st_Phase (run_Status u))"
  using written_cases [OF assms] by (auto dest: settle_ends)

lemma active_ends:
  assumes "active P T answers run tenant agent es (Inr empty_result)"
    and "\<not> isTerminal (st_Phase (run_Status run))"
  shows "ars_Cancel (run_Spec run) \<and> st_BackendRunID (run_Status run) = [] \<or>
     (\<exists>v u. EvStatus v (Inr u) \<in> set es \<and> isTerminal (st_Phase (run_Status u)))"
  using assms(1)
  by cases (use assms(2) in \<open>auto dest!: written_ends simp: second_def\<close>)

lemma run_pass_ends:
  assumes "run_pass P T answers run refs es (Inr empty_result)"
    and "time_is_zero (om_DeletionTimestamp (run_Meta run))" and "\<not> isTerminal (st_Phase (run_Status run))"
  shows "ars_Cancel (run_Spec run) \<and> st_BackendRunID (run_Status run) = [] \<or>
     (\<exists>v u. EvStatus v (Inr u) \<in> set es \<and> isTerminal (st_Phase (run_Status u)))"
  using assms(1)
proof cases
  case (resolved tenant agent)
  from active_ends [OF resolved(4) assms(3)] show ?thesis .
qed (use assms(2) in \<open>auto simp: second_def elim!: deletion.cases\<close>)

end
