(* ===== verification/Run_Properties.thy ===== *)
theory Run_Properties
  imports Run_Safety
begin

text \<open>
  The properties of one pass of the AgentRun controller, over every platform, API server, gateway and
  clock, with a small cluster on which their hypotheses hold.
\<close>

subsection \<open>A cluster of one run\<close>

text \<open>The API server holds one run and one Agent, accepts every write and gives back what it is sent.\<close>

definition run_kube :: "agent_run \<Rightarrow> agent \<Rightarrow> 'w kube" where
  "run_kube run agent =
     empty_kube\<lparr>kGetNamespace := (\<lambda>_ w. (Inr sample_namespace, w)),
       kGetAgentRun := (\<lambda>_ w. (Inr run, w)), kGetAgent := (\<lambda>_ w. (Inr agent, w)),
       kUpdateAgentRun := (\<lambda>r w. (Inr r, w)), kUpdateAgentRunStatus := (\<lambda>r w. (Inr r, w)),
       kDeleteAgentRun := (\<lambda>_ w. (None, w)), kListAgentRuns := (\<lambda>_ w. (Inr [run], w))\<rparr>"

lemma run_kube_simps [simp]:
  "kGetNamespace (run_kube run agent) n w = (Inr sample_namespace, w)"
  "kGetAgentRun (run_kube run agent) k w = (Inr run, w)"
  "kGetAgent (run_kube run agent) k w = (Inr agent, w)"
  "kUpdateAgentRun (run_kube run agent) r w = (Inr r, w)"
  "kUpdateAgentRunStatus (run_kube run agent) r w = (Inr r, w)"
  "kDeleteAgentRun (run_kube run agent) r w = (None, w)"
  "kListAgentRuns (run_kube run agent) n w = (Inr [run], w)"
  by (simp_all add: run_kube_def)

definition fixed_gateway :: "gateway_answer \<Rightarrow> unit gateway" where
  "fixed_gateway answer =
     \<lparr>gwSubmit = (\<lambda>_ n. (answer, n)), gwGet = (\<lambda>_ _ n. (answer, n)), gwCancel = (\<lambda>_ _ n. (answer, n))\<rparr>"

lemma fixed_gateway_simps [simp]:
  "gwSubmit (fixed_gateway answer) s n = (answer, n)"
  "gwGet (fixed_gateway answer) t i n = (answer, n)"
  "gwCancel (fixed_gateway answer) t i n = (answer, n)"
  by (simp_all add: fixed_gateway_def)

definition control_run :: "string \<Rightarrow> string \<Rightarrow> control_plane_run" where
  "control_run ident status =
     \<lparr>cpr_ID = ident, cpr_Status = status, cpr_Summary = ''private model output'', cpr_ErrorCode = [],
      cpr_StartedAt = None, cpr_FinishedAt = None, cpr_Steps = []\<rparr>"

lemma control_run_simps [simp]:
  "cpr_ID (control_run i s) = i" "cpr_Status (control_run i s) = s"
  by (simp_all add: control_run_def)

lemma fixed_run_gateway: "i \<noteq> [] \<Longrightarrow> run_gateway (fixed_gateway (Inr (control_run i s)))"
  by unfold_locales auto

definition sample_run :: agent_run where
  "sample_run =
     \<lparr>run_Meta = sample_meta\<lparr>om_Finalizers := [runFinalizer]\<rparr>,
      run_Spec =
        \<lparr>ars_AgentRef = ''research'', ars_Input = \<lparr>in_Task = ''compare retrieval''\<rparr>,
         ars_DAG = Some sample_dag, ars_RetryPolicy = \<lparr>rp_MaxAttempts = 3\<rparr>,
         ars_TTLSecondsAfterFinished = 0, ars_IdempotencyKey = [], ars_Cancel = False\<rparr>,
      run_Status = new_status\<rparr>"

lemma sample_run_simps [simp]:
  "run_Status sample_run = new_status" "run_Meta sample_run = sample_meta\<lparr>om_Finalizers := [runFinalizer]\<rparr>"
  "ars_AgentRef (run_Spec sample_run) = ''research''" "ars_DAG (run_Spec sample_run) = Some sample_dag"
  "\<not> ars_Cancel (run_Spec sample_run)" "ars_TTLSecondsAfterFinished (run_Spec sample_run) = 0"
  by (simp_all add: sample_run_def)

lemma new_status_simps [simp]:
  "st_Phase new_status = []" "st_BackendRunID new_status = []" "st_Conditions new_status = []"
  "st_FinishedAt new_status = None"
  by (simp_all add: new_status_def)

lemma new_status_ledger: "ledger_ok new_status"
  by (simp add: ledger_ok_def conds_ok_def) (simp add: text_defs)

lemma sample_meta_simps [simp]:
  "om_Namespace sample_meta = ''tenant-a''" "om_DeletionTimestamp sample_meta = None"
  "om_Labels sample_meta = [TenantIDLabel \<mapsto> sample_tenant]" "om_Generation sample_meta = 1"
  by (simp_all add: sample_meta_def)

lemma sample_tenant_length [simp]: "length sample_tenant = 36"
  by (simp add: sample_tenant_def)

lemma live_simps [simp]: "time_is_zero None"
  by (simp add: time_is_zero_def)

text \<open>The references of a run of this namespace with the sample DAG resolve.\<close>

lemma sample_refs:
  assumes "om_Labels (run_Meta run) = [TenantIDLabel \<mapsto> sample_tenant]" and "ars_DAG (run_Spec run) = Some sample_dag"
  shows "validateReferences sample_platform (run_kube run' sample_agent) run w = (Inr (sample_tenant, sample_agent), w)"
proof -
  have "tenantIDFor sample_platform (run_kube run' sample_agent) (run_Meta run) w = (Inr sample_tenant, w)"
    by (simp add: tenantIDFor_def assms Let_def)
  then show ?thesis
    by (simp add: validateReferences_def assms sample_dag_accepted) (simp add: sample_agent_def)
qed

definition run_at :: "agent_run_status \<Rightarrow> agent_run" where
  "run_at s = sample_run\<lparr>run_Status := s\<rparr>"

lemma run_at_simps [simp]:
  "run_Status (run_at s) = s" "run_Meta (run_at s) = run_Meta sample_run" "run_Spec (run_at s) = run_Spec sample_run"
  by (simp_all add: run_at_def)

lemma run_at_new [simp]: "run_at new_status = sample_run"
  by (simp add: run_at_def sample_run_def)

abbreviation sample_key :: object_key where
  "sample_key \<equiv> key_of sample_meta"

text \<open>A pass on such a run goes to the dispatch.\<close>

lemma sample_pass:
  assumes "run_Meta run = run_Meta sample_run" and "ars_DAG (run_Spec run) = Some sample_dag"
  shows "pass_events sample_platform (run_kube run sample_agent) G T sample_key () =
      snd (snd (dispatch sample_platform (traced_kube (run_kube run sample_agent)) (traced_gateway G) T run
        sample_tenant sample_agent ((), [])))"
    and "Reconcile sample_platform (run_kube run sample_agent) G T sample_key () =
      dispatch sample_platform (run_kube run sample_agent) G T run sample_tenant sample_agent ()"
  by (simp_all add: pass_events_def Reconcile_def assms sample_refs)

lemma sample_submission:
  "pass_events sample_platform (run_kube sample_run sample_agent) (fixed_gateway (Inr (control_run ''b1'' ''queued'')))
     sample_clock sample_key () =
   [EvSubmit (submission_of sample_run sample_tenant sample_agent) (Inr (control_run ''b1'' ''queued'')),
    EvStatus (accepted_run sample_platform sample_clock sample_run (control_run ''b1'' ''queued''))
      (Inr (accepted_run sample_platform sample_clock sample_run (control_run ''b1'' ''queued'')))]"
  by (simp add: sample_pass dispatch_def reconcileSubmit_def update_status_then_def)


lemma pass_cases:
  obtains (missing) err w1 where "kGetAgentRun K request w = (Inl err, w1)" "pass_events P K G T request w = []"
  | (read) run w1 where "kGetAgentRun K request w = (Inr run, w1)"
      "run_pass P T (answers_of G) run (pass_refs P K run request w) (pass_events P K G T request w)
        (fst (Reconcile P K G T request w))"
proof (cases "kGetAgentRun K request w")
  case (Pair r w1)
  show ?thesis
  proof (cases r)
    case (Inl err)
    with Pair Reconcile_missing show ?thesis by (metis missing)
  next
    case (Inr run)
    with Pair Reconcile_run_pass show ?thesis by (metis read)
  qed
qed

lemma read_pass:
  assumes "fst (kGetAgentRun K request w) = Inr run"
  shows "run_pass P T (answers_of G) run (pass_refs P K run request w) (pass_events P K G T request w)
     (fst (Reconcile P K G T request w))"
  using Reconcile_run_pass [of K request w run "snd (kGetAgentRun K request w)"] assms
  by (metis prod.collapse)

lemma pass_event_read:
  assumes "e \<in> set (pass_events P K G T request w)"
  obtains run where "fst (kGetAgentRun K request w) = Inr run"
    "run_pass P T (answers_of G) run (pass_refs P K run request w) (pass_events P K G T request w)
      (fst (Reconcile P K G T request w))"
  using assms by (cases rule: pass_cases [of K request w P G T]) auto

subsection \<open>Refinement\<close>

text \<open>
  C1. Refinement: whatever the API server, the gateway and the clock answer, a pass of the code is one
  of the passes the specification \<open>run_pass\<close> allows for the run it read: the same events in the same
  order and the same result. A run that cannot be read causes no event, and its absence no error.
\<close>

theorem Reconcile_refines_run_pass:
  "case kGetAgentRun K request w of
     (Inl err, w1) \<Rightarrow>
       pass_events P K G T request w = [] \<and>
       Reconcile P K G T request w = ((if ke_NotFound err then Inr empty_result else Inl (KubeErr err)), w1)
   | (Inr run, w1) \<Rightarrow>
       run_pass P T (answers_of G) run (pass_refs P K run request w) (pass_events P K G T request w)
         (fst (Reconcile P K G T request w))"
  using Reconcile_missing [of K request w] Reconcile_run_pass [of K request w]
  by (auto simp: ignoreNotFound_def split: prod.split sum.split)

text \<open>
  Recording is an observation: a pass over the recording client and gateway returns the result and
  leaves the world of the pass over the plain ones.
\<close>

lemma recording_is_faithful:
  "fst (Reconcile P (traced_kube K) (traced_gateway G) T request (w, es)) = fst (Reconcile P K G T request w) \<and>
   fst (snd (Reconcile P (traced_kube K) (traced_gateway G) T request (w, es))) =
     snd (Reconcile P K G T request w)"
  using shadows_Reconcile [of P K G T request] by (simp add: shadows_def)

subsection \<open>The gateway\<close>

text \<open>A pass calls the gateway at most once.\<close>

lemma one_gateway_call:
  "length (filter gateway_event (pass_events P K G T request w)) \<le> 1"
  by (cases rule: pass_cases [of K request w P G T]) (auto dest: run_pass_one_gateway_call)

text \<open>
  C2. A run is submitted only when it is live, already holds the finalizer, is not being cancelled, has
  no backend run yet and its references are valid; the submission is the projection of the run and of
  the Agent it references, and it is the first thing the pass does to the outside.
\<close>

theorem submission_guarded:
  assumes "EvSubmit s r \<in> set (pass_events P K G T request w)"
  shows "\<exists>run tenant agent. fst (kGetAgentRun K request w) = Inr run \<and>
     time_is_zero (om_DeletionTimestamp (run_Meta run)) \<and>
     contains_finalizer P (om_Finalizers (run_Meta run)) runFinalizer \<and>
     pass_refs P K run request w = Inr (tenant, agent) \<and>
     \<not> ars_Cancel (run_Spec run) \<and> st_BackendRunID (run_Status run) = [] \<and>
     s = submission_of run tenant agent \<and> hd (pass_events P K G T request w) = EvSubmit s r"
proof -
  from assms obtain run where run: "fst (kGetAgentRun K request w) = Inr run"
    and pass: "run_pass P T (answers_of G) run (pass_refs P K run request w) (pass_events P K G T request w)
      (fst (Reconcile P K G T request w))"
    by (rule pass_event_read)
  from pass show ?thesis
  proof cases
    case deleted
    with deletion_gateway [OF deleted(2)] assms show ?thesis by fastforce
  next
    case (resolved tenant agent)
    from active_gateway [OF resolved(4)] assms
    have "\<not> ars_Cancel (run_Spec run) \<and> st_BackendRunID (run_Status run) = [] \<and>
        s = submission_of run tenant agent"
      by (fastforce split: if_splits)
    moreover from resolved(4) this assms have "hd (pass_events P K G T request w) = EvSubmit s r"
      by cases auto
    ultimately show ?thesis using run resolved by blast
  qed (use assms in auto)
qed

theorem submission_guarded_witness:
  "\<exists>run tenant agent. Inr sample_run = (Inr run :: (kube_error, agent_run) result) \<and>
     submission_of sample_run sample_tenant sample_agent = submission_of run tenant agent \<and>
     st_BackendRunID (run_Status run) = []"
  using submission_guarded [of "submission_of sample_run sample_tenant sample_agent"
      "Inr (control_run ''b1'' ''queued'')" sample_platform "run_kube sample_run sample_agent"
      "fixed_gateway (Inr (control_run ''b1'' ''queued''))" sample_clock sample_key "()"]
  unfolding sample_submission by auto

fun event_tenant :: "event \<Rightarrow> string option" where
  "event_tenant (EvSubmit s _) = Some (rs_TenantID s)"
| "event_tenant (EvPoll tenant _ _) = Some tenant"
| "event_tenant (EvCancel tenant _ _) = Some tenant"
| "event_tenant _ = None"

lemma event_tenant_gateway: "event_tenant e = Some tenant \<Longrightarrow> gateway_event e"
  by (cases e) auto

lemma submission_tenant [simp]: "rs_TenantID (submission_of run tenant agent) = tenant"
  by (simp add: submission_of_def Let_def)

lemma active_tenant:
  assumes "active P T answers run tenant agent es res" and "e \<in> set es" and "event_tenant e = Some t"
  shows "t = tenant"
  using active_gateway [OF assms(1)] assms(2) event_tenant_gateway [OF assms(3)] assms(3)
  by (fastforce split: if_splits)

lemma validateReferences_tenant:
  assumes "validateReferences P K run w = (Inr (tenant, agent), w')"
  shows "fst (tenantIDFor P K (run_Meta run) w) = Inr tenant"
    and "map_get (om_Labels (ag_Meta agent)) TenantIDLabel = tenant"
  using assms
  by (auto simp: validateReferences_def split: prod.splits sum.splits if_splits option.splits)

text \<open>
  C3. Tenant isolation of a live run: whatever the pass asks of the gateway, it asks under the tenant
  that the administrator bound to the run's Namespace, which the run itself carries.
\<close>

theorem live_gateway_calls_use_bound_tenant:
  assumes "fst (kGetAgentRun K request w) = Inr run" and "time_is_zero (om_DeletionTimestamp (run_Meta run))"
    and "e \<in> set (pass_events P K G T request w)" and "event_tenant e = Some tenant"
  shows "bound_tenant K (om_Namespace (run_Meta run)) (snd (kGetAgentRun K request w)) = Some tenant \<and>
     uuid_ok P tenant \<and> map_get (om_Labels (run_Meta run)) TenantIDLabel = tenant"
  using read_pass [OF assms(1), of P T G]
proof cases
  case (resolved tenant' agent)
  then have "tenant = tenant'" using active_tenant assms(3,4) by blast
  moreover obtain w' where "validateReferences P K run (snd (kGetAgentRun K request w)) = (Inr (tenant', agent), w')"
    using resolved(3) by (metis pass_refs_def prod.collapse)
  ultimately show ?thesis
    using validateReferences_tenant(1) by (metis tenantIDFor_fst)
qed (use assms in auto)

theorem live_gateway_calls_use_bound_tenant_witness:
  "bound_tenant (run_kube sample_run sample_agent) ''tenant-a'' () = Some sample_tenant"
  using live_gateway_calls_use_bound_tenant [of "run_kube sample_run sample_agent" sample_key "()" sample_run
      "EvSubmit (submission_of sample_run sample_tenant sample_agent) (Inr (control_run ''b1'' ''queued''))"
      sample_platform "fixed_gateway (Inr (control_run ''b1'' ''queued''))" sample_clock sample_tenant]
  unfolding sample_submission by simp


lemma reconcileDelete_namespace [simp]:
  "reconcileDelete P (K\<lparr>kGetNamespace := f\<rparr>) G T run w = reconcileDelete P K G T run w"
proof -
  have "release P (K\<lparr>kGetNamespace := f\<rparr>) run' = release P K run'" for run'
    by (simp add: release_def fun_eq_iff)
  then show ?thesis by (simp add: reconcileDelete_def Let_def split: prod.split sum.split)
qed

text \<open>
  Deletion takes the tenant from the label of the run and reads no Namespace: the pass on a run that
  is being deleted is the same whatever the Namespaces say, and its cancellation goes out under the
  label, although a label alone is elsewhere no proof of the tenant.
\<close>

lemma deletion_trusts_the_label:
  assumes "fst (kGetAgentRun K request w) = Inr run" and "\<not> time_is_zero (om_DeletionTimestamp (run_Meta run))"
  shows "Reconcile P (K\<lparr>kGetNamespace := f\<rparr>) G T request w = Reconcile P K G T request w \<and>
     (EvCancel tenant ident r \<in> set (pass_events P K G T request w) \<longrightarrow>
        tenant = map_get (om_Labels (run_Meta run)) TenantIDLabel)"
proof -
  obtain w1 where get: "kGetAgentRun K request w = (Inr run, w1)" using assms(1) by (metis prod.collapse)
  have "Reconcile P (K\<lparr>kGetNamespace := f\<rparr>) G T request w = Reconcile P K G T request w"
    using get assms(2) by (simp add: Reconcile_def)
  moreover have "tenant = map_get (om_Labels (run_Meta run)) TenantIDLabel"
    if "EvCancel tenant ident r \<in> set (pass_events P K G T request w)"
    using read_pass [OF assms(1), of P T G]
  proof cases
    case deleted
    from deletion_gateway [OF deleted(2)] that show ?thesis by fastforce
  qed (use assms in auto)
  ultimately show ?thesis by blast
qed

text \<open>A run whose deletion was asked for, with a label that no Namespace confirms.\<close>

definition deleted_run :: agent_run where
  "deleted_run =
     (run_at (new_status\<lparr>st_Phase := AgentRunRunning, st_BackendRunID := ''b1''\<rparr>))
       \<lparr>run_Meta := sample_meta\<lparr>om_Finalizers := [runFinalizer], om_Labels := [TenantIDLabel \<mapsto> ''other''],
          om_DeletionTimestamp := Some \<lparr>t_Wall = 0, t_Loc = LocUTC, t_Mono = None\<rparr>\<rparr>\<rparr>"

lemma deleted_run_simps [simp]:
  "om_Finalizers (run_Meta deleted_run) = [runFinalizer]"
  "om_Labels (run_Meta deleted_run) = [TenantIDLabel \<mapsto> ''other'']"
  "st_Phase (run_Status deleted_run) = AgentRunRunning" "st_BackendRunID (run_Status deleted_run) = ''b1''"
  "\<not> time_is_zero (om_DeletionTimestamp (run_Meta deleted_run))"
  by (simp_all add: deleted_run_def time_is_zero_def zero_time_def)

lemma cancelled_word [simp]: "projectPhase ''cancelled'' = AgentRunCancelled" "projectPhase ''queued'' = AgentRunQueued"
  by code_simp+

definition released_run :: agent_run where
  "released_run = without_finalizer sample_platform
     (applyControlPlaneStatus sample_platform sample_clock deleted_run (control_run ''b1'' ''cancelled''))"

lemma sample_deletion:
  "pass_events sample_platform (run_kube deleted_run sample_agent)
     (fixed_gateway (Inr (control_run ''b1'' ''cancelled''))) sample_clock sample_key () =
   [EvCancel ''other'' ''b1'' (Inr (control_run ''b1'' ''cancelled'')),
    EvStatus (applyControlPlaneStatus sample_platform sample_clock deleted_run (control_run ''b1'' ''cancelled''))
      (Inr (applyControlPlaneStatus sample_platform sample_clock deleted_run (control_run ''b1'' ''cancelled''))),
    EvUpdate released_run (Inr released_run)]"
  by (simp add: pass_events_def Reconcile_def reconcileDelete_def release_def released_run_def)

theorem deletion_trusts_the_label_witness:
  "Reconcile sample_platform ((run_kube deleted_run sample_agent)\<lparr>kGetNamespace := (\<lambda>_ w. (Inl not_found, w))\<rparr>)
     (fixed_gateway (Inr (control_run ''b1'' ''cancelled''))) sample_clock sample_key () =
   Reconcile sample_platform (run_kube deleted_run sample_agent)
     (fixed_gateway (Inr (control_run ''b1'' ''cancelled''))) sample_clock sample_key ()"
  by (rule deletion_trusts_the_label [of _ _ _ deleted_run, THEN conjunct1]) simp_all

subsection \<open>The ledger\<close>

text \<open>
  C8. Every status a pass writes is a proper ledger, given that the one it read was: stamped when started
  and finished, with an error code when failed and the reference of its own backend run when succeeded,
  and, once the backend knows the run, with message and \<open>Completed\<close> in the fixed words of the phase.
\<close>

theorem written_status_is_ledger:
  assumes "fst (kGetAgentRun K request w) = Inr run" and "ledger_ok (run_Status run)"
    and "set_cond_law (set_cond P)" and "run_gateway G"
    and "EvStatus u r \<in> set (pass_events P K G T request w)"
  shows "ledger_ok (run_Status u)"
proof -
  have "answers_of G s (Inr control) \<Longrightarrow> cpr_ID control \<noteq> []" for s control
    using run_gateway.submit_identifies [OF assms(4)] by (auto simp: answers_of_def)
  with run_pass_ledger [OF read_pass [OF assms(1), of P T G] assms(3,2,5)] show ?thesis by blast
qed

theorem written_status_is_ledger_witness:
  "ledger_ok (run_Status (accepted_run sample_platform sample_clock sample_run (control_run ''b1'' ''queued'')))"
proof (rule written_status_is_ledger [of "run_kube sample_run sample_agent" sample_key "()" sample_run])
  show "run_gateway (fixed_gateway (Inr (control_run ''b1'' ''queued'')))" by (rule fixed_run_gateway) simp
  show "EvStatus (accepted_run sample_platform sample_clock sample_run (control_run ''b1'' ''queued''))
      (Inr (accepted_run sample_platform sample_clock sample_run (control_run ''b1'' ''queued'')))
    \<in> set (pass_events sample_platform (run_kube sample_run sample_agent)
        (fixed_gateway (Inr (control_run ''b1'' ''queued''))) sample_clock sample_key ())"
    by (simp add: sample_submission)
qed (simp_all add: new_status_ledger sample_set_cond_law)

subsection \<open>Deletion and expiry\<close>

text \<open>
  C10. The finalizer is taken off only a run that is being deleted and whose backend side is settled: it
  was never submitted, was finished, the backend answered 404 to the cancellation, or the cancellation
  was acknowledged and the run stored as finished. The release is the last event of the pass.
\<close>

theorem finalizer_released_when_settled:
  assumes "fst (kGetAgentRun K request w) = Inr run" and "finalizer_law P"
    and "EvUpdate u r \<in> set (pass_events P K G T request w)"
    and "runFinalizer \<notin> set (om_Finalizers (run_Meta u))"
  shows "\<not> time_is_zero (om_DeletionTimestamp (run_Meta run)) \<and>
     (\<exists>pre. pass_events P K G T request w = pre @ [EvUpdate u r] \<and> backend_settled run pre)"
  by (rule run_pass_release [OF read_pass [OF assms(1)] assms(2-4)])

theorem finalizer_released_when_settled_witness:
  "\<exists>pre. [EvCancel ''other'' ''b1'' (Inr (control_run ''b1'' ''cancelled'')),
    EvStatus (applyControlPlaneStatus sample_platform sample_clock deleted_run (control_run ''b1'' ''cancelled''))
      (Inr (applyControlPlaneStatus sample_platform sample_clock deleted_run (control_run ''b1'' ''cancelled''))),
    EvUpdate released_run (Inr released_run)] = pre @ [EvUpdate released_run (Inr released_run)] \<and>
    backend_settled deleted_run pre"
  using finalizer_released_when_settled [of "run_kube deleted_run sample_agent" sample_key "()" deleted_run
      sample_platform released_run "Inr released_run" "fixed_gateway (Inr (control_run ''b1'' ''cancelled''))" sample_clock]
  unfolding sample_deletion by (simp add: sample_finalizer_law released_run_def without_finalizer_def)


text \<open>
  A pass deletes only a finished run whose time to live has passed: the deleted object is the run it
  read, or its latest copy the server answered to the status write of the same pass, it has a time to
  live and a finishing time, and their sum, as the code computes it, lies in the past.
\<close>

lemma only_expired_runs_deleted:
  assumes "fst (kGetAgentRun K request w) = Inr run"
    and "EvDelete u err \<in> set (pass_events P K G T request w)"
  shows "current run (pass_events P K G T request w) u \<and> expired_run T u \<and>
     (isTerminal (st_Phase (run_Status run)) \<or> isTerminal (st_Phase (run_Status u)))"
  by (rule run_pass_delete [OF read_pass [OF assms(1)] assms(2)])

definition epoch :: "int \<Rightarrow> gotime" where
  "epoch s = \<lparr>t_Wall = s * second, t_Loc = LocUTC, t_Mono = None\<rparr>"

lemma epoch_simps [simp]: "t_Wall (epoch s) = s * second" "t_Mono (epoch s) = None"
  by (simp_all add: epoch_def)

text \<open>A run with a time to live that finished at second 100 and has a clean status.\<close>

definition finished_run :: "int \<Rightarrow> agent_run" where
  "finished_run ttl =
     (let run = sample_run
        \<lparr>run_Spec := (run_Spec sample_run)\<lparr>ars_TTLSecondsAfterFinished := ttl\<rparr>,
         run_Status := new_status\<lparr>st_Phase := AgentRunCancelled, st_BackendRunID := ''b1'',
           st_FinishedAt := Some (epoch 100)\<rparr>\<rparr>
      in run\<lparr>run_Status := clean_status sample_platform sample_clock run\<rparr>)"

lemma finished_run_simps [simp]:
  "run_Meta (finished_run ttl) = run_Meta sample_run"
  "run_Spec (finished_run ttl) = (run_Spec sample_run)\<lparr>ars_TTLSecondsAfterFinished := ttl\<rparr>"
  "st_Phase (run_Status (finished_run ttl)) = AgentRunCancelled"
  "st_BackendRunID (run_Status (finished_run ttl)) = ''b1''"
  "st_FinishedAt (run_Status (finished_run ttl)) = Some (epoch 100)"
  by (simp_all add: finished_run_def clean_status_def Let_def)

lemma finished_run_clean:
  "run_Status (finished_run ttl) = clean_status sample_platform sample_clock (finished_run ttl)"
  "sanitizeTerminalStatus sample_platform sample_clock (finished_run ttl) = (False, finished_run ttl)"
proof -
  define run where "run = sample_run
        \<lparr>run_Spec := (run_Spec sample_run)\<lparr>ars_TTLSecondsAfterFinished := ttl\<rparr>,
         run_Status := new_status\<lparr>st_Phase := AgentRunCancelled, st_BackendRunID := ''b1'',
           st_FinishedAt := Some (epoch 100)\<rparr>\<rparr>"
  have f: "finished_run ttl = run\<lparr>run_Status := clean_status sample_platform sample_clock run\<rparr>"
    by (simp add: finished_run_def run_def Let_def)
  have "clean_conditions sample_platform sample_clock (finished_run ttl) = clean_conditions sample_platform sample_clock run"
    unfolding f by (rule clean_conditions_idem) (simp_all add: sample_set_cond_law conds_ok_def run_def)
  then show eq: "run_Status (finished_run ttl) = clean_status sample_platform sample_clock (finished_run ttl)"
    unfolding clean_status_def by (simp add: f) (simp add: clean_status_def)
  have "(finished_run ttl)\<lparr>run_Status := clean_status sample_platform sample_clock (finished_run ttl)\<rparr> = finished_run ttl"
    by (simp add: eq [symmetric])
  with sanitize_terminal [of "finished_run ttl" sample_platform sample_clock]
  show "sanitizeTerminalStatus sample_platform sample_clock (finished_run ttl) = (False, finished_run ttl)"
    by (simp add: eq [symmetric])
qed

definition clock_at :: "int \<Rightarrow> clock" where
  "clock_at s = sample_clock\<lparr>ck_expiry := epoch s\<rparr>"

lemma clock_at_simps [simp]: "ck_expiry (clock_at s) = epoch s"
  by (simp add: clock_at_def)

lemma sanitize_clock [simp]:
  "sanitizeTerminalStatus P (clock_at s) run = sanitizeTerminalStatus P sample_clock run"
proof -
  have "markControlPlaneReady P (clock_at s) = markControlPlaneReady P sample_clock"
    and "ck_completed (clock_at s) = ck_completed sample_clock"
    by (simp_all add: fun_eq_iff markControlPlaneReady_def clock_at_def)
  then show ?thesis by (simp only: sanitizeTerminalStatus_def)
qed

lemma sample_expiry:
  "pass_events sample_platform (run_kube (finished_run 60) sample_agent) G (clock_at 160) sample_key () =
     [EvDelete (finished_run 60) None]"
  by (simp add: sample_pass dispatch_def reconcileTerminal_def finished_run_clean(2) reconcileTTL_def Let_def
      expires_at_def time_until_wall seconds_exact max_seconds_def second_def)

theorem only_expired_runs_deleted_witness:
  "expired_run (clock_at 160) (finished_run 60)"
  using only_expired_runs_deleted [of "run_kube (finished_run 60) sample_agent" sample_key "()" "finished_run 60"
      "finished_run 60" None sample_platform "fixed_gateway (Inl NoRunID)" "clock_at 160"]
  by (simp add: sample_expiry)

text \<open>
  Up to about 292 years a time to live is honoured to the nanosecond: the run is deleted exactly when
  the clock has reached the finishing time plus that many seconds, and before that the pass asks to be
  called again after the time that is left.
\<close>

lemma ttl_exact:
  assumes "0 < ars_TTLSecondsAfterFinished (run_Spec run)"
    and "ars_TTLSecondsAfterFinished (run_Spec run) \<le> max_seconds"
    and "st_FinishedAt (run_Status run) = Some t" and "t_Mono t = None"
  shows "reconcileTTL K T run w =
     (let left = t_Wall t + ars_TTLSecondsAfterFinished (run_Spec run) * second - t_Wall (ck_expiry T)
      in if left \<le> 0 then (case kDeleteAgentRun K run w of (err, w1) \<Rightarrow> (ignoreNotFound err, w1))
         else (Inr (requeue_after (clamp64 left)), w))"
  using assms
  by (simp add: reconcileTTL_def Let_def expires_at_def time_until_wall seconds_exact)

theorem ttl_exact_witness:
  "reconcileTTL (run_kube (finished_run 60) sample_agent) (clock_at 159) (finished_run 60) () =
     (Inr (requeue_after (clamp64 second)), ())"
  by (subst ttl_exact [where t = "epoch 100"]) (simp_all add: max_seconds_def second_def)

text \<open>
  C38. A time to live from 9223372037 to 18446744072 seconds overflows the \<open>int64\<close> product once: the expiry lies
  before the finishing time and the run is deleted as soon as it is looked at. The API type and the schema have no
  upper bound that excludes such a value. A still longer one wraps further and may come out positive again.
\<close>

theorem ttl_overflow_deletes_at_once:
  assumes "max_seconds < ars_TTLSecondsAfterFinished (run_Spec run)"
    and "ars_TTLSecondsAfterFinished (run_Spec run) \<le> 2 * max_seconds"
    and "st_FinishedAt (run_Status run) = Some t" and "t_Mono t = None"
    and "t_Wall t \<le> t_Wall (ck_expiry T)"
  shows "reconcileTTL K T run w = (case kDeleteAgentRun K run w of (err, w1) \<Rightarrow> (ignoreNotFound err, w1))"
proof -
  let ?n = "ars_TTLSecondsAfterFinished (run_Spec run)"
  have "(?n * second + 2 ^ 63) mod 2 ^ 64 = ?n * second + 2 ^ 63 - 2 ^ 64"
  proof -
    have "(?n * second + 2 ^ 63) mod 2 ^ 64 = (?n * second + 2 ^ 63 - 2 ^ 64) mod 2 ^ 64"
      by (rule minus_mod_self2 [symmetric])
    also have "\<dots> = ?n * second + 2 ^ 63 - 2 ^ 64"
      by (rule mod_pos_pos_trivial) (use assms(1,2) in \<open>simp_all add: max_seconds_def second_def\<close>)
    finally show ?thesis .
  qed
  then have "seconds ?n \<le> 0"
    using assms(2) by (simp add: seconds_def wrap64_def max_seconds_def second_def)
  with assms show ?thesis
    by (simp add: reconcileTTL_def Let_def expires_at_def time_until_wall max_seconds_def)
qed

theorem ttl_overflow_deletes_at_once_witness:
  "reconcileTTL (run_kube (finished_run 9223372037) sample_agent) (clock_at 100) (finished_run 9223372037) () =
     (Inr empty_result, ())"
  by (subst ttl_overflow_deletes_at_once [where t = "epoch 100"])
     (simp_all add: max_seconds_def second_def ignoreNotFound_def)


subsection \<open>Progress\<close>

text \<open>
  No live run is dropped: a pass that ends without error and without asking to be called again has
  either read a finished run, or cancelled one the backend has never seen, or has just stored a status
  the server answered as finished.
\<close>

lemma unfinished_run_is_requeued:
  assumes "fst (kGetAgentRun K request w) = Inr run"
    and "time_is_zero (om_DeletionTimestamp (run_Meta run))" and "\<not> isTerminal (st_Phase (run_Status run))"
    and "fst (Reconcile P K G T request w) = Inr empty_result"
  shows "ars_Cancel (run_Spec run) \<and> st_BackendRunID (run_Status run) = [] \<or>
     (\<exists>v u. EvStatus v (Inr u) \<in> set (pass_events P K G T request w) \<and> isTerminal (st_Phase (run_Status u)))"
  using run_pass_ends [of P T "answers_of G" run] read_pass [OF assms(1), of P T G] assms(2-4) by metis

text \<open>A run the backend is working on.\<close>

definition running_run :: agent_run where
  "running_run = run_at (new_status\<lparr>st_Phase := AgentRunRunning, st_BackendRunID := ''b1'',
     st_StartedAt := Some (epoch 5)\<rparr>)"

lemma running_run_simps [simp]:
  "run_Meta running_run = run_Meta sample_run" "run_Spec running_run = run_Spec sample_run"
  "st_Phase (run_Status running_run) = AgentRunRunning" "st_BackendRunID (run_Status running_run) = ''b1''"
  "st_StartedAt (run_Status running_run) = Some (epoch 5)" "st_Conditions (run_Status running_run) = []"
  "st_FinishedAt (run_Status running_run) = None" "st_NodeStates (run_Status running_run) = None"
  by (simp_all add: running_run_def new_status_def)

lemma polled_fields [simp]:
  "st_Phase (run_Status (polled_run P T run control)) = projectPhase (cpr_Status control)"
  "st_BackendRunID (run_Status (polled_run P T run control)) = projected_id run control"
  "run_Spec (polled_run P T run control) = run_Spec run"
  "run_Meta (polled_run P T run control) = run_Meta run"
  by (simp_all add: polled_run_eq)

lemma polled_nodes:
  "st_NodeStates (run_Status (polled_run P T run control)) \<noteq> None"
  by (simp add: polled_run_eq markControlPlaneReady_def)

lemma running_run_changes: "run_Status running_run \<noteq> run_Status (polled_run P T running_run control)"
  using polled_nodes [of P T running_run control] running_run_simps(8) by metis

lemma sample_poll:
  "dispatch P (run_kube running_run sample_agent) (fixed_gateway (Inr (control_run ''b1'' ''cancelled''))) T
     running_run tenant sample_agent () = (Inr empty_result, ())"
  "snd (snd (dispatch P (traced_kube (run_kube running_run sample_agent))
     (traced_gateway (fixed_gateway (Inr (control_run ''b1'' ''cancelled'')))) T
     running_run tenant sample_agent ((), []))) =
   [EvPoll tenant ''b1'' (Inr (control_run ''b1'' ''cancelled'')),
    EvStatus (polled_run P T running_run (control_run ''b1'' ''cancelled''))
      (Inr (polled_run P T running_run (control_run ''b1'' ''cancelled'')))]"
  by (simp_all add: dispatch_def reconcilePoll_def running_run_changes Let_def finish_or_poll_def reconcileTTL_def)

theorem unfinished_run_is_requeued_witness:
  "\<exists>v u. EvStatus v (Inr u) \<in> set (pass_events sample_platform (run_kube running_run sample_agent)
      (fixed_gateway (Inr (control_run ''b1'' ''cancelled''))) sample_clock sample_key ()) \<and>
     isTerminal (st_Phase (run_Status u))"
proof -
  have "fst (Reconcile sample_platform (run_kube running_run sample_agent)
      (fixed_gateway (Inr (control_run ''b1'' ''cancelled''))) sample_clock sample_key ()) = Inr empty_result"
    by (simp add: sample_pass sample_poll)
  from unfinished_run_is_requeued [OF _ _ _ this, of running_run] show ?thesis by simp
qed

text \<open>A gateway call that failed, and what a status that records the failure keeps.\<close>

definition call_error :: "event \<Rightarrow> gateway_error option" where
  "call_error e =
     (case e of EvSubmit _ (Inl err) \<Rightarrow> Some err | EvPoll _ _ (Inl err) \<Rightarrow> Some err
      | EvCancel _ _ (Inl err) \<Rightarrow> Some err | _ \<Rightarrow> None)"

definition records_failure :: "platform \<Rightarrow> clock \<Rightarrow> agent_run \<Rightarrow> gateway_error \<Rightarrow> agent_run \<Rightarrow> bool" where
  "records_failure P T run err u \<longleftrightarrow>
     (\<exists>c. find_cond (st_Conditions (run_Status u)) ''ControlPlaneReady'' = Some c \<and>
        cond_Status c = ConditionFalse \<and> cond_Message c = take 1024 (gateway_error_text err)) \<and>
     (run_Status u)\<lparr>st_Conditions := st_Conditions (run_Status run)\<rparr> = run_Status run"

lemma failed_run_records:
  assumes "set_cond_law (set_cond P)"
  shows "records_failure P T run err (failed_run P T run reason err)"
proof -
  have cut: "(if 1024 < length m then take 1024 m else m) = take 1024 m" for m :: string
    by simp
  show ?thesis
    using set_cond_same [OF assms, of "run_condition run ''ControlPlaneReady'' ConditionFalse reason
        (take 1024 (gateway_error_text err))"]
    by (simp only: records_failure_def failed_run_def Let_def cut) simp
qed

lemma call_error_gateway: "call_error e = Some err \<Longrightarrow> gateway_event e"
  by (cases e) (auto simp: call_error_def)

lemma no_call_error:
  "written (settle T) run es res \<Longrightarrow> e \<in> set es \<Longrightarrow> call_error e = Some err \<Longrightarrow> False"
  "written (expiry T) run es res \<Longrightarrow> e \<in> set es \<Longrightarrow> call_error e = Some err \<Longrightarrow> False"
  "expiry T run es res \<Longrightarrow> e \<in> set es \<Longrightarrow> call_error e = Some err \<Longrightarrow> False"
  by (drule call_error_gateway, erule (2) no_gateway_in)+

lemma active_failure:
  assumes "active P T answers run tenant agent es res" and "e \<in> set es" and "call_error e = Some err"
  shows "\<exists>reason r. es = [e, EvStatus (failed_run P T run reason err) r] \<and>
     res = write_result (requeue_after (10 * second)) r"
  using assms(1)
  by cases (use assms(2,3) in \<open>auto simp: call_error_def [of "EvStatus _ _"] call_error_def [of "EvPoll _ _ _"]
      call_error_def [of "EvSubmit _ _"] call_error_def [of "EvCancel _ _ _"] dest: no_call_error\<close>)


text \<open>
  C34. A failure of the gateway is never fatal: when a call for a live run fails, the pass records it in
  the condition \<open>ControlPlaneReady\<close> with a message of at most 1024 bytes that starts as the error does,
  keeps every other field of the status, and asks to be called again in ten seconds unless the write fails.
\<close>

theorem gateway_failure_recorded:
  assumes "fst (kGetAgentRun K request w) = Inr run" and "time_is_zero (om_DeletionTimestamp (run_Meta run))"
    and "set_cond_law (set_cond P)"
    and "e \<in> set (pass_events P K G T request w)" and "call_error e = Some err"
  shows "\<exists>u r. pass_events P K G T request w = [e, EvStatus u r] \<and> records_failure P T run err u \<and>
     fst (Reconcile P K G T request w) =
       (case r of Inl e' \<Rightarrow> Inl (KubeErr e') | Inr _ \<Rightarrow> Inr (requeue_after (10 * second)))"
  using read_pass [OF assms(1), of P T G]
proof cases
  case (resolved tenant agent)
  from active_failure [OF resolved(4) assms(4,5)] failed_run_records [OF assms(3)]
  show ?thesis by (auto simp: write_result_def)
qed (use assms in \<open>auto simp: call_error_def\<close>)

lemma sample_poll_failure:
  "pass_events sample_platform (run_kube running_run sample_agent) (fixed_gateway (Inl BaseURLRequired))
     sample_clock sample_key () =
   [EvPoll sample_tenant ''b1'' (Inl BaseURLRequired),
    EvStatus (failed_run sample_platform sample_clock running_run ''PollFailed'' BaseURLRequired)
      (Inr (failed_run sample_platform sample_clock running_run ''PollFailed'' BaseURLRequired))]"
  by (simp add: sample_pass dispatch_def reconcilePoll_def gatewayFailure_def update_status_then_def)

theorem gateway_failure_recorded_witness:
  "\<exists>u. records_failure sample_platform sample_clock running_run BaseURLRequired u"
  using gateway_failure_recorded [of "run_kube running_run sample_agent" sample_key "()" running_run
      sample_platform "EvPoll sample_tenant ''b1'' (Inl BaseURLRequired)" "fixed_gateway (Inl BaseURLRequired)"
      sample_clock BaseURLRequired]
  unfolding sample_poll_failure by (auto simp: sample_set_cond_law call_error_def)

text \<open>
  While its references are not valid a live run is only marked: the pass writes \<open>Ready=False\<close> with
  the text of the reference error and comes back in fifteen seconds. It does so before it looks at the
  rest of the run, so a cancellation is not forwarded, a running backend run is not polled and a finished
  run does not expire until the references are valid again.
\<close>

lemma unresolved_references_block:
  assumes "fst (kGetAgentRun K request w) = Inr run" and "time_is_zero (om_DeletionTimestamp (run_Meta run))"
    and "contains_finalizer P (om_Finalizers (run_Meta run)) runFinalizer"
    and "pass_refs P K run request w = Inl err"
  shows "\<exists>r. pass_events P K G T request w =
      [EvStatus (rejected_run P T run ''ReferencesNotReady'' (reference_error_text P err)) r] \<and>
     fst (Reconcile P K G T request w) = write_result (requeue_after (15 * second)) r"
  using read_pass [OF assms(1), of P T G]
  by cases (use assms in auto)

text \<open>A run that is to be cancelled while its Agent is gone.\<close>

definition orphan_run :: agent_run where
  "orphan_run = running_run\<lparr>run_Spec := (run_Spec running_run)\<lparr>ars_Cancel := True\<rparr>\<rparr>"

definition no_agent :: "unit kube" where
  "no_agent = (run_kube orphan_run sample_agent)\<lparr>kGetAgent := (\<lambda>_ w. (Inl not_found, w))\<rparr>"

lemma orphan_refs: "pass_refs sample_platform no_agent orphan_run sample_key () = Inl (AgentMissing ''research'')"
  by (simp add: pass_refs_def validateReferences_def tenantIDFor_def no_agent_def not_found_def orphan_run_def Let_def)

theorem unresolved_references_block_witness:
  "\<exists>u r. pass_events sample_platform no_agent (fixed_gateway (Inl NoRunID)) sample_clock sample_key () =
     [EvStatus u r]"
  using unresolved_references_block [OF _ _ _ orphan_refs, of "fixed_gateway (Inl NoRunID)" sample_clock]
  by (auto simp: no_agent_def orphan_run_def)

text \<open>
  A run that is cancelled before it was submitted is never submitted and the backend hears nothing
  of it: the pass only writes the phase \<open>Cancelled\<close>. It ends there, without a look at the time to live.
\<close>

lemma cancelled_before_submission:
  assumes "fst (kGetAgentRun K request w) = Inr run" and "time_is_zero (om_DeletionTimestamp (run_Meta run))"
    and "pass_refs P K run request w = Inr (tenant, agent)"
    and "contains_finalizer P (om_Finalizers (run_Meta run)) runFinalizer"
    and "ars_Cancel (run_Spec run)" and "st_BackendRunID (run_Status run) = []"
  shows "\<exists>u r. pass_events P K G T request w = [EvStatus u r] \<and>
     st_Phase (run_Status u) = AgentRunCancelled \<and> st_FinishedAt (run_Status u) = Some (ck_now T) \<and>
     fst (Reconcile P K G T request w) = write_result empty_result r"
  using read_pass [OF assms(1), of P T G]
proof cases
  case (resolved tenant' agent')
  from resolved(4) show ?thesis
    by cases
       (use assms(5,6) in \<open>auto simp: cancelled_before_submit_def Let_def markReferencesReady_def\<close>)
qed (use assms in auto)

definition early_cancel :: agent_run where
  "early_cancel = sample_run\<lparr>run_Spec := (run_Spec sample_run)\<lparr>ars_Cancel := True, ars_TTLSecondsAfterFinished := 60\<rparr>\<rparr>"

lemma early_cancel_simps [simp]:
  "run_Meta early_cancel = run_Meta sample_run" "run_Status early_cancel = new_status"
  "ars_Cancel (run_Spec early_cancel)" "ars_DAG (run_Spec early_cancel) = Some sample_dag"
  by (simp_all add: early_cancel_def)

theorem cancelled_before_submission_witness:
  "\<exists>u r. pass_events sample_platform (run_kube early_cancel sample_agent) (fixed_gateway (Inl NoRunID))
       sample_clock sample_key () = [EvStatus u r] \<and> st_Phase (run_Status u) = AgentRunCancelled"
  using cancelled_before_submission [of "run_kube early_cancel sample_agent" sample_key "()" early_cancel
      sample_platform sample_tenant sample_agent "fixed_gateway (Inl NoRunID)" sample_clock]
  by (auto simp: pass_refs_def sample_refs)

text \<open>
  The test before the status write of a poll hardly ever spares it: a run whose stored start differs
  in representation from the one the backend reports, by its location or its fraction of a second, both
  of which the API server drops, is written again in every pass although nothing has happened.
\<close>

lemma poll_rewrites_same_status:
  assumes "fst (kGetAgentRun K request w) = Inr run"
    and "EvPoll tenant ident (Inr control) \<in> set (pass_events P K G T request w)"
    and "time_is_zero (om_DeletionTimestamp (run_Meta run))"
    and "cpr_StartedAt control = Some reported" and "st_StartedAt (run_Status run) = Some kept"
    and "kept \<noteq> reported"
  shows "\<exists>r es. pass_events P K G T request w =
     EvPoll tenant ident (Inr control) # EvStatus (polled_run P T run control) r # es"
proof -
  have "st_StartedAt (run_Status (polled_run P T run control)) = Some reported"
    by (simp add: polled_run_eq markControlPlaneReady_def apply_status_StartedAt assms(4))
  then have changed: "run_Status run \<noteq> run_Status (polled_run P T run control)"
    using assms(5,6) by auto
  from read_pass [OF assms(1), of P T G] show ?thesis
  proof cases
    case (resolved tenant' agent')
    from resolved(4) show ?thesis
    proof cases
      case (poll_changed control' es)
      have "EvPoll tenant ident (Inr control) \<notin> set es"
        using no_gateway_in(3) [OF poll_changed(6)] by force
      with poll_changed assms(2) written_cases [OF poll_changed(6)] show ?thesis by auto
    next
      case (cancel control' es)
      with assms(2) no_gateway_in(3) [OF cancel(4)] show ?thesis by force
    next
      case terminal_clean
      with assms(2) no_gateway_in(1) [OF terminal_clean(5)] show ?thesis by force
    next
      case terminal_dirty
      with assms(2) no_gateway_in(4) [OF terminal_dirty(5)] show ?thesis by force
    qed (use assms(2) changed in auto)
  qed (use assms(2,3) in \<open>auto dest: deletion_gateway\<close>)
qed


text \<open>What the backend reports for the running run, and what it stored before, differ in the location.\<close>

definition reported_run :: control_plane_run where
  "reported_run = (control_run ''b1'' ''running'')\<lparr>cpr_StartedAt := Some ((epoch 5)\<lparr>t_Loc := LocLocal\<rparr>)\<rparr>"

theorem poll_rewrites_same_status_witness:
  "\<exists>r es. pass_events sample_platform (run_kube running_run sample_agent) (fixed_gateway (Inr reported_run))
      sample_clock sample_key () =
     EvPoll sample_tenant ''b1'' (Inr reported_run) #
     EvStatus (polled_run sample_platform sample_clock running_run reported_run) r # es"
proof (rule poll_rewrites_same_status)
  show "EvPoll sample_tenant ''b1'' (Inr reported_run) \<in> set (pass_events sample_platform
      (run_kube running_run sample_agent) (fixed_gateway (Inr reported_run)) sample_clock sample_key ())"
    by (simp add: sample_pass dispatch_def reconcilePoll_def running_run_changes finish_or_poll_def
        reconcileTTL_def Let_def)
  show "epoch 5 \<noteq> (epoch 5)\<lparr>t_Loc := LocLocal\<rparr>" by (simp add: epoch_def)
qed (simp_all add: reported_run_def)


subsection \<open>Submission\<close>

lemma project_node_fields [simp]:
  "rn_Name (project_node run agent node) = dn_Name node"
  "rn_DependsOn (project_node run agent node) = dn_DependsOn node"
  by (simp_all add: project_node_def Let_def)

text \<open>
  The projection of a DAG node: name and dependencies are kept, prompt and role fall back to the task
  of the run and the role of the Agent and are empty only when both are, and a retry count is sent exactly
  when more than one attempt is allowed: one less than the attempts.
\<close>

lemma node_projection:
  "rn_Name (project_node run agent node) = dn_Name node \<and>
   rn_DependsOn (project_node run agent node) = dn_DependsOn node \<and>
   (rn_Prompt (project_node run agent node) = [] \<longleftrightarrow>
      dn_Prompt node = [] \<and> in_Task (ars_Input (run_Spec run)) = []) \<and>
   (rn_Role (project_node run agent node) = [] \<longleftrightarrow>
      dn_Role node = [] \<and> rt_Role (as_Runtime (ag_Spec agent)) = []) \<and>
   (rn_MaxRetries (project_node run agent node) = Some k \<longleftrightarrow>
      rp_MaxAttempts (ars_RetryPolicy (run_Spec run)) = k + 1 \<and> 1 \<le> k)"
  by (auto simp: project_node_def Let_def)

text \<open>The dependency relation of submitted nodes.\<close>

definition submitted_relation :: "run_node list \<Rightarrow> (string \<times> string) set" where
  "submitted_relation nodes = {(rn_Name x, d) |x d. x \<in> set nodes \<and> d \<in> set (rn_DependsOn x)}"

lemma submitted_relation_projected:
  "submitted_relation (map (project_node run agent) nodes) = dag_relation nodes"
  by (force simp: submitted_relation_def dag_relation_def)

lemma validateReferences_dag:
  assumes "validateReferences P K run w = (Inr (tenant, agent), w')"
  shows "validateDAG (range_check P) (range_visit P) (ars_DAG (run_Spec run)) = None"
  using assms by (auto simp: validateReferences_def split: prod.splits sum.splits if_splits option.splits)

text \<open>
  C19. What a run with valid references submits can be executed: at least one node, distinct names, and
  an order of the nodes in which each comes after all it depends on. A run without a DAG submits the one
  node \<open>main\<close>.
\<close>

theorem submitted_graph_executable:
  assumes "validateReferences P K run w = (Inr (tenant, agent), w')"
  shows "rs_Nodes (submission_of run tenant agent) \<noteq> [] \<and>
     distinct (map rn_Name (rs_Nodes (submission_of run tenant agent))) \<and>
     (\<exists>xs. set xs = rn_Name ` set (rs_Nodes (submission_of run tenant agent)) \<and>
        schedule (submitted_relation (rs_Nodes (submission_of run tenant agent))) xs)"
proof (cases "\<exists>nodes. ars_DAG (run_Spec run) = Some \<lparr>dag_Nodes = nodes\<rparr> \<and> nodes \<noteq> []")
  case True
  then obtain nodes where dag: "ars_DAG (run_Spec run) = Some \<lparr>dag_Nodes = nodes\<rparr>" "nodes \<noteq> []" by blast
  have nodes: "rs_Nodes (submission_of run tenant agent) = map (project_node run agent) nodes"
    by (simp add: submission_of_def dag Let_def)
  have ok: "validateDAG (range_check P) (range_visit P) (Some \<lparr>dag_Nodes = nodes\<rparr>) = None"
    using validateReferences_dag [OF assms] dag by simp
  then have "distinct (map dn_Name nodes)" by (simp add: validateDAG_accepts wf_dag_def)
  with dag(2) go_dag.accepted_schedule [OF ok] show ?thesis
    by (simp add: nodes submitted_relation_projected image_image comp_def)
next
  case False
  then have nodes: "rs_Nodes (submission_of run tenant agent) = [main_node run agent]"
  proof (cases "ars_DAG (run_Spec run)")
    case (Some d)
    with False have "dag_Nodes d = []" by (cases d) auto
    with Some show ?thesis by (simp add: submission_of_def Let_def)
  qed (simp add: submission_of_def Let_def)
  have "schedule (submitted_relation [main_node run agent]) [''main'']"
    by (simp add: schedule_def submitted_relation_def main_node_def)
  then show ?thesis by (auto simp: nodes main_node_def intro!: exI [of _ "[''main'']"])
qed

theorem submitted_graph_executable_witness:
  "\<exists>xs. set xs = rn_Name ` set (rs_Nodes (submission_of sample_run sample_tenant sample_agent)) \<and>
     schedule (submitted_relation (rs_Nodes (submission_of sample_run sample_tenant sample_agent))) xs"
  using submitted_graph_executable [OF sample_refs [of sample_run sample_run "()"]] by simp

text \<open>
  An Agent event wakes exactly the unfinished runs of its Namespace that reference it, and none when
  the list cannot be read.
\<close>

lemma agent_event_wakes_unfinished_runs:
  "set (fst (runsForAgent K object w)) =
     {key_of (run_Meta run) |run runs.
        fst (kListAgentRuns K (om_Namespace object) w) = Inr runs \<and> run \<in> set runs \<and>
        ars_AgentRef (run_Spec run) = om_Name object \<and> \<not> isTerminal (st_Phase (run_Status run))}"
  by (auto simp: runsForAgent_def split: prod.splits sum.splits)

text \<open>
  Behind the HTTP adapter a failed run always carries the error code \<open>RUN_FAILED\<close> and starts when the
  backend created it: the adapter fills neither an error code nor a start of its own.
\<close>

lemma http_failure_code:
  assumes "httpGet N g tenant ident n = (Inr control, n')" and "projectPhase (cpr_Status control) = AgentRunFailed"
  shows "st_ErrorCode (run_Status (applyControlPlaneStatus P T run control)) = ''RUN_FAILED'' \<and>
     (\<exists>backend. control = projectRun backend \<and> cpr_StartedAt control = br_CreatedAt backend)"
  using assms
  by (auto simp: httpGet_def apply_status_refs projectRun_def split: prod.splits sum.splits)

definition failed_answer :: json where
  "failed_answer = JObj [(''run'', JObj [(''id'', JStr ''b1''), (''status'', JStr ''failed'')])]"

lemma sample_get_failed:
  "httpGet (answering 200 failed_answer) sample_adapter ''t'' ''b1'' () =
     (Inr \<lparr>cpr_ID = ''b1'', cpr_Status = ''failed'', cpr_Summary = [], cpr_ErrorCode = [],
          cpr_StartedAt = None, cpr_FinishedAt = None, cpr_Steps = []\<rparr>, ())"
  by (simp add: httpGet_def http_do_def answering_def sample_adapter_def failed_answer_def
      NewHTTPRunGateway_def trim_right_slash_def read_limited_def body_limit_def dec_run_envelope_def
      dec_backend_run_def zero_run_envelope_def answer_fold_names projectRun_def)

theorem http_failure_code_witness:
  "st_ErrorCode (run_Status (applyControlPlaneStatus sample_platform sample_clock sample_run
     \<lparr>cpr_ID = ''b1'', cpr_Status = ''failed'', cpr_Summary = [], cpr_ErrorCode = [],
      cpr_StartedAt = None, cpr_FinishedAt = None, cpr_Steps = []\<rparr>)) = ''RUN_FAILED''"
proof -
  have "projectPhase ''failed'' = AgentRunFailed" by code_simp
  with http_failure_code [OF sample_get_failed, of sample_platform sample_clock sample_run] show ?thesis
    by simp
qed

end
