(* ===== verification/Run_Lifecycle.thy ===== *)
theory Run_Lifecycle
  imports Run_Properties
begin

text \<open>
  The life of one AgentRun over many passes. The API server keeps the versions of the object under
  optimistic concurrency: a write is accepted only on the version it was made from, and every accepted
  write gets a resource version of its own. The controller may read any version that ever existed,
  since it reads a cache, and the answer to a write may be lost although the write was made. Users edit
  the object between passes; its status belongs to the controller.
\<close>

subsection \<open>The API server\<close>

definition version :: "agent_run \<Rightarrow> nat" where
  "version run = om_ResourceVersion (run_Meta run)"

text \<open>
  What identifies a run to the backend: the key of its submissions. The API type lets a user edit
  \<open>spec.idempotencyKey\<close>, so the key belongs to a version of the run; its UID never changes.
\<close>

definition run_key :: "agent_run \<Rightarrow> string" where
  "run_key run = (if ars_IdempotencyKey (run_Spec run) = [] then om_UID (run_Meta run)
                  else ars_IdempotencyKey (run_Spec run))"

definition same_uid :: "agent_run \<Rightarrow> agent_run \<Rightarrow> bool" where
  "same_uid a b \<longleftrightarrow> om_UID (run_Meta a) = om_UID (run_Meta b)"

text \<open>A stored status keeps phase, backend id and attempts of the one sent; times may lose precision.\<close>

definition status_kept :: "agent_run \<Rightarrow> agent_run \<Rightarrow> bool" where
  "status_kept sent stored \<longleftrightarrow>
     st_Phase (run_Status stored) = st_Phase (run_Status sent) \<and>
     st_BackendRunID (run_Status stored) = st_BackendRunID (run_Status sent) \<and>
     st_Attempts (run_Status stored) = st_Attempts (run_Status sent)"

text \<open>
  \<open>server_step vs cur ev cur'\<close>: with the versions \<open>vs\<close>, of which \<open>cur\<close> is the current one, the event
  \<open>ev\<close> leaves \<open>cur'\<close> as the current version.
\<close>

inductive server_step :: "agent_run set \<Rightarrow> agent_run \<Rightarrow> event \<Rightarrow> agent_run \<Rightarrow> bool" for vs cur where
  gateway: "gateway_event e \<Longrightarrow> server_step vs cur e cur"
| status_stored: "version u = version cur \<Longrightarrow> status_kept u cur' \<Longrightarrow> same_uid cur cur' \<Longrightarrow>
    version cur' \<notin> version ` vs \<Longrightarrow> r = Inr cur' \<or> (\<exists>e. r = Inl e) \<Longrightarrow> server_step vs cur (EvStatus u r) cur'"
| status_refused: "server_step vs cur (EvStatus u (Inl e)) cur"
| object_stored: "version u = version cur \<Longrightarrow> run_Status cur' = run_Status cur \<Longrightarrow> same_uid cur cur' \<Longrightarrow>
    version cur' \<notin> version ` vs \<Longrightarrow> server_step vs cur (EvUpdate u r) cur'"
| object_refused: "server_step vs cur (EvUpdate u (Inl e)) cur"
| marked_deleted: "run_Status cur' = run_Status cur \<Longrightarrow> same_uid cur cur' \<Longrightarrow>
    version cur' \<notin> version ` vs \<Longrightarrow> server_step vs cur (EvDelete u None) cur'"
| not_deleted: "server_step vs cur (EvDelete u err) cur"

inductive server_steps ::
  "agent_run set \<Rightarrow> agent_run \<Rightarrow> event list \<Rightarrow> agent_run set \<Rightarrow> agent_run \<Rightarrow> bool" where
  no_event: "server_steps vs cur [] vs cur"
| step: "server_step vs cur e cur' \<Longrightarrow> server_steps (insert cur' vs) cur' es vs' cur'' \<Longrightarrow>
    server_steps vs cur (e # es) vs' cur''"

subsection \<open>Lives\<close>

text \<open>
  \<open>lifecycle P answers cur vs h\<close>: a run whose current version is \<open>cur\<close>, of all versions \<open>vs\<close>, after
  passes with the events \<open>h\<close>. A user may change anything but the status and the UID.
\<close>

inductive lifecycle ::
  "platform \<Rightarrow> (run_submission \<Rightarrow> gateway_answer \<Rightarrow> bool) \<Rightarrow> agent_run \<Rightarrow> agent_run set \<Rightarrow> event list \<Rightarrow> bool"
  for P answers where
  created: "st_BackendRunID (run_Status run) = [] \<Longrightarrow> lifecycle P answers run {run} []"
| edited: "lifecycle P answers run vs h \<Longrightarrow> run_Status run' = run_Status run \<Longrightarrow> same_uid run run' \<Longrightarrow>
    version run' \<notin> version ` vs \<Longrightarrow> lifecycle P answers run' (insert run' vs) h"
| passed: "lifecycle P answers run vs h \<Longrightarrow> seen \<in> vs \<Longrightarrow> run_pass P T answers seen refs es res \<Longrightarrow>
    server_steps vs run es vs' run' \<Longrightarrow> lifecycle P answers run' vs' (h @ es)"

text \<open>The statuses of a pass are made from the version it read and do not forget the backend's run.\<close>

lemma rejected_fields [simp]:
  "run_Meta (rejected_run P T run reason m) = run_Meta run"
  "st_BackendRunID (run_Status (rejected_run P T run reason m)) = st_BackendRunID (run_Status run)"
  by (simp_all add: rejected_run_def Let_def)

lemma failed_fields [simp]:
  "run_Meta (failed_run P T run reason err) = run_Meta run"
  "st_BackendRunID (run_Status (failed_run P T run reason err)) = st_BackendRunID (run_Status run)"
  by (simp_all add: failed_run_def Let_def)

lemma cancelled_fields [simp]:
  "run_Meta (cancelled_run P T run control) = run_Meta run"
  "st_BackendRunID (run_Status (cancelled_run P T run control)) = projected_id run control"
  by (simp_all add: cancelled_run_def Let_def)

lemma first_write_fields [simp]:
  "run_Meta (accepted_run P T run control) = run_Meta run"
  "run_Meta (cancelled_before_submit P T run) = run_Meta run"
  by (simp_all add: accepted_run_def cancelled_before_submit_def Let_def)

lemma projected_id_nonempty: "st_BackendRunID (run_Status run) \<noteq> [] \<Longrightarrow> projected_id run control \<noteq> []"
  by (simp add: projected_id_def)

text \<open>The backend answers about the run it was asked for, or leaves the id out.\<close>

definition answers_match :: "event list \<Rightarrow> bool" where
  "answers_match h \<longleftrightarrow>
     (\<forall>t i c. EvPoll t i (Inr c) \<in> set h \<or> EvCancel t i (Inr c) \<in> set h \<longrightarrow> cpr_ID c = [] \<or> cpr_ID c = i)"

lemma answers_match_append [simp]: "answers_match (h @ es) \<longleftrightarrow> answers_match h \<and> answers_match es"
  unfolding answers_match_def set_append Un_iff by metis

lemma matched_id:
  assumes "answers_match es"
    and "EvPoll t (st_BackendRunID (run_Status run)) (Inr c) \<in> set es \<or> EvCancel t (st_BackendRunID (run_Status run)) (Inr c) \<in> set es"
  shows "projected_id run c = st_BackendRunID (run_Status run)"
  using assms by (auto simp: answers_match_def projected_id_def)

lemma run_pass_origin:
  assumes "run_pass P T answers run refs es res" and "EvStatus u r \<in> set es" and "answers_match es"
  shows "run_Meta u = run_Meta run \<and>
     (st_BackendRunID (run_Status run) \<noteq> [] \<longrightarrow> st_BackendRunID (run_Status u) = st_BackendRunID (run_Status run))"
  using assms(1)
proof cases
  case deleted
  from deleted(2) show ?thesis
  proof cases
    case (backend_cancels control es')
    with assms(2) have "EvStatus u r \<in> set es'" by simp
    note written = status_written(3) [OF backend_cancels(5) this]
    have "projected_id run control = st_BackendRunID (run_Status run)"
      by (rule matched_id [OF assms(3)]) (use backend_cancels(1) in auto)
    with written show ?thesis by simp
  qed (use assms(2) in simp_all)
next
  case (resolved tenant agent)
  from resolved(4) show ?thesis
  proof cases
    case (cancel control es')
    with assms(2) have "EvStatus u r \<in> set es'" by simp
    note written = status_written(1) [OF cancel(4) this]
    have "projected_id run control = st_BackendRunID (run_Status run)"
      by (rule matched_id [OF assms(3)]) (use cancel(1) in auto)
    with written show ?thesis by simp
  next
    case terminal_clean
    with assms(2) expiry_no_status show ?thesis by blast
  next
    case terminal_dirty
    from status_written(2) [OF terminal_dirty(5) assms(2)] terminal_dirty(2) show ?thesis
      by (simp add: clean_status_def)
  next
    case (poll_changed control es')
    with assms(2) have "EvStatus u r \<in> set es'" by simp
    note written = status_written(1) [OF poll_changed(6) this]
    have "projected_id run control = st_BackendRunID (run_Status run)"
      by (rule matched_id [OF assms(3)]) (use poll_changed(1) in auto)
    with written show ?thesis by simp
  qed (use assms(2) in simp_all)
qed (use assms(2) in simp_all)

lemma run_pass_submission:
  assumes "run_pass P T answers run refs es res" and "EvSubmit s r \<in> set es"
  shows "st_BackendRunID (run_Status run) = [] \<and> rs_IdempotencyKey s = run_key run"
  using assms(1)
proof cases
  case deleted
  with deletion_gateway [OF deleted(2)] assms(2) show ?thesis by fastforce
next
  case (resolved tenant agent)
  from active_gateway [OF resolved(4)] assms(2) show ?thesis
    by (fastforce simp: submission_of_def run_key_def Let_def split: if_splits)
qed (use assms(2) in auto)

subsection \<open>Invariants\<close>

definition versions_ok :: "agent_run set \<Rightarrow> agent_run \<Rightarrow> bool" where
  "versions_ok vs cur \<longleftrightarrow> cur \<in> vs \<and> inj_on version vs \<and> (\<forall>v \<in> vs. same_uid cur v)"

definition id_kept :: "agent_run set \<Rightarrow> agent_run \<Rightarrow> bool" where
  "id_kept vs cur \<longleftrightarrow>
     (\<forall>v \<in> vs. st_BackendRunID (run_Status v) \<noteq> [] \<longrightarrow> st_BackendRunID (run_Status cur) = st_BackendRunID (run_Status v))"

lemma versions_ok_insert:
  assumes "versions_ok vs cur" and "same_uid cur cur'" and "version cur' \<notin> version ` vs"
  shows "versions_ok (insert cur' vs) cur'"
  using assms by (auto simp: versions_ok_def same_uid_def)

lemma versions_ok_same: "versions_ok vs cur \<Longrightarrow> versions_ok (insert cur vs) cur"
  by (auto simp: versions_ok_def insert_absorb)

lemma id_kept_insert:
  assumes "id_kept vs cur"
    and "st_BackendRunID (run_Status cur) \<noteq> [] \<Longrightarrow> st_BackendRunID (run_Status cur') = st_BackendRunID (run_Status cur)"
  shows "id_kept (insert cur' vs) cur'"
  using assms unfolding id_kept_def by (metis insert_iff)

lemma server_step_versions: "server_step vs cur e cur' \<Longrightarrow> versions_ok vs cur \<Longrightarrow> versions_ok (insert cur' vs) cur'"
  by (induction rule: server_step.induct) (auto intro: versions_ok_insert versions_ok_same)

lemma server_steps_versions:
  assumes "server_steps vs cur es vs' cur'" and "versions_ok vs cur"
  shows "versions_ok vs' cur' \<and> vs \<subseteq> vs' \<and> same_uid cur cur'"
  using assms
proof (induction rule: server_steps.induct)
  case (no_event vs cur)
  then show ?case by (simp add: same_uid_def)
next
  case (step vs cur e cur' es vs' cur'')
  note ok = server_step_versions [OF step(1) step(4)]
  with step.IH have "versions_ok vs' cur'' \<and> insert cur' vs \<subseteq> vs' \<and> same_uid cur' cur''" by blast
  moreover have "same_uid cur' cur" using ok step(4) by (auto simp: versions_ok_def)
  ultimately show ?case by (auto simp: same_uid_def)
qed

text \<open>
  \<open>made_from vs u\<close>: a status to be written was made from a version in \<open>vs\<close>; the events of a pass are.
\<close>

definition made_from :: "agent_run set \<Rightarrow> agent_run \<Rightarrow> bool" where
  "made_from vs u \<longleftrightarrow> (\<exists>v \<in> vs. version u = version v \<and>
     (st_BackendRunID (run_Status v) \<noteq> [] \<longrightarrow> st_BackendRunID (run_Status u) = st_BackendRunID (run_Status v)))"

lemma made_from_mono: "made_from vs u \<Longrightarrow> made_from (insert v vs) u"
  by (auto simp: made_from_def)

lemma server_step_id:
  assumes "server_step vs cur e cur'" and "versions_ok vs cur" and kept: "id_kept vs cur"
    and made: "\<And>u r. e = EvStatus u r \<Longrightarrow> made_from vs u"
  shows "id_kept (insert cur' vs) cur'"
  using assms(1)
proof cases
  case (status_stored u r)
  from made [OF status_stored(1)] obtain v where v: "v \<in> vs" "version u = version v"
    "st_BackendRunID (run_Status v) \<noteq> [] \<longrightarrow> st_BackendRunID (run_Status u) = st_BackendRunID (run_Status v)"
    by (auto simp: made_from_def)
  with status_stored(2) assms(2) have "v = cur" by (auto simp: versions_ok_def inj_on_def)
  with v(3) status_stored(3) show ?thesis by (intro id_kept_insert [OF kept]) (simp add: status_kept_def)
qed (use kept in \<open>auto intro: id_kept_insert\<close>)

lemma server_steps_id:
  assumes "server_steps vs cur es vs' cur'" and "versions_ok vs cur" and "id_kept vs cur"
    and "\<And>u r. EvStatus u r \<in> set es \<Longrightarrow> made_from vs u"
  shows "id_kept vs' cur'"
  using assms
proof (induction rule: server_steps.induct)
  case (step vs cur e cur' es vs' cur'')
  show ?case
  proof (rule step.IH)
    show "versions_ok (insert cur' vs) cur'" by (rule server_step_versions [OF step(1,4)])
    show "id_kept (insert cur' vs) cur'" by (rule server_step_id [OF step(1,4,5)]) (use step(6) in auto)
    show "made_from (insert cur' vs) u" if "EvStatus u r \<in> set es" for u r
      using step(6) [of u r] that made_from_mono by simp
  qed
qed simp

text \<open>Every submission of a life was made from a version that had no backend id, and carries its key.\<close>

definition submitted_from :: "agent_run set \<Rightarrow> run_submission \<Rightarrow> bool" where
  "submitted_from vs s \<longleftrightarrow> (\<exists>v \<in> vs. st_BackendRunID (run_Status v) = [] \<and> rs_IdempotencyKey s = run_key v)"

lemma submitted_from_mono: "submitted_from vs s \<Longrightarrow> vs \<subseteq> vs' \<Longrightarrow> submitted_from vs' s"
  by (auto simp: submitted_from_def)

lemma lifecycle_ok:
  "lifecycle P answers cur vs h \<Longrightarrow> versions_ok vs cur \<and> (\<forall>s r. EvSubmit s r \<in> set h \<longrightarrow> submitted_from vs s)"
proof (induction rule: lifecycle.induct)
  case (created run)
  then show ?case by (simp add: versions_ok_def same_uid_def)
next
  case (edited run vs h run')
  then show ?case using versions_ok_insert [of vs run run'] submitted_from_mono [of vs _ "insert run' vs"] by blast
next
  case (passed run vs h seen T refs es res vs' run')
  note new = server_steps_versions [OF passed(4) conjunct1 [OF passed(5)]]
  have "submitted_from vs s" if "EvSubmit s r \<in> set es" for s r
    using run_pass_submission [OF passed(3) that] passed(2) by (auto simp: submitted_from_def)
  then have "submitted_from vs' s" if "EvSubmit s r \<in> set (h @ es)" for s r
    using that passed(5) submitted_from_mono [OF _ conjunct1 [OF conjunct2 [OF new]]] by auto
  with new show ?case by blast
qed

lemma lifecycle_id: "lifecycle P answers cur vs h \<Longrightarrow> answers_match h \<Longrightarrow> id_kept vs cur"
proof (induction rule: lifecycle.induct)
  case (created run)
  then show ?case by (simp add: id_kept_def)
next
  case (edited run vs h run')
  then show ?case by (intro id_kept_insert) simp_all
next
  case (passed run vs h seen T refs es res vs' run')
  have "made_from vs u" if "EvStatus u r \<in> set es" for u r
    using run_pass_origin [OF passed(3) that] passed(2,6) by (auto simp: made_from_def version_def)
  with passed(4-6) lifecycle_ok [OF passed(1)] show ?case by (intro server_steps_id [OF passed(4)]) simp_all
qed

subsection \<open>Properties\<close>

text \<open>
  C16. The key of a submission is that of the run: every submission a run ever causes, over all passes, stale
  reads, lost answers and edits, carries the UID of the run or the \<open>spec.idempotencyKey\<close> of a version that had
  no backend id, so that all of them carry one key unless a user edits \<open>spec.idempotencyKey\<close>.
\<close>

theorem one_idempotency_key:
  assumes "lifecycle P answers run vs h" and "EvSubmit s r \<in> set h"
  shows "(\<exists>v \<in> vs. st_BackendRunID (run_Status v) = [] \<and>
       rs_IdempotencyKey s = (if ars_IdempotencyKey (run_Spec v) = [] then om_UID (run_Meta run) else ars_IdempotencyKey (run_Spec v))) \<and>
     ((\<forall>v \<in> vs. ars_IdempotencyKey (run_Spec v) = ars_IdempotencyKey (run_Spec run)) \<longrightarrow> rs_IdempotencyKey s = run_key run)"
proof -
  from lifecycle_ok [OF assms(1)] assms(2) obtain v where v: "v \<in> vs" "st_BackendRunID (run_Status v) = []"
    "rs_IdempotencyKey s = run_key v" "om_UID (run_Meta v) = om_UID (run_Meta run)"
    by (fastforce simp: submitted_from_def versions_ok_def same_uid_def)
  then show ?thesis by (auto simp: run_key_def intro!: bexI [of _ v])
qed

text \<open>A first pass whose status write is stored as version 1.\<close>

definition stored_run :: agent_run where
  "stored_run =
     (let u = accepted_run sample_platform sample_clock sample_run (control_run ''b1'' ''queued'')
      in u\<lparr>run_Meta := (run_Meta u)\<lparr>om_ResourceVersion := 1\<rparr>\<rparr>)"

definition first_events :: "event list" where
  "first_events =
     [EvSubmit (submission_of sample_run sample_tenant sample_agent) (Inr (control_run ''b1'' ''queued'')),
      EvStatus (accepted_run sample_platform sample_clock sample_run (control_run ''b1'' ''queued'')) (Inr stored_run)]"

lemma accepted_backend_id:
  "st_BackendRunID (run_Status (accepted_run P T run control)) =
     projected_id (with_status run (\<lambda>s. s\<lparr>st_BackendRunID := cpr_ID control\<rparr>)) control"
  by (simp add: accepted_run_def Let_def projected_id_def)

lemma stored_run_simps [simp]:
  "version stored_run = 1" "same_uid sample_run stored_run"
  "status_kept (accepted_run sample_platform sample_clock sample_run (control_run ''b1'' ''queued'')) stored_run"
  "st_BackendRunID (run_Status stored_run) = ''b1''"
proof -
  show "version stored_run = 1" by (simp add: stored_run_def version_def Let_def)
  show "same_uid sample_run stored_run" by (simp add: stored_run_def same_uid_def Let_def)
  show "status_kept (accepted_run sample_platform sample_clock sample_run (control_run ''b1'' ''queued'')) stored_run"
    by (simp add: stored_run_def status_kept_def Let_def)
  show "st_BackendRunID (run_Status stored_run) = ''b1''"
    by (simp add: stored_run_def accepted_backend_id projected_id_def Let_def)
qed

lemma sample_version [simp]: "version sample_run = 0"
  by (simp add: version_def) (simp add: sample_meta_def)

lemma sample_life:
  "lifecycle sample_platform (\<lambda>_ _. True) stored_run {stored_run, sample_run} first_events"
proof -
  have born: "lifecycle sample_platform (\<lambda>_ _. True) sample_run {sample_run} []"
    by (rule created) simp
  have pass: "run_pass sample_platform sample_clock (\<lambda>_ _. True) sample_run (Inr (sample_tenant, sample_agent))
      first_events (write_result (requeue_after pollInterval) (Inr stored_run))"
    unfolding first_events_def by (rule resolved) (auto intro: submit)
  have "server_steps {sample_run} sample_run first_events {stored_run, sample_run} stored_run"
    unfolding first_events_def
  proof (rule step [OF gateway])
    have "server_step {sample_run} sample_run
        (EvStatus (accepted_run sample_platform sample_clock sample_run (control_run ''b1'' ''queued''))
          (Inr stored_run)) stored_run"
      by (rule status_stored) (simp_all add: version_def, simp_all add: stored_run_def sample_meta_def Let_def)
    from step [OF this no_event] show "server_steps (insert sample_run {sample_run}) sample_run
        [EvStatus (accepted_run sample_platform sample_clock sample_run (control_run ''b1'' ''queued''))
          (Inr stored_run)] {stored_run, sample_run} stored_run"
      by simp
  qed simp
  from passed [OF born _ pass this] show ?thesis by simp
qed

theorem one_idempotency_key_witness:
  "rs_IdempotencyKey (submission_of sample_run sample_tenant sample_agent) = run_key stored_run"
proof -
  have "ars_IdempotencyKey (run_Spec stored_run) = ars_IdempotencyKey (run_Spec sample_run)"
    by (simp add: stored_run_def accepted_run_def Let_def)
  then have one: "\<forall>v \<in> {stored_run, sample_run}. ars_IdempotencyKey (run_Spec v) = ars_IdempotencyKey (run_Spec stored_run)"
    by simp
  have "EvSubmit (submission_of sample_run sample_tenant sample_agent) (Inr (control_run ''b1'' ''queued'')) \<in> set first_events"
    by (simp add: first_events_def)
  from one_idempotency_key [OF sample_life this] one show ?thesis by blast
qed

text \<open>
  An edit of the key submits a second time under a new key: the status that records the first backend run is
  refused, the user edits \<open>spec.idempotencyKey\<close>, and the next pass submits again.
\<close>

definition rekeyed_run :: agent_run where
  "rekeyed_run = sample_run\<lparr>run_Meta := (run_Meta sample_run)\<lparr>om_ResourceVersion := 1\<rparr>,
     run_Spec := (run_Spec sample_run)\<lparr>ars_IdempotencyKey := ''another''\<rparr>\<rparr>"

definition refused_events :: "agent_run \<Rightarrow> event list" where
  "refused_events run =
     [EvSubmit (submission_of run sample_tenant sample_agent) (Inr (control_run ''b2'' ''queued'')),
      EvStatus (accepted_run sample_platform sample_clock run (control_run ''b2'' ''queued'')) (Inl not_found)]"

lemma refused_pass:
  assumes "run \<in> {sample_run, rekeyed_run}"
  shows "run_pass sample_platform sample_clock (\<lambda>_ _. True) run (Inr (sample_tenant, sample_agent)) (refused_events run)
      (write_result (requeue_after pollInterval) (Inl not_found))"
  unfolding refused_events_def
  by (rule resolved) (use assms in \<open>auto simp: rekeyed_run_def intro: submit\<close>)

lemma refused_steps:
  assumes "cur \<in> vs"
  shows "server_steps vs cur (refused_events run) vs cur"
proof -
  have "server_steps vs cur [EvStatus u (Inl not_found)] vs cur" for u
    using step [OF status_refused no_event] assms by (metis insert_absorb)
  then show ?thesis
    unfolding refused_events_def using step [OF gateway] assms by (metis gateway_event.simps(1) insert_absorb)
qed

lemma edited_key_submits_again:
  "\<exists>h s s' c c'. lifecycle sample_platform (\<lambda>_ _. True) rekeyed_run {rekeyed_run, sample_run} h \<and>
     EvSubmit s (Inr c) \<in> set h \<and> EvSubmit s' (Inr c') \<in> set h \<and> rs_IdempotencyKey s \<noteq> rs_IdempotencyKey s'"
proof -
  have rekeyed: "run_Status rekeyed_run = run_Status sample_run" "same_uid sample_run rekeyed_run" "version rekeyed_run = 1"
    by (simp_all add: rekeyed_run_def same_uid_def version_def)
  have "lifecycle sample_platform (\<lambda>_ _. True) sample_run {sample_run} []" by (rule created) simp
  from passed [OF this _ refused_pass refused_steps]
  have "lifecycle sample_platform (\<lambda>_ _. True) sample_run {sample_run} (refused_events sample_run)" by simp
  then have "lifecycle sample_platform (\<lambda>_ _. True) rekeyed_run {rekeyed_run, sample_run} (refused_events sample_run)"
    by (rule edited) (use rekeyed in simp_all)
  from passed [OF this _ refused_pass [of rekeyed_run] refused_steps]
  have life: "lifecycle sample_platform (\<lambda>_ _. True) rekeyed_run {rekeyed_run, sample_run}
      (refused_events sample_run @ refused_events rekeyed_run)" by simp
  have "rs_IdempotencyKey (submission_of run sample_tenant sample_agent) = run_key run" for run
    by (simp add: submission_of_def run_key_def Let_def)
  moreover have "run_key sample_run \<noteq> run_key rekeyed_run"
    by (simp add: run_key_def rekeyed_run_def) (simp add: sample_run_def sample_meta_def)
  ultimately show ?thesis
    by (intro exI [of _ "refused_events sample_run @ refused_events rekeyed_run"] conjI life
          exI [of _ "submission_of sample_run sample_tenant sample_agent"]
          exI [of _ "submission_of rekeyed_run sample_tenant sample_agent"] exI [of _ "control_run ''b2'' ''queued''"])
       (simp_all add: refused_events_def)
qed

text \<open>
  C17. The recorded backend id stays. As long as the backend answers about the run it was asked for, the id that
  any version of the run has recorded is the id of the current version, before and after every pass, whatever was
  read from stale caches, lost or edited in between. A pass that reads a version with an id submits nothing: only
  one that reads an outdated version from before the id was recorded submits again, and what it is answered does
  not replace the id.
\<close>

theorem recorded_run_not_resubmitted:
  assumes "lifecycle P answers run vs h" and "answers_match (h @ es)" and "v \<in> vs" and "st_BackendRunID (run_Status v) \<noteq> []"
    and "seen \<in> vs" and "run_pass P T answers seen refs es res" and "server_steps vs run es vs' run'"
  shows "st_BackendRunID (run_Status run) = st_BackendRunID (run_Status v) \<and>
     st_BackendRunID (run_Status run') = st_BackendRunID (run_Status v) \<and>
     (EvSubmit s r \<in> set es \<longrightarrow> st_BackendRunID (run_Status seen) = [] \<and> version seen \<noteq> version run)"
proof -
  have now: "st_BackendRunID (run_Status run) = st_BackendRunID (run_Status v)"
    using lifecycle_id [OF assms(1)] assms(2-4) by (simp add: id_kept_def)
  have "vs \<subseteq> vs'" using server_steps_versions [OF assms(7)] lifecycle_ok [OF assms(1)] by blast
  moreover have "lifecycle P answers run' vs' (h @ es)" by (rule passed [OF assms(1,5-7)])
  ultimately have after: "st_BackendRunID (run_Status run') = st_BackendRunID (run_Status v)"
    using lifecycle_id assms(2-4) by (auto simp: id_kept_def)
  have "st_BackendRunID (run_Status seen) = [] \<and> version seen \<noteq> version run" if "EvSubmit s r \<in> set es"
  proof -
    from run_pass_submission [OF assms(6) that] have new: "st_BackendRunID (run_Status seen) = []" ..
    with now assms(4) have "seen \<noteq> run" by auto
    with lifecycle_ok [OF assms(1)] assms(5) have "version seen \<noteq> version run" by (auto simp: versions_ok_def inj_on_def)
    with new show ?thesis ..
  qed
  with now after show ?thesis by blast
qed

text \<open>A pass on the outdated first version submits again, and the stored id stays.\<close>

theorem recorded_run_not_resubmitted_witness:
  "st_BackendRunID (run_Status sample_run) = [] \<and> version sample_run \<noteq> version stored_run \<and>
   st_BackendRunID (run_Status stored_run) = ''b1''"
proof -
  have "answers_match (first_events @ refused_events sample_run)"
    by (simp add: answers_match_def first_events_def refused_events_def)
  moreover have "EvSubmit (submission_of sample_run sample_tenant sample_agent) (Inr (control_run ''b2'' ''queued'')) \<in>
      set (refused_events sample_run)"
    by (simp add: refused_events_def)
  ultimately show ?thesis
    using recorded_run_not_resubmitted [OF sample_life, of "refused_events sample_run" stored_run sample_run, OF _ _ _ _
        refused_pass refused_steps] by simp
qed

text \<open>
  C37. A lost status write can orphan the backend run: when the backend accepted a submission but the
  status that records its id was not stored, and the run is then deleted, the pass on the deleted run
  takes the finalizer off at once and never asks the backend to cancel.
\<close>

theorem lost_acceptance_orphans_backend_run:
  assumes "fst (kGetAgentRun K request w) = Inr run"
    and "EvSubmit s (Inr control) \<in> set (pass_events P K G T request w)"
    and "fst (kGetAgentRun K' request w') = Inr run'" and "run_Status run' = run_Status run"
    and "\<not> time_is_zero (om_DeletionTimestamp (run_Meta run'))"
    and "contains_finalizer P (om_Finalizers (run_Meta run')) runFinalizer"
  shows "\<exists>r. pass_events P K' G' T' request w' = [EvUpdate (without_finalizer P run') r]"
proof -
  have new: "st_BackendRunID (run_Status run') = []"
    using run_pass_submission [OF read_pass [OF assms(1)] assms(2)] assms(4) by simp
  from read_pass [OF assms(3), of P T' G'] show ?thesis
  proof cases
    case deleted
    from deleted(2) show ?thesis by cases (use new assms(6) in auto)
  qed (use assms(5) in auto)
qed

definition deleted_new_run :: agent_run where
  "deleted_new_run = sample_run\<lparr>run_Meta := (run_Meta sample_run)\<lparr>om_DeletionTimestamp := Some (epoch 0)\<rparr>\<rparr>"

theorem lost_acceptance_orphans_backend_run_witness:
  "\<exists>r. pass_events sample_platform (run_kube deleted_new_run sample_agent)
     (fixed_gateway (Inr (control_run ''b1'' ''cancelled''))) sample_clock sample_key () =
     [EvUpdate (without_finalizer sample_platform deleted_new_run) r]"
  by (rule lost_acceptance_orphans_backend_run [of "run_kube sample_run sample_agent" sample_key "()" sample_run
        "submission_of sample_run sample_tenant sample_agent" "control_run ''b1'' ''queued''" sample_platform
        "fixed_gateway (Inr (control_run ''b1'' ''queued''))" sample_clock])
     (simp_all add: sample_submission deleted_new_run_def time_is_zero_def zero_time_def second_def)

end
