(* ===== verification/Run_Convergence.thy ===== *)
theory Run_Convergence
  imports Run_Lifecycle
begin

text \<open>
  Progress of one run over many passes. In a cluster that serves the run, its object can be read and
  written, its references stay valid, and the backend accepts it and finishes it after some number of
  questions. There the passes of \<open>Reconcile\<close> bring the run to a terminal phase within a bound, and keep
  it there.
\<close>

subsection \<open>Passes in a row\<close>

fun passes ::
  "platform \<Rightarrow> 'w kube \<Rightarrow> 'w gateway \<Rightarrow> (nat \<Rightarrow> clock) \<Rightarrow> object_key \<Rightarrow> nat \<Rightarrow> 'w \<Rightarrow> 'w" where
  "passes P K G T request 0 w = w"
| "passes P K G T request (Suc n) w = snd (Reconcile P K G (T n) request (passes P K G T request n w))"

text \<open>
  The cluster serves the run: \<open>stored\<close> is its present object, \<open>work\<close> bounds how often the backend will
  still answer that it is working on it; for the writes it is any part of the world they leave alone.
\<close>

definition stores_object :: "'w kube \<Rightarrow> ('w \<Rightarrow> agent_run) \<Rightarrow> ('w \<Rightarrow> 'b) \<Rightarrow> bool" where
  "stores_object K stored work \<longleftrightarrow>
     (\<forall>u w. run_Spec u = run_Spec (stored w) \<longrightarrow>
       (\<exists>w'. kUpdateAgentRun K u w = (Inr (stored w'), w') \<and> work w' = work w \<and>
        om_Finalizers (run_Meta (stored w')) = om_Finalizers (run_Meta u) \<and>
        om_DeletionTimestamp (run_Meta (stored w')) = om_DeletionTimestamp (run_Meta (stored w)) \<and>
        run_Spec (stored w') = run_Spec (stored w) \<and> run_Status (stored w') = run_Status (stored w)))"

definition stores_status :: "'w kube \<Rightarrow> ('w \<Rightarrow> agent_run) \<Rightarrow> ('w \<Rightarrow> 'b) \<Rightarrow> bool" where
  "stores_status K stored work \<longleftrightarrow>
     (\<forall>u w. \<exists>w'. kUpdateAgentRunStatus K u w = (Inr (stored w'), w') \<and> work w' = work w \<and>
        run_Spec (stored w') = run_Spec (stored w) \<and> status_kept u (stored w') \<and>
        om_Finalizers (run_Meta (stored w')) = om_Finalizers (run_Meta (stored w)) \<and>
        om_DeletionTimestamp (run_Meta (stored w')) = om_DeletionTimestamp (run_Meta (stored w)))"

definition accepts_submissions :: "'w gateway \<Rightarrow> ('w \<Rightarrow> agent_run) \<Rightarrow> ('w \<Rightarrow> nat) \<Rightarrow> bool" where
  "accepts_submissions G stored work \<longleftrightarrow>
     (\<forall>s w. \<exists>control w'. gwSubmit G s w = (Inr control, w') \<and> cpr_ID control \<noteq> [] \<and>
        stored w' = stored w \<and> work w' \<le> work w)"

definition answers_polls :: "'w gateway \<Rightarrow> ('w \<Rightarrow> agent_run) \<Rightarrow> ('w \<Rightarrow> nat) \<Rightarrow> bool" where
  "answers_polls G stored work \<longleftrightarrow>
     (\<forall>t i w. \<exists>control w'. gwGet G t i w = (Inr control, w') \<and> stored w' = stored w \<and>
        (isTerminal (projectPhase (cpr_Status control)) \<or> work w' < work w))"

definition serves ::
  "platform \<Rightarrow> 'w kube \<Rightarrow> 'w gateway \<Rightarrow> object_key \<Rightarrow> ('w \<Rightarrow> agent_run) \<Rightarrow> ('w \<Rightarrow> nat) \<Rightarrow> bool" where
  "serves P K G request stored work \<longleftrightarrow>
     (\<forall>w. kGetAgentRun K request w = (Inr (stored w), w)) \<and>
     (\<forall>w. \<exists>tenant agent. validateReferences P K (stored w) w = (Inr (tenant, agent), w)) \<and>
     stores_object K stored work \<and> stores_status K stored work \<and>
     accepts_submissions G stored work \<and> answers_polls G stored work"

subsection \<open>One pass\<close>

text \<open>A live run that is not cancelled, does not expire, and was submitted if it is finished.\<close>

definition under_way :: "agent_run \<Rightarrow> bool" where
  "under_way run \<longleftrightarrow>
     time_is_zero (om_DeletionTimestamp (run_Meta run)) \<and> \<not> ars_Cancel (run_Spec run) \<and>
     ars_TTLSecondsAfterFinished (run_Spec run) = 0 \<and>
     (isTerminal (st_Phase (run_Status run)) \<longrightarrow> st_BackendRunID (run_Status run) \<noteq> [])"

definition run_finished :: "agent_run \<Rightarrow> bool" where
  "run_finished run \<longleftrightarrow> isTerminal (st_Phase (run_Status run))"

text \<open>Passes a run still needs: the finalizer, the submission, the answers of the backend.\<close>

definition passes_left :: "platform \<Rightarrow> agent_run \<Rightarrow> nat \<Rightarrow> nat" where
  "passes_left P run n =
     (if contains_finalizer P (om_Finalizers (run_Meta run)) runFinalizer then 0 else 1) +
     (if st_BackendRunID (run_Status run) = [] then 1 else 0) + n"

lemma sanitize_frame:
  "run_Spec (snd (sanitizeTerminalStatus P T run)) = run_Spec run"
  "run_Meta (snd (sanitizeTerminalStatus P T run)) = run_Meta run"
  "st_Phase (run_Status (snd (sanitizeTerminalStatus P T run))) = st_Phase (run_Status run)"
  "st_BackendRunID (run_Status (snd (sanitizeTerminalStatus P T run))) = st_BackendRunID (run_Status run)"
  by (simp_all add: sanitizeTerminalStatus_def Let_def markControlPlaneReady_def)

lemma expiry_without_ttl:
  "ars_TTLSecondsAfterFinished (run_Spec run) = 0 \<Longrightarrow> reconcileTTL K T run w = (Inr empty_result, w)"
  by (simp add: reconcileTTL_def)

text \<open>What a status write leaves: the run still under way, with the phase and the backend id written.\<close>

lemma status_write:
  assumes "stores_status K stored work"
  obtains w' where "kUpdateAgentRunStatus K u w = (Inr (stored w'), w')" and "work w' = work w"
    and "run_Spec (stored w') = run_Spec (stored w)"
    and "st_Phase (run_Status (stored w')) = st_Phase (run_Status u)"
    and "st_BackendRunID (run_Status (stored w')) = st_BackendRunID (run_Status u)"
    and "om_Finalizers (run_Meta (stored w')) = om_Finalizers (run_Meta (stored w))"
    and "om_DeletionTimestamp (run_Meta (stored w')) = om_DeletionTimestamp (run_Meta (stored w))"
  using assms unfolding stores_status_def status_kept_def by metis

lemma terminal_pass:
  assumes "stores_status K stored work" and "under_way (stored w)"
    and "run_finished (stored w)"
  shows "\<exists>w'. snd (reconcileTerminal P K T (stored w) w) = w' \<and> under_way (stored w') \<and> run_finished (stored w') \<and>
     work w' = work w \<and> om_Finalizers (run_Meta (stored w')) = om_Finalizers (run_Meta (stored w))"
proof -
  obtain changed u where u: "sanitizeTerminalStatus P T (stored w) = (changed, u)" by fastforce
  from sanitize_frame [of P T "stored w"] u have frame:
    "run_Spec u = run_Spec (stored w)" "st_Phase (run_Status u) = st_Phase (run_Status (stored w))"
    "st_BackendRunID (run_Status u) = st_BackendRunID (run_Status (stored w))" by simp_all
  obtain w' where w': "kUpdateAgentRunStatus K u w = (Inr (stored w'), w')" "work w' = work w"
    "run_Spec (stored w') = run_Spec (stored w)"
    "st_Phase (run_Status (stored w')) = st_Phase (run_Status u)"
    "st_BackendRunID (run_Status (stored w')) = st_BackendRunID (run_Status u)"
    "om_Finalizers (run_Meta (stored w')) = om_Finalizers (run_Meta (stored w))"
    "om_DeletionTimestamp (run_Meta (stored w')) = om_DeletionTimestamp (run_Meta (stored w))"
    by (rule status_write [OF assms(1)])
  show ?thesis
  proof (cases changed)
    case True
    then have "snd (reconcileTerminal P K T (stored w) w) = w'"
      using assms(2) by (simp add: reconcileTerminal_def u w'(1) expiry_without_ttl w'(3) under_way_def)
    with w' frame assms(2,3) show ?thesis by (simp add: under_way_def run_finished_def)
  next
    case False
    then have "snd (reconcileTerminal P K T (stored w) w) = w"
      using assms(2) by (simp add: reconcileTerminal_def u expiry_without_ttl frame(1) under_way_def)
    with assms(2,3) show ?thesis by simp
  qed
qed

text \<open>A pass advances when the run stays under way and is finished or needs fewer passes than before.\<close>

definition advances :: "platform \<Rightarrow> ('w \<Rightarrow> agent_run) \<Rightarrow> ('w \<Rightarrow> nat) \<Rightarrow> 'w \<Rightarrow> 'w \<Rightarrow> bool" where
  "advances P stored work w w' \<longleftrightarrow> under_way (stored w') \<and>
     (run_finished (stored w') \<or>
      \<not> run_finished (stored w) \<and>
      passes_left P (stored w') (work w') < passes_left P (stored w) (work w))"

lemma submit_pass:
  assumes "stores_status K stored work" and "accepts_submissions G stored work" and "under_way (stored w)"
    and "st_BackendRunID (run_Status (stored w)) = []"
  shows "advances P stored work w (snd (reconcileSubmit P K G T (stored w) tenant agent w))"
proof -
  from assms(2) obtain control w1 where
    submit: "gwSubmit G (submission_of (stored w) tenant agent) w = (Inr control, w1)"
    and w1: "cpr_ID control \<noteq> []" "stored w1 = stored w" "work w1 \<le> work w"
    unfolding accepts_submissions_def by metis
  let ?u = "accepted_run P T (stored w) control"
  obtain w' where w': "kUpdateAgentRunStatus K ?u w1 = (Inr (stored w'), w')" "work w' = work w1"
    "run_Spec (stored w') = run_Spec (stored w1)"
    "st_BackendRunID (run_Status (stored w')) = st_BackendRunID (run_Status ?u)"
    "om_Finalizers (run_Meta (stored w')) = om_Finalizers (run_Meta (stored w1))"
    "om_DeletionTimestamp (run_Meta (stored w')) = om_DeletionTimestamp (run_Meta (stored w1))"
    by (rule status_write [OF assms(1)])
  have "st_BackendRunID (run_Status (stored w')) \<noteq> []"
    using w1(1) by (simp add: w'(4) accepted_backend_id projected_id_def)
  moreover have "\<not> run_finished (stored w)"
    using assms(3,4) by (simp add: under_way_def run_finished_def)
  ultimately show ?thesis
    using assms(3,4) w1 w'
    by (simp add: reconcileSubmit_def submit update_status_then_def advances_def under_way_def passes_left_def)
qed

lemma poll_pass:
  assumes "stores_status K stored work" and "answers_polls G stored work" and "under_way (stored w)"
    and "st_BackendRunID (run_Status (stored w)) \<noteq> []" and "\<not> run_finished (stored w)"
  shows "advances P stored work w (snd (reconcilePoll P K G T (stored w) tenant w))"
proof -
  let ?id = "st_BackendRunID (run_Status (stored w))"
  from assms(2) obtain control w1 where poll: "gwGet G tenant ?id w = (Inr control, w1)"
    and w1: "stored w1 = stored w" "isTerminal (projectPhase (cpr_Status control)) \<or> work w1 < work w"
    unfolding answers_polls_def by metis
  let ?u = "polled_run P T (stored w) control"
  obtain w' where w': "kUpdateAgentRunStatus K ?u w1 = (Inr (stored w'), w')" "work w' = work w1"
    "run_Spec (stored w') = run_Spec (stored w1)"
    "st_Phase (run_Status (stored w')) = st_Phase (run_Status ?u)"
    "st_BackendRunID (run_Status (stored w')) = st_BackendRunID (run_Status ?u)"
    "om_Finalizers (run_Meta (stored w')) = om_Finalizers (run_Meta (stored w1))"
    "om_DeletionTimestamp (run_Meta (stored w')) = om_DeletionTimestamp (run_Meta (stored w1))"
    by (rule status_write [OF assms(1)])
  have id: "st_BackendRunID (run_Status ?u) \<noteq> []"
    using assms(4) by (simp add: projected_id_nonempty)
  show ?thesis
  proof (cases "run_Status (stored w) = run_Status ?u")
    case True
    then have "\<not> isTerminal (projectPhase (cpr_Status control))"
      using assms(5) polled_fields(1) [of P T "stored w" control] by (simp add: run_finished_def)
    with w1 assms(3-5) show ?thesis
      by (simp add: reconcilePoll_def poll True [symmetric] finish_or_poll_def run_finished_def advances_def
          passes_left_def)
  next
    case False
    then have "snd (reconcilePoll P K G T (stored w) tenant w) = w'"
      using assms(3)
      by (simp add: reconcilePoll_def poll Let_def w'(1) finish_or_poll_def expiry_without_ttl under_way_def
          w'(3) w1(1))
    with w1 w' id assms(3-5) show ?thesis
      by (auto simp: advances_def under_way_def run_finished_def passes_left_def)
  qed
qed

lemma with_finalizer_spec: "run_Spec (with_finalizer P run) = run_Spec run"
  by (simp add: with_finalizer_def)

lemma adopting_pass:
  assumes "finalizer_law P" and "stores_object K stored work" and "under_way (stored w)"
    and "\<not> contains_finalizer P (om_Finalizers (run_Meta (stored w))) runFinalizer"
    and "kUpdateAgentRun K (with_finalizer P (stored w)) w = (r, w')"
  shows "advances P stored work w w'"
proof -
  let ?u = "with_finalizer P (stored w)"
  from assms(2) obtain w1 where "kUpdateAgentRun K ?u w = (Inr (stored w1), w1)"
    and w1: "work w1 = work w" "om_Finalizers (run_Meta (stored w1)) = om_Finalizers (run_Meta ?u)"
      "om_DeletionTimestamp (run_Meta (stored w1)) = om_DeletionTimestamp (run_Meta (stored w))"
      "run_Spec (stored w1) = run_Spec (stored w)" "run_Status (stored w1) = run_Status (stored w)"
    unfolding stores_object_def by (metis with_finalizer_spec)
  with assms(5) have w': "w' = w1" by simp
  have "contains_finalizer P (om_Finalizers (run_Meta (stored w'))) runFinalizer"
    using assms(1) by (simp add: w' w1(2) with_finalizer_def finalizer_law_def)
  with assms(3,4) w1 show ?thesis
    by (simp add: w' advances_def under_way_def run_finished_def passes_left_def with_finalizer_def)
qed

text \<open>Every pass on a run that is under way advances.\<close>

lemma pass_advances:
  assumes "serves P K G request stored work" and "finalizer_law P" and "under_way (stored w)"
  shows "advances P stored work w (snd (Reconcile P K G T request w))"
proof -
  from assms(1) have laws: "stores_object K stored work" "stores_status K stored work"
    "accepts_submissions G stored work" "answers_polls G stored work"
    by (auto simp: serves_def)
  from assms(1) obtain tenant agent where refs: "validateReferences P K (stored w) w = (Inr (tenant, agent), w)"
    unfolding serves_def by blast
  from assms(1) have get: "kGetAgentRun K request w = (Inr (stored w), w)" by (simp add: serves_def)
  from assms(3) have live: "time_is_zero (om_DeletionTimestamp (run_Meta (stored w)))" "\<not> ars_Cancel (run_Spec (stored w))"
    by (simp_all add: under_way_def)
  show ?thesis
  proof (cases "contains_finalizer P (om_Finalizers (run_Meta (stored w))) runFinalizer")
    case False
    obtain r w' where w': "kUpdateAgentRun K (with_finalizer P (stored w)) w = (r, w')" by fastforce
    have "snd (Reconcile P K G T request w) = w'"
      using False live by (simp add: Reconcile_def get w' split: sum.split)
    with adopting_pass [OF assms(2) laws(1) assms(3) False w'] show ?thesis by simp
  next
    case True
    then have pass: "Reconcile P K G T request w = dispatch P K G T (stored w) tenant agent w"
      using live by (simp add: Reconcile_def get refs)
    consider (new) "st_BackendRunID (run_Status (stored w)) = []"
      | (finished) "st_BackendRunID (run_Status (stored w)) \<noteq> []" "run_finished (stored w)"
      | (working) "st_BackendRunID (run_Status (stored w)) \<noteq> []" "\<not> run_finished (stored w)"
      by blast
    then show ?thesis
    proof cases
      case new
      with submit_pass [OF laws(2,3) assms(3)] live show ?thesis by (simp add: pass dispatch_def)
    next
      case finished
      with terminal_pass [OF laws(2) assms(3)] live show ?thesis
        by (auto simp: pass dispatch_def run_finished_def advances_def)
    next
      case working
      with poll_pass [OF laws(2,4) assms(3)] live show ?thesis
        by (simp add: pass dispatch_def run_finished_def)
    qed
  qed
qed

lemma passes_under_way:
  assumes "serves P K G request stored work" and "finalizer_law P" and "under_way (stored w)"
  shows "under_way (stored (passes P K G T request n w))"
  using pass_advances [OF assms(1,2)] by (induction n) (simp_all add: assms(3) advances_def)

lemma passes_decrease:
  assumes "serves P K G request stored work" and "finalizer_law P" and "under_way (stored w)"
    and "\<forall>m \<le> n. \<not> run_finished (stored (passes P K G T request m w))"
  shows "passes_left P (stored (passes P K G T request n w)) (work (passes P K G T request n w)) + n
     \<le> passes_left P (stored w) (work w)"
  using assms(4)
proof (induction n)
  case (Suc n)
  from pass_advances [OF assms(1,2) passes_under_way [OF assms(1-3)]] Suc.prems
  have "passes_left P (stored (passes P K G T request (Suc n) w)) (work (passes P K G T request (Suc n) w))
      < passes_left P (stored (passes P K G T request n w)) (work (passes P K G T request n w))"
    unfolding passes.simps(2) advances_def by (metis le_refl passes.simps(2))
  with Suc show ?case by simp
qed simp

lemma passes_finished:
  assumes "serves P K G request stored work" and "finalizer_law P" and "under_way (stored w)"
    and "run_finished (stored (passes P K G T request n w))" and "n \<le> m"
  shows "run_finished (stored (passes P K G T request m w))"
  using assms(5,4)
proof (induction m rule: dec_induct)
  case (step m)
  with pass_advances [OF assms(1,2) passes_under_way [OF assms(1-3), of T m], of "T m"] show ?case
    by (simp add: advances_def)
qed

subsection \<open>Properties\<close>

text \<open>
  C4. Runs finish: in a cluster that serves the run and with a backend that finishes it after at most
  \<open>work\<close> answers, at most \<open>work + 3\<close> passes bring the AgentRun to a terminal phase, from whatever stage it
  starts, and no later pass takes it out of a terminal phase.
\<close>

theorem run_finishes:
  assumes "serves P K G request stored work" and "finalizer_law P" and "under_way (stored w)"
  shows "\<exists>n \<le> work w + 3. \<forall>m \<ge> n. isTerminal (st_Phase (run_Status (stored (passes P K G T request m w))))"
proof (rule ccontr)
  assume contr: "\<not> ?thesis"
  have "\<not> run_finished (stored (passes P K G T request m w))" if "m \<le> work w + 3" for m
    using contr that passes_finished [OF assms] unfolding run_finished_def by blast
  with passes_decrease [OF assms] have
    "passes_left P (stored (passes P K G T request (work w + 3) w)) (work (passes P K G T request (work w + 3) w))
       + (work w + 3) \<le> passes_left P (stored w) (work w)"
    by blast
  then show False by (simp add: passes_left_def split: if_splits)
qed

subsection \<open>A cluster that serves a run\<close>

text \<open>The world is the stored run and the number of polls until the backend is done.\<close>

definition serving_run :: "(agent_run_status \<times> string list) \<times> 'b \<Rightarrow> agent_run" where
  "serving_run w =
     sample_run\<lparr>run_Meta := sample_meta\<lparr>om_Finalizers := snd (fst w)\<rparr>, run_Status := fst (fst w)\<rparr>"

definition serving_kube :: "((agent_run_status \<times> string list) \<times> 'b) kube" where
  "serving_kube =
     empty_kube\<lparr>kGetNamespace := (\<lambda>_ w. (Inr sample_namespace, w)),
       kGetAgentRun := (\<lambda>_ w. (Inr (serving_run w), w)), kGetAgent := (\<lambda>_ w. (Inr sample_agent, w)),
       kUpdateAgentRun := (\<lambda>r w. let w' = ((fst (fst w), om_Finalizers (run_Meta r)), snd w)
         in (Inr (serving_run w'), w')),
       kUpdateAgentRunStatus := (\<lambda>r w. let w' = ((run_Status r, snd (fst w)), snd w)
         in (Inr (serving_run w'), w'))\<rparr>"

definition serving_gateway :: "((agent_run_status \<times> string list) \<times> nat) gateway" where
  "serving_gateway =
     \<lparr>gwSubmit = (\<lambda>_ w. (Inr (control_run ''b1'' ''queued''), w)),
      gwGet = (\<lambda>_ _ w. (Inr (control_run ''b1'' (if snd w = 0 then ''succeeded'' else ''running'')),
                        (fst w, snd w - 1))),
      gwCancel = (\<lambda>_ _ w. (Inr (control_run ''b1'' ''cancelled''), w))\<rparr>"

lemma serving_run_simps [simp]:
  "run_Spec (serving_run w) = run_Spec sample_run" "run_Status (serving_run w) = fst (fst w)"
  "om_Finalizers (run_Meta (serving_run w)) = snd (fst w)" "om_DeletionTimestamp (run_Meta (serving_run w)) = None"
  "om_Labels (run_Meta (serving_run w)) = [TenantIDLabel \<mapsto> sample_tenant]"
  by (simp_all add: serving_run_def)

lemma serving_kube_simps [simp]:
  "kGetNamespace serving_kube n w = (Inr sample_namespace, w)"
  "kGetAgentRun serving_kube k w = (Inr (serving_run w), w)" "kGetAgent serving_kube k w = (Inr sample_agent, w)"
  by (simp_all add: serving_kube_def)

lemma serving_refs:
  "validateReferences sample_platform serving_kube (serving_run w) w = (Inr (sample_tenant, sample_agent), w)"
proof -
  have "tenantIDFor sample_platform serving_kube (run_Meta (serving_run w)) w = (Inr sample_tenant, w)"
    by (simp add: tenantIDFor_def Let_def)
  then show ?thesis
    by (simp add: validateReferences_def sample_dag_accepted) (simp add: sample_agent_def)
qed

lemma succeeded_word: "isTerminal (projectPhase ''succeeded'')"
  by code_simp

lemma serving_serves: "serves sample_platform serving_kube serving_gateway sample_key serving_run snd"
  unfolding serves_def
  by (simp add: serving_refs)
     (simp add: stores_object_def stores_status_def accepts_submissions_def answers_polls_def serving_kube_def
        serving_gateway_def status_kept_def Let_def succeeded_word, simp add: serving_run_def)

theorem run_finishes_witness:
  "\<exists>n \<le> 5. \<forall>m \<ge> n. isTerminal (st_Phase (run_Status (serving_run
     (passes sample_platform serving_kube serving_gateway (\<lambda>_. sample_clock) sample_key m ((new_status, []), 2)))))"
proof -
  have "under_way (serving_run ((new_status, []), 2))"
    by (simp add: under_way_def)
  from run_finishes [OF serving_serves sample_finalizer_law this, of "\<lambda>_. sample_clock"] show ?thesis
    by simp
qed

end
