(* ===== verification/Go_Heap.thy ===== *)
theory Go_Heap
  imports Api_Types
begin

text \<open>
  Go memory as far as the API types use it: slices and pointers refer to cells of a heap, so that two
  structs may share a cell and a write through one is seen through the other. The heap-level structs
  mirror the records of \<open>Api_Types\<close>, with an address, or nil, for each slice and pointer. The metadata of
  an object is a type of apimachinery: it is the parameter \<open>'m\<close>.
\<close>

subsection \<open>Structs in memory\<close>

type_synonym addr = nat
type_synonym ref = "addr option"

record dag_node_m =
  dnm_Name :: string
  dnm_Role :: string
  dnm_DependsOn :: ref
  dnm_Prompt :: string

record dag_spec_m =
  dgm_Nodes :: ref

record agent_run_spec_m =
  arm_AgentRef :: string
  arm_Input :: agent_run_input
  arm_DAG :: ref
  arm_RetryPolicy :: retry_policy
  arm_TTLSecondsAfterFinished :: int
  arm_IdempotencyKey :: string
  arm_Cancel :: bool

record node_state_m =
  nsm_Name :: string
  nsm_Phase :: agent_run_phase
  nsm_StartedAt :: ref
  nsm_FinishedAt :: ref
  nsm_ResultRef :: string

record agent_run_status_m =
  stm_Phase :: agent_run_phase
  stm_ObservedGeneration :: int
  stm_Conditions :: ref
  stm_NodeStates :: ref
  stm_Attempts :: int
  stm_StartedAt :: ref
  stm_FinishedAt :: ref
  stm_TraceID :: string
  stm_BackendRunID :: string
  stm_ResultRef :: string
  stm_ErrorCode :: string
  stm_Message :: string

record sandbox_spec_m =
  sbm_Mode :: string
  sbm_RuntimeClassName :: string
  sbm_NetworkEgress :: ref
  sbm_PersistentVolumeSizeGi :: int
  sbm_IdleTimeoutSeconds :: int

record agent_spec_m =
  asm_DisplayName :: string
  asm_ProjectID :: string
  asm_Runtime :: agent_runtime
  asm_Model :: model_ref
  asm_Tools :: ref
  asm_PolicyRef :: string
  asm_Sandbox :: sandbox_spec_m
  asm_Budget :: budget_spec

record agent_status_m =
  agm_Ready :: bool
  agm_ObservedGeneration :: int
  agm_Conditions :: ref

record policy_rule_m =
  prm_Resources :: ref
  prm_Verbs :: ref

record network_policy_m =
  npm_EgressAllowed :: ref
  npm_DefaultDenyEgress :: bool

record tenant_policy_spec_m =
  tpm_AllowedTools :: ref
  tpm_AllowedModels :: ref
  tpm_Network :: network_policy_m
  tpm_Budget :: budget
  tpm_ApprovalLevel :: string
  tpm_Rules :: ref
  tpm_PolicyVersion :: string

record tenant_policy_status_m =
  tsm_ObservedGeneration :: int
  tsm_Active :: bool
  tsm_Conditions :: ref

text \<open>\<open>TypeMeta\<close> is two strings; an object has metadata of type \<open>'m\<close>, a list has it too.\<close>

record type_meta =
  tym_Kind :: string
  tym_APIVersion :: string

record ('m, 's, 't) object_m =
  ob_TypeMeta :: type_meta
  ob_ObjectMeta :: 'm
  ob_Spec :: 's
  ob_Status :: 't

type_synonym 'm agent_m = "('m, agent_spec_m, agent_status_m) object_m"
type_synonym 'm agent_run_m = "('m, agent_run_spec_m, agent_run_status_m) object_m"
type_synonym 'm tenant_policy_m = "('m, tenant_policy_spec_m, tenant_policy_status_m) object_m"

record 'm object_list_m =
  ol_TypeMeta :: type_meta
  ol_ListMeta :: 'm
  ol_Items :: ref

subsection \<open>The heap\<close>

text \<open>A cell is the array behind a slice, or the target of a pointer.\<close>

datatype 'm cell =
    Strings "string list"
  | ToolRefs "tool_ref list"
  | Conditions "condition list"
  | Instant gotime
  | DAGNodes "dag_node_m list"
  | DAGCell dag_spec_m
  | NodeStates "node_state_m list"
  | PolicyRules "policy_rule_m list"
  | AgentItems "'m agent_m list"
  | AgentRunItems "'m agent_run_m list"
  | TenantPolicyItems "'m tenant_policy_m list"
  | Table "string \<rightharpoonup> string"

record 'm heap =
  cells :: "addr \<rightharpoonup> 'm cell"
  limit :: addr

text \<open>Addresses from \<open>limit\<close> on are free.\<close>

definition heap_ok :: "'m heap \<Rightarrow> bool" where
  "heap_ok h \<longleftrightarrow> (\<forall>a c. cells h a = Some c \<longrightarrow> a < limit h)"

definition alloc :: "'m cell \<Rightarrow> 'm heap \<Rightarrow> addr \<times> 'm heap" where
  "alloc c h = (limit h, h\<lparr>cells := (cells h)(limit h \<mapsto> c), limit := Suc (limit h)\<rparr>)"

text \<open>\<open>extends h h'\<close>: only new cells were written.\<close>

definition extends :: "'m heap \<Rightarrow> 'm heap \<Rightarrow> bool" where
  "extends h h' \<longleftrightarrow> heap_ok h' \<and> limit h \<le> limit h' \<and> (\<forall>a < limit h. cells h' a = cells h a)"

lemma extends_refl: "heap_ok h \<Longrightarrow> extends h h"
  by (simp add: extends_def)

lemma extends_trans: "extends h h1 \<Longrightarrow> extends h1 h2 \<Longrightarrow> extends h h2"
  by (auto simp: extends_def)

lemma extends_alloc: "heap_ok h \<Longrightarrow> alloc c h = (a, h') \<Longrightarrow> extends h h'"
  by (auto simp: extends_def alloc_def heap_ok_def less_Suc_eq)

lemma cells_limit: "heap_ok h \<Longrightarrow> cells h a = Some c \<Longrightarrow> a < limit h"
  by (auto simp: heap_ok_def)

subsection \<open>Copying\<close>

text \<open>
  A deep copy of a value of type \<open>'a\<close> is a step of the heap. \<open>eq h a h' b\<close> is \<open>reflect.DeepEqual\<close> of \<open>a\<close> in
  \<open>h\<close> and \<open>b\<close> in \<open>h'\<close>; it implies that the pointers of both lead to cells of the right type. \<open>reach h a\<close>
  are the addresses \<open>a\<close> leads to. What a caller of a deep copy relies on: the copy is deeply equal to the
  original, lives in new cells only, and no old cell was written. \<open>eq_frame\<close>: equality looks at reachable
  cells only.
\<close>

locale copyable =
  fixes copy :: "'a \<Rightarrow> 'm heap \<Rightarrow> 'a \<times> 'm heap"
    and reach :: "'m heap \<Rightarrow> 'a \<Rightarrow> addr set"
    and eq :: "'m heap \<Rightarrow> 'a \<Rightarrow> 'm heap \<Rightarrow> 'a \<Rightarrow> bool"
  assumes copy_fresh: "heap_ok h \<Longrightarrow> eq h a h a \<Longrightarrow> copy a h = (b, h') \<Longrightarrow>
      extends h h' \<and> eq h a h' b \<and> reach h' b \<subseteq> {limit h..<limit h'}"
    and reach_allocated: "heap_ok h \<Longrightarrow> eq h a h a \<Longrightarrow> reach h a \<subseteq> {..<limit h}"
    and eq_refl: "eq h a h' b \<Longrightarrow> eq h a h a \<and> eq h' b h' b"
    and eq_trans: "eq h a h' b \<Longrightarrow> eq h' b h'' c \<Longrightarrow> eq h a h'' c"
    and eq_sym: "eq h a h' b \<Longrightarrow> eq h' b h a"
    and eq_frame: "eq h a h a \<Longrightarrow> (\<And>x. x \<in> reach h a \<Longrightarrow> cells h' x = cells h x) \<Longrightarrow>
      eq h a h' a \<and> reach h' a = reach h a"
begin

text \<open>The original survives the copy and everything allocated later.\<close>

lemma eq_extends: "heap_ok h \<Longrightarrow> eq h a h a \<Longrightarrow> extends h h' \<Longrightarrow> eq h a h' a \<and> reach h' a = reach h a"
  using reach_allocated [of h a] by (intro eq_frame) (auto simp: extends_def subset_iff)

text \<open>
  Snapshot isolation: once a copy is taken, writes to any cell but its own leave it equal to what the
  original was when it was taken.
\<close>

lemma snapshot:
  assumes "heap_ok h" and "eq h a h a" and "copy a h = (b, h')"
    and "\<And>x. limit h \<le> x \<Longrightarrow> x < limit h' \<Longrightarrow> cells h'' x = cells h' x"
  shows "eq h a h'' b"
proof -
  from copy_fresh [OF assms(1-3)] have eq: "eq h a h' b" and fresh: "reach h' b \<subseteq> {limit h..<limit h'}"
    by auto
  have "cells h'' x = cells h' x" if "x \<in> reach h' b" for x
    using that fresh assms(4) by (meson atLeastLessThan_iff subsetD)
  then have "eq h' b h'' b" using eq_frame eq_refl [OF eq] by blast
  with eq show ?thesis by (rule eq_trans)
qed

text \<open>And the other way round: writes through the copy leave the original alone.\<close>

lemma original_untouched:
  assumes "heap_ok h" and "eq h a h a" and "copy a h = (b, h')"
    and "\<And>x. x < limit h \<Longrightarrow> cells h'' x = cells h' x"
  shows "eq h a h'' a"
proof -
  have "cells h'' x = cells h x" if "x \<in> reach h a" for x
  proof -
    from that reach_allocated [OF assms(1,2)] have "x < limit h" by blast
    with copy_fresh [OF assms(1-3)] assms(4) show ?thesis by (simp add: extends_def)
  qed
  then show ?thesis using eq_frame [OF assms(2)] by blast
qed

end


subsection \<open>Copies of values, references, slices and structs\<close>

text \<open>A value without references is copied by assignment.\<close>

definition copy_value :: "'a \<Rightarrow> 'm heap \<Rightarrow> 'a \<times> 'm heap" where
  "copy_value x h = (x, h)"

lemma copyable_value: "copyable copy_value (\<lambda>_ _. {}) (\<lambda>_ x _ y. x = y)"
  by unfold_locales (auto simp: copy_value_def extends_refl)

text \<open>
  A reference is copied into a new cell that holds the copied contents; nil stays nil. \<open>view\<close> reads the
  contents of a cell of the right kind, which every cell is in a type-safe program.
\<close>

definition copy_ref ::
  "('b \<Rightarrow> 'm cell) \<Rightarrow> ('m cell \<Rightarrow> 'b option) \<Rightarrow> ('b \<Rightarrow> 'm heap \<Rightarrow> 'b \<times> 'm heap) \<Rightarrow> ref \<Rightarrow> 'm heap \<Rightarrow> ref \<times> 'm heap" where
  "copy_ref con view f p h =
     (case p of None \<Rightarrow> (None, h)
      | Some a \<Rightarrow> (case Option.bind (cells h a) view of
          None \<Rightarrow> (Some a, h)
        | Some x \<Rightarrow> (case f x h of (y, h1) \<Rightarrow> (case alloc (con y) h1 of (b, h2) \<Rightarrow> (Some b, h2)))))"

definition reach_ref ::
  "('m cell \<Rightarrow> 'b option) \<Rightarrow> ('m heap \<Rightarrow> 'b \<Rightarrow> addr set) \<Rightarrow> 'm heap \<Rightarrow> ref \<Rightarrow> addr set" where
  "reach_ref view r h p =
     (case p of None \<Rightarrow> {}
      | Some a \<Rightarrow> insert a (case Option.bind (cells h a) view of None \<Rightarrow> {} | Some x \<Rightarrow> r h x))"

fun eq_ref ::
  "('m cell \<Rightarrow> 'b option) \<Rightarrow> ('m heap \<Rightarrow> 'b \<Rightarrow> 'm heap \<Rightarrow> 'b \<Rightarrow> bool) \<Rightarrow> 'm heap \<Rightarrow> ref \<Rightarrow> 'm heap \<Rightarrow> ref \<Rightarrow> bool" where
  "eq_ref view e h None h' None = True"
| "eq_ref view e h (Some a) h' (Some b) =
     (case (Option.bind (cells h a) view, Option.bind (cells h' b) view) of
        (Some x, Some y) \<Rightarrow> e h x h' y | _ \<Rightarrow> False)"
| "eq_ref view e h _ h' _ = False"

lemma eq_ref_Some:
  "eq_ref view e h (Some a) h' q \<longleftrightarrow>
     (\<exists>b x y. q = Some b \<and> Option.bind (cells h a) view = Some x \<and>
        Option.bind (cells h' b) view = Some y \<and> e h x h' y)"
  by (cases q) (auto split: option.splits)

lemma eq_ref_None: "eq_ref view e h None h' q \<longleftrightarrow> q = None"
  by (cases q) auto

lemma copyable_ref:
  assumes c: "copyable f r e" and view: "\<And>x. view (con x) = Some x"
  shows "copyable (copy_ref con view f) (reach_ref view r) (eq_ref view e)"
proof -
  note laws = copyable.copy_fresh [OF c] copyable.reach_allocated [OF c] copyable.eq_refl [OF c]
    copyable.eq_trans [OF c] copyable.eq_sym [OF c] copyable.eq_frame [OF c] copyable.eq_extends [OF c]
  show ?thesis
  proof (unfold_locales, goal_cases)
    case (1 h p q h')
    show ?case
    proof (cases p)
      case None
      with 1 show ?thesis by (simp add: copy_ref_def reach_ref_def extends_refl)
    next
      case (Some a)
      with 1(2) obtain x where x: "Option.bind (cells h a) view = Some x" "e h x h x"
        by (auto simp: eq_ref_Some)
      obtain y h1 where y: "f x h = (y, h1)" by (cases "f x h")
      from laws(1) [OF 1(1) x(2) y] have ext: "extends h h1" and eq: "e h x h1 y"
        and fresh: "r h1 y \<subseteq> {limit h..<limit h1}" by auto
      have q: "q = Some (limit h1)" and h': "h' = snd (alloc (con y) h1)"
        using 1(3) by (simp_all add: Some copy_ref_def x y alloc_def)
      have ext1: "extends h1 h'"
        using ext unfolding h' by (intro extends_alloc [where c = "con y"]) (auto simp: extends_def alloc_def)
      have cell: "cells h' (limit h1) = Some (con y)" by (simp add: h' alloc_def)
      have y': "e h1 y h' y" "r h' y = r h1 y"
        using laws(7) [of h1 y h'] laws(3) [OF eq] ext ext1 by (auto simp: extends_def)
      have "limit h' = Suc (limit h1)" "limit h \<le> limit h1"
        using ext by (simp_all add: h' alloc_def extends_def)
      with fresh y'(2) have "reach_ref view r h' q \<subseteq> {limit h..<limit h'}"
        by (auto simp: reach_ref_def q cell view)
      moreover have "eq_ref view e h p h' q"
        using laws(4) [OF eq y'(1)] by (simp add: Some q x(1) cell view)
      ultimately show ?thesis using extends_trans [OF ext ext1] by simp
    qed
  next
    case (2 h p)
    then show ?case
    proof (cases p)
      case (Some a)
      with 2(2) obtain x where x: "Option.bind (cells h a) view = Some x" "e h x h x"
        by (auto simp: eq_ref_Some)
      then have "a < limit h" using cells_limit [OF 2(1)] by (cases "cells h a") auto
      with laws(2) [OF 2(1) x(2)] show ?thesis by (auto simp: reach_ref_def Some x(1))
    qed (simp add: reach_ref_def)
  next
    case (3 h p h' q)
    then show ?case by (cases p; cases q) (auto simp: eq_ref_Some eq_ref_None dest: laws(3))
  next
    case (4 h p h' q h'' s)
    then show ?case by (cases p; cases q; cases s) (auto simp: eq_ref_Some eq_ref_None dest: laws(4))
  next
    case (5 h p h' q)
    then show ?case by (cases p; cases q) (auto simp: eq_ref_Some eq_ref_None dest: laws(5))
  next
    case (6 h p h')
    show ?case
    proof (cases p)
      case (Some a)
      with 6(1) obtain x where x: "Option.bind (cells h a) view = Some x" "e h x h x"
        by (auto simp: eq_ref_Some)
      have "cells h' a = cells h a" by (rule 6(2)) (simp add: reach_ref_def Some)
      moreover have "e h x h' x \<and> r h' x = r h x"
        by (rule laws(6) [OF x(2)]) (rule 6(2), simp add: reach_ref_def Some x(1))
      ultimately show ?thesis by (simp add: Some x(1) reach_ref_def)
    qed (simp add: reach_ref_def)
  qed
qed


text \<open>Elements of a slice are copied one after the other.\<close>

fun copy_list :: "('b \<Rightarrow> 'm heap \<Rightarrow> 'b \<times> 'm heap) \<Rightarrow> 'b list \<Rightarrow> 'm heap \<Rightarrow> 'b list \<times> 'm heap" where
  "copy_list f [] h = ([], h)"
| "copy_list f (x # xs) h =
     (case f x h of (y, h1) \<Rightarrow> (case copy_list f xs h1 of (ys, h2) \<Rightarrow> (y # ys, h2)))"

definition reach_list :: "('m heap \<Rightarrow> 'b \<Rightarrow> addr set) \<Rightarrow> 'm heap \<Rightarrow> 'b list \<Rightarrow> addr set" where
  "reach_list r h xs = (\<Union>x \<in> set xs. r h x)"

definition eq_list ::
  "('m heap \<Rightarrow> 'b \<Rightarrow> 'm heap \<Rightarrow> 'b \<Rightarrow> bool) \<Rightarrow> 'm heap \<Rightarrow> 'b list \<Rightarrow> 'm heap \<Rightarrow> 'b list \<Rightarrow> bool" where
  "eq_list e h xs h' ys = list_all2 (\<lambda>x y. e h x h' y) xs ys"

lemma reach_list_simps [simp]:
  "reach_list r h [] = {}" "reach_list r h (x # xs) = r h x \<union> reach_list r h xs"
  by (auto simp: reach_list_def)

lemma eq_list_simps [simp]:
  "eq_list e h [] h' ys \<longleftrightarrow> ys = []" "eq_list e h xs h' [] \<longleftrightarrow> xs = []"
  "eq_list e h (x # xs) h' (y # ys) \<longleftrightarrow> e h x h' y \<and> eq_list e h xs h' ys"
  by (simp_all add: eq_list_def)

text \<open>Two copies in a row, the step behind slices and structs with several references.\<close>

definition copy_pair ::
  "('a \<Rightarrow> 'm heap \<Rightarrow> 'a \<times> 'm heap) \<Rightarrow> ('b \<Rightarrow> 'm heap \<Rightarrow> 'b \<times> 'm heap) \<Rightarrow> 'a \<times> 'b \<Rightarrow> 'm heap \<Rightarrow> ('a \<times> 'b) \<times> 'm heap" where
  "copy_pair f g p h =
     (case f (fst p) h of (x, h1) \<Rightarrow> (case g (snd p) h1 of (y, h2) \<Rightarrow> ((x, y), h2)))"

definition reach_pair where
  "reach_pair r s h p = r h (fst p) \<union> s h (snd p)"

definition eq_pair where
  "eq_pair e d h p h' q \<longleftrightarrow> e h (fst p) h' (fst q) \<and> d h (snd p) h' (snd q)"

lemma fresh_mono: "A \<subseteq> {l..<u} \<Longrightarrow> l' \<le> l \<Longrightarrow> u \<le> u' \<Longrightarrow> A \<subseteq> {l'..<u'}" for l :: nat
  by force

text \<open>The two fresh results stay fresh together.\<close>

lemma copy_sequence:
  assumes c: "copyable f r e" and d: "copyable g s d" and h: "heap_ok h"
    and x: "e h x h x" and y: "d h y h y" and f: "f x h = (x', h1)" and g: "g y h1 = (y', h2)"
  shows "extends h h2 \<and> e h x h2 x' \<and> d h y h2 y' \<and>
     r h2 x' \<subseteq> {limit h..<limit h2} \<and> s h2 y' \<subseteq> {limit h..<limit h2}"
proof -
  from copyable.copy_fresh [OF c h x f] have f1: "extends h h1" "e h x h1 x'" "r h1 x' \<subseteq> {limit h..<limit h1}"
    by auto
  then have h1: "heap_ok h1" by (simp add: extends_def)
  from copyable.eq_extends [OF d h y f1(1)] have y1: "d h y h1 y" by simp
  from copyable.eq_refl [OF d this] have y1': "d h1 y h1 y" by simp
  from copyable.copy_fresh [OF d h1 y1' g] have g2: "extends h1 h2" "d h1 y h2 y'" "s h2 y' \<subseteq> {limit h1..<limit h2}"
    by auto
  have x2: "e h1 x' h2 x' \<and> r h2 x' = r h1 x'"
    by (rule copyable.eq_extends [OF c h1 _ g2(1)]) (use copyable.eq_refl [OF c f1(2)] in simp)
  have "limit h \<le> limit h1" "limit h1 \<le> limit h2" using f1(1) g2(1) by (simp_all add: extends_def)
  with fresh_mono [OF f1(3)] fresh_mono [OF g2(3)] x2
  have "r h2 x' \<subseteq> {limit h..<limit h2}" "s h2 y' \<subseteq> {limit h..<limit h2}" by simp_all
  with extends_trans [OF f1(1) g2(1)] copyable.eq_trans [OF c f1(2)] x2 copyable.eq_trans [OF d y1 g2(2)]
  show ?thesis by blast
qed

lemma copyable_pair:
  assumes c: "copyable f r e" and d: "copyable g s d"
  shows "copyable (copy_pair f g) (reach_pair r s) (eq_pair e d)"
proof (unfold_locales, goal_cases)
  case (1 h p q h')
  obtain x' h1 where f: "f (fst p) h = (x', h1)" by fastforce
  obtain y' h2 where g: "g (snd p) h1 = (y', h2)" by fastforce
  from 1(2) have "e h (fst p) h (fst p)" "d h (snd p) h (snd p)" by (simp_all add: eq_pair_def)
  from copy_sequence [OF c d 1(1) this f g] 1(3) show ?case
    by (auto simp: copy_pair_def f g eq_pair_def reach_pair_def)
next
  case (2 h p)
  then show ?case
    using copyable.reach_allocated [OF c 2(1)] copyable.reach_allocated [OF d 2(1)]
    by (simp add: eq_pair_def reach_pair_def)
next
  case (3 h p h' q)
  then show ?case using copyable.eq_refl [OF c] copyable.eq_refl [OF d] by (simp add: eq_pair_def) blast
next
  case (4 h p h' q h'' s)
  then show ?case using copyable.eq_trans [OF c] copyable.eq_trans [OF d] by (simp add: eq_pair_def) blast
next
  case (5 h p h' q)
  then show ?case using copyable.eq_sym [OF c] copyable.eq_sym [OF d] by (simp add: eq_pair_def)
next
  case (6 h p h')
  then show ?case
    using copyable.eq_frame [OF c, of h "fst p" h'] copyable.eq_frame [OF d, of h "snd p" h']
    by (simp add: eq_pair_def reach_pair_def)
qed

lemma copyable_list:
  assumes c: "copyable f r e"
  shows "copyable (copy_list f) (reach_list r) (eq_list e)"
proof -
  have fresh: "extends h h' \<and> eq_list e h xs h' ys \<and> reach_list r h' ys \<subseteq> {limit h..<limit h'}"
    if "heap_ok h" and "eq_list e h xs h xs" and "copy_list f xs h = (ys, h')" for h h' xs ys
    using that
  proof (induction xs arbitrary: h ys h')
    case Nil
    then show ?case by (simp add: extends_refl)
  next
    case (Cons x xs)
    obtain y h1 where f: "f x h = (y, h1)" by fastforce
    obtain zs h2 where l: "copy_list f xs h1 = (zs, h2)" by fastforce
    have out: "ys = y # zs" "h' = h2" using Cons.prems(3) by (simp_all add: f l)
    from copyable.copy_fresh [OF c Cons.prems(1) _ f] Cons.prems(2)
    have f1: "extends h h1" "e h x h1 y" "r h1 y \<subseteq> {limit h..<limit h1}" by auto
    then have h1: "heap_ok h1" by (simp add: extends_def)
    have kept: "eq_list e h xs h1 xs"
      using Cons.prems(1,2) copyable.eq_extends [OF c Cons.prems(1) _ f1(1)]
      by (auto simp: eq_list_def list_all2_conv_all_nth)
    then have "eq_list e h1 xs h1 xs"
      using copyable.eq_refl [OF c] by (auto simp: eq_list_def list_all2_conv_all_nth)
    from Cons.IH [OF h1 this l] have l1: "extends h1 h2" "eq_list e h1 xs h2 zs"
      "reach_list r h2 zs \<subseteq> {limit h1..<limit h2}" by auto
    have y2: "e h1 y h2 y \<and> r h2 y = r h1 y"
      by (rule copyable.eq_extends [OF c h1 _ l1(1)]) (use copyable.eq_refl [OF c f1(2)] in simp)
    have "eq_list e h xs h2 zs"
      using kept l1(2) copyable.eq_trans [OF c] unfolding eq_list_def list_all2_conv_all_nth by metis
    moreover have "limit h \<le> limit h1" "limit h1 \<le> limit h2"
      using f1(1) l1(1) by (simp_all add: extends_def)
    moreover have "e h x h2 y" using copyable.eq_trans [OF c f1(2)] y2 by blast
    ultimately show ?case
      using extends_trans [OF f1(1) l1(1)] fresh_mono [OF f1(3)] fresh_mono [OF l1(3)] y2 by (simp add: out)
  qed
  show ?thesis
  proof (unfold_locales, goal_cases)
    case (1 h xs ys h')
    then show ?case by (rule fresh)
  next
    case (2 h xs)
    then show ?case
      using copyable.reach_allocated [OF c 2(1)]
      by (fastforce simp: reach_list_def eq_list_def list_all2_same)
  next
    case (3 h xs h' ys)
    then show ?case
      using copyable.eq_refl [OF c] by (auto simp: eq_list_def list_all2_conv_all_nth)
  next
    case (4 h xs h' ys h'' zs)
    then show ?case
      using copyable.eq_trans [OF c] unfolding eq_list_def list_all2_conv_all_nth by metis
  next
    case (5 h xs h' ys)
    then show ?case
      using copyable.eq_sym [OF c] by (auto simp: eq_list_def list_all2_conv_all_nth)
  next
    case (6 h xs h')
    have "e h x h' x \<and> r h' x = r h x" if "x \<in> set xs" for x
      using 6 that by (intro copyable.eq_frame [OF c]) (auto simp: eq_list_def list_all2_same reach_list_def)
    then show ?case by (auto simp: eq_list_def list_all2_same reach_list_def)
  qed
qed

text \<open>
  A struct whose references are read by \<open>get\<close> and replaced by \<open>put\<close>; \<open>rest\<close> is what assignment copies.
\<close>

lemma copyable_struct:
  assumes c: "copyable f r e" and "\<And>s x. get (put s x) = x" and "\<And>s x. rest (put s x) = rest s"
  shows "copyable (\<lambda>s h. case f (get s) h of (x, h1) \<Rightarrow> (put s x, h1)) (\<lambda>h s. r h (get s))
     (\<lambda>h s h' t. rest s = rest t \<and> e h (get s) h' (get t))"
proof (unfold_locales, goal_cases)
  case (1 h s t h')
  obtain x h1 where f: "f (get s) h = (x, h1)" by fastforce
  with copyable.copy_fresh [OF c 1(1) _ f] 1(2,3) assms(2,3) show ?case by auto
next
  case (2 h s)
  then show ?case using copyable.reach_allocated [OF c] by blast
next
  case 3
  then show ?case using copyable.eq_refl [OF c] by blast
next
  case 4
  then show ?case using copyable.eq_trans [OF c] by (metis (no_types, lifting))
next
  case 5
  then show ?case using copyable.eq_sym [OF c] by auto
next
  case (6 h s h')
  then show ?case using copyable.eq_frame [OF c, of h "get s" h'] by simp
qed

end
