(* ===== verification/Deep_Copy.thy ===== *)
theory Deep_Copy
  imports Go_Heap
begin

text \<open>
  The generated deep copies of src/api/v1alpha1/zz_generated.deepcopy.go over the heap of \<open>Go_Heap\<close>: for
  each type the copy as the code composes it, the addresses a value leads to, its deep equality, and the
  proof that the copy keeps the contract \<open>copyable\<close>. The elements of a slice are copied before the array
  that holds them is allocated, which changes the names of new addresses only. \<open>out\<close> starts as an
  assignment of \<open>in\<close>, so the result is the record with its references replaced. The deep copies of the
  metadata, which belong to apimachinery, are arguments.
\<close>

subsection \<open>Contents of cells\<close>

fun as_strings :: "'m cell \<Rightarrow> (string list) option" where
  "as_strings (Strings x) = Some x"
| "as_strings _ = None"

fun as_tool_refs :: "'m cell \<Rightarrow> (tool_ref list) option" where
  "as_tool_refs (ToolRefs x) = Some x"
| "as_tool_refs _ = None"

fun as_conditions :: "'m cell \<Rightarrow> (condition list) option" where
  "as_conditions (Conditions x) = Some x"
| "as_conditions _ = None"

fun as_instant :: "'m cell \<Rightarrow> (gotime) option" where
  "as_instant (Instant x) = Some x"
| "as_instant _ = None"

fun as_dag_nodes :: "'m cell \<Rightarrow> (dag_node_m list) option" where
  "as_dag_nodes (DAGNodes x) = Some x"
| "as_dag_nodes _ = None"

fun as_dag :: "'m cell \<Rightarrow> (dag_spec_m) option" where
  "as_dag (DAGCell x) = Some x"
| "as_dag _ = None"

fun as_node_states :: "'m cell \<Rightarrow> (node_state_m list) option" where
  "as_node_states (NodeStates x) = Some x"
| "as_node_states _ = None"

fun as_rules :: "'m cell \<Rightarrow> (policy_rule_m list) option" where
  "as_rules (PolicyRules x) = Some x"
| "as_rules _ = None"

fun as_agents :: "'m cell \<Rightarrow> ('m agent_m list) option" where
  "as_agents (AgentItems x) = Some x"
| "as_agents _ = None"

fun as_agent_runs :: "'m cell \<Rightarrow> ('m agent_run_m list) option" where
  "as_agent_runs (AgentRunItems x) = Some x"
| "as_agent_runs _ = None"

fun as_policies :: "'m cell \<Rightarrow> ('m tenant_policy_m list) option" where
  "as_policies (TenantPolicyItems x) = Some x"
| "as_policies _ = None"

fun as_table :: "'m cell \<Rightarrow> (string \<rightharpoonup> string) option" where
  "as_table (Table x) = Some x"
| "as_table _ = None"

subsection \<open>Slices of plain elements, and times\<close>

text \<open>
  \<open>make\<close> and \<open>copy\<close>; a condition holds no reference, so its own \<open>DeepCopyInto\<close> is an assignment, and a
  time is copied with the struct.
\<close>

definition copy_strings :: "ref \<Rightarrow> 'm heap \<Rightarrow> ref \<times> 'm heap" where
  "copy_strings = copy_ref Strings as_strings copy_value"
definition reach_strings :: "'m heap \<Rightarrow> ref \<Rightarrow> addr set" where
  "reach_strings = reach_ref as_strings (\<lambda>_ _. {})"
definition eq_strings :: "'m heap \<Rightarrow> ref \<Rightarrow> 'm heap \<Rightarrow> ref \<Rightarrow> bool" where
  "eq_strings = eq_ref as_strings (\<lambda>_ x _ y. x = y)"

definition copy_tool_refs :: "ref \<Rightarrow> 'm heap \<Rightarrow> ref \<times> 'm heap" where
  "copy_tool_refs = copy_ref ToolRefs as_tool_refs copy_value"
definition reach_tool_refs :: "'m heap \<Rightarrow> ref \<Rightarrow> addr set" where
  "reach_tool_refs = reach_ref as_tool_refs (\<lambda>_ _. {})"
definition eq_tool_refs :: "'m heap \<Rightarrow> ref \<Rightarrow> 'm heap \<Rightarrow> ref \<Rightarrow> bool" where
  "eq_tool_refs = eq_ref as_tool_refs (\<lambda>_ x _ y. x = y)"

definition copy_conditions :: "ref \<Rightarrow> 'm heap \<Rightarrow> ref \<times> 'm heap" where
  "copy_conditions = copy_ref Conditions as_conditions copy_value"
definition reach_conditions :: "'m heap \<Rightarrow> ref \<Rightarrow> addr set" where
  "reach_conditions = reach_ref as_conditions (\<lambda>_ _. {})"
definition eq_conditions :: "'m heap \<Rightarrow> ref \<Rightarrow> 'm heap \<Rightarrow> ref \<Rightarrow> bool" where
  "eq_conditions = eq_ref as_conditions (\<lambda>_ x _ y. x = y)"

definition copy_instant :: "ref \<Rightarrow> 'm heap \<Rightarrow> ref \<times> 'm heap" where
  "copy_instant = copy_ref Instant as_instant copy_value"
definition reach_instant :: "'m heap \<Rightarrow> ref \<Rightarrow> addr set" where
  "reach_instant = reach_ref as_instant (\<lambda>_ _. {})"
definition eq_instant :: "'m heap \<Rightarrow> ref \<Rightarrow> 'm heap \<Rightarrow> ref \<Rightarrow> bool" where
  "eq_instant = eq_ref as_instant (\<lambda>_ x _ y. x = y)"

lemma copyable_plain:
  "copyable copy_strings reach_strings eq_strings" "copyable copy_tool_refs reach_tool_refs eq_tool_refs"
  "copyable copy_conditions reach_conditions eq_conditions" "copyable copy_instant reach_instant eq_instant"
  unfolding copy_strings_def reach_strings_def eq_strings_def copy_tool_refs_def reach_tool_refs_def
    eq_tool_refs_def copy_conditions_def reach_conditions_def eq_conditions_def copy_instant_def
    reach_instant_def eq_instant_def
  by (rule copyable_ref [OF copyable_value]; simp)+

lemma copyable_cong: "copyable f r e \<Longrightarrow> f' = f \<Longrightarrow> r' = r \<Longrightarrow> e' = e \<Longrightarrow> copyable f' r' e'"
  by simp

lemmas struct_simps = fun_eq_iff copy_pair_def reach_pair_def eq_pair_def

subsection \<open>Structs without references\<close>

text \<open>\<open>*out = *in\<close>.\<close>

definition AgentRunInput_DeepCopyInto :: "agent_run_input \<Rightarrow> 'm heap \<Rightarrow> agent_run_input \<times> 'm heap" where
  "AgentRunInput_DeepCopyInto s h = (s, h)"

definition AgentRuntime_DeepCopyInto :: "agent_runtime \<Rightarrow> 'm heap \<Rightarrow> agent_runtime \<times> 'm heap" where
  "AgentRuntime_DeepCopyInto s h = (s, h)"

definition Budget_DeepCopyInto :: "budget \<Rightarrow> 'm heap \<Rightarrow> budget \<times> 'm heap" where
  "Budget_DeepCopyInto s h = (s, h)"

definition BudgetSpec_DeepCopyInto :: "budget_spec \<Rightarrow> 'm heap \<Rightarrow> budget_spec \<times> 'm heap" where
  "BudgetSpec_DeepCopyInto s h = (s, h)"

definition ModelRef_DeepCopyInto :: "model_ref \<Rightarrow> 'm heap \<Rightarrow> model_ref \<times> 'm heap" where
  "ModelRef_DeepCopyInto s h = (s, h)"

definition RetryPolicy_DeepCopyInto :: "retry_policy \<Rightarrow> 'm heap \<Rightarrow> retry_policy \<times> 'm heap" where
  "RetryPolicy_DeepCopyInto s h = (s, h)"

definition ToolRef_DeepCopyInto :: "tool_ref \<Rightarrow> 'm heap \<Rightarrow> tool_ref \<times> 'm heap" where
  "ToolRef_DeepCopyInto s h = (s, h)"

subsection \<open>Structs of an AgentRun\<close>

definition DAGNode_DeepCopyInto :: "dag_node_m \<Rightarrow> 'm heap \<Rightarrow> dag_node_m \<times> 'm heap" where
  "DAGNode_DeepCopyInto s h =
     (case copy_strings (dnm_DependsOn s) h of (a, h1) \<Rightarrow>
        (s\<lparr>dnm_DependsOn := a\<rparr>, h1))"

definition reach_DAGNode :: "'m heap \<Rightarrow> dag_node_m \<Rightarrow> addr set" where
  "reach_DAGNode h s = reach_strings h (dnm_DependsOn s)"

definition eq_DAGNode :: "'m heap \<Rightarrow> dag_node_m \<Rightarrow> 'm heap \<Rightarrow> dag_node_m \<Rightarrow> bool" where
  "eq_DAGNode h s h' t \<longleftrightarrow>
     dnm_Name s = dnm_Name t \<and> dnm_Role s = dnm_Role t \<and> dnm_Prompt s = dnm_Prompt t \<and>
     eq_strings h (dnm_DependsOn s) h' (dnm_DependsOn t)"

lemma copyable_DAGNode: "copyable DAGNode_DeepCopyInto reach_DAGNode eq_DAGNode"
  by (rule copyable_cong [OF copyable_struct [OF copyable_plain(1),
        where get = "\<lambda>s. (dnm_DependsOn s)"
          and put = "\<lambda>s x. s\<lparr>dnm_DependsOn := x\<rparr>"
          and rest = "\<lambda>s. (dnm_Name s, dnm_Role s, dnm_Prompt s)"]])
     (auto simp: struct_simps DAGNode_DeepCopyInto_def reach_DAGNode_def eq_DAGNode_def split: prod.split)

lemma copyable_dag_nodes: "copyable (copy_ref DAGNodes as_dag_nodes (copy_list DAGNode_DeepCopyInto)) (reach_ref as_dag_nodes (reach_list reach_DAGNode)) (eq_ref as_dag_nodes (eq_list eq_DAGNode))"
  by (rule copyable_ref [OF copyable_list [OF copyable_DAGNode]]) simp

definition DAGSpec_DeepCopyInto :: "dag_spec_m \<Rightarrow> 'm heap \<Rightarrow> dag_spec_m \<times> 'm heap" where
  "DAGSpec_DeepCopyInto s h =
     (case copy_ref DAGNodes as_dag_nodes (copy_list DAGNode_DeepCopyInto) (dgm_Nodes s) h of (a, h1) \<Rightarrow>
        (s\<lparr>dgm_Nodes := a\<rparr>, h1))"

definition reach_DAGSpec :: "'m heap \<Rightarrow> dag_spec_m \<Rightarrow> addr set" where
  "reach_DAGSpec h s = reach_ref as_dag_nodes (reach_list reach_DAGNode) h (dgm_Nodes s)"

definition eq_DAGSpec :: "'m heap \<Rightarrow> dag_spec_m \<Rightarrow> 'm heap \<Rightarrow> dag_spec_m \<Rightarrow> bool" where
  "eq_DAGSpec h s h' t \<longleftrightarrow>
     eq_ref as_dag_nodes (eq_list eq_DAGNode) h (dgm_Nodes s) h' (dgm_Nodes t)"

lemma copyable_DAGSpec: "copyable DAGSpec_DeepCopyInto reach_DAGSpec eq_DAGSpec"
  by (rule copyable_cong [OF copyable_struct [OF copyable_dag_nodes,
        where get = "\<lambda>s. (dgm_Nodes s)"
          and put = "\<lambda>s x. s\<lparr>dgm_Nodes := x\<rparr>"
          and rest = "\<lambda>s. ()"]])
     (auto simp: struct_simps DAGSpec_DeepCopyInto_def reach_DAGSpec_def eq_DAGSpec_def split: prod.split)

lemma copyable_dag: "copyable (copy_ref DAGCell as_dag (DAGSpec_DeepCopyInto)) (reach_ref as_dag (reach_DAGSpec)) (eq_ref as_dag (eq_DAGSpec))"
  by (rule copyable_ref [OF copyable_DAGSpec]) simp

definition AgentRunSpec_DeepCopyInto :: "agent_run_spec_m \<Rightarrow> 'm heap \<Rightarrow> agent_run_spec_m \<times> 'm heap" where
  "AgentRunSpec_DeepCopyInto s h =
     (case copy_ref DAGCell as_dag (DAGSpec_DeepCopyInto) (arm_DAG s) h of (a, h1) \<Rightarrow>
        (s\<lparr>arm_DAG := a\<rparr>, h1))"

definition reach_AgentRunSpec :: "'m heap \<Rightarrow> agent_run_spec_m \<Rightarrow> addr set" where
  "reach_AgentRunSpec h s = reach_ref as_dag (reach_DAGSpec) h (arm_DAG s)"

definition eq_AgentRunSpec :: "'m heap \<Rightarrow> agent_run_spec_m \<Rightarrow> 'm heap \<Rightarrow> agent_run_spec_m \<Rightarrow> bool" where
  "eq_AgentRunSpec h s h' t \<longleftrightarrow>
     arm_AgentRef s = arm_AgentRef t \<and> arm_Input s = arm_Input t \<and> arm_RetryPolicy s =
     arm_RetryPolicy t \<and> arm_TTLSecondsAfterFinished s = arm_TTLSecondsAfterFinished t \<and>
     arm_IdempotencyKey s = arm_IdempotencyKey t \<and> arm_Cancel s = arm_Cancel t \<and>
     eq_ref as_dag (eq_DAGSpec) h (arm_DAG s) h' (arm_DAG t)"

lemma copyable_AgentRunSpec: "copyable AgentRunSpec_DeepCopyInto reach_AgentRunSpec eq_AgentRunSpec"
  by (rule copyable_cong [OF copyable_struct [OF copyable_dag,
        where get = "\<lambda>s. (arm_DAG s)"
          and put = "\<lambda>s x. s\<lparr>arm_DAG := x\<rparr>"
          and rest = "\<lambda>s. (arm_AgentRef s, arm_Input s, arm_RetryPolicy s, arm_TTLSecondsAfterFinished s, arm_IdempotencyKey s, arm_Cancel s)"]])
     (auto simp: struct_simps AgentRunSpec_DeepCopyInto_def reach_AgentRunSpec_def eq_AgentRunSpec_def split: prod.split)

definition NodeState_DeepCopyInto :: "node_state_m \<Rightarrow> 'm heap \<Rightarrow> node_state_m \<times> 'm heap" where
  "NodeState_DeepCopyInto s h =
     (case copy_instant (nsm_StartedAt s) h of (a, h1) \<Rightarrow>
      case copy_instant (nsm_FinishedAt s) h1 of (b, h2) \<Rightarrow>
        (s\<lparr>nsm_StartedAt := a, nsm_FinishedAt := b\<rparr>, h2))"

definition reach_NodeState :: "'m heap \<Rightarrow> node_state_m \<Rightarrow> addr set" where
  "reach_NodeState h s = reach_instant h (nsm_StartedAt s) \<union> reach_instant h (nsm_FinishedAt s)"

definition eq_NodeState :: "'m heap \<Rightarrow> node_state_m \<Rightarrow> 'm heap \<Rightarrow> node_state_m \<Rightarrow> bool" where
  "eq_NodeState h s h' t \<longleftrightarrow>
     nsm_Name s = nsm_Name t \<and> nsm_Phase s = nsm_Phase t \<and> nsm_ResultRef s = nsm_ResultRef
     t \<and>
     eq_instant h (nsm_StartedAt s) h' (nsm_StartedAt t) \<and>
     eq_instant h (nsm_FinishedAt s) h' (nsm_FinishedAt t)"

lemma copyable_NodeState: "copyable NodeState_DeepCopyInto reach_NodeState eq_NodeState"
  by (rule copyable_cong [OF copyable_struct [OF copyable_pair [OF copyable_plain(4) copyable_plain(4)],
        where get = "\<lambda>s. (nsm_StartedAt s, nsm_FinishedAt s)"
          and put = "\<lambda>s x. s\<lparr>nsm_StartedAt := fst x, nsm_FinishedAt := snd x\<rparr>"
          and rest = "\<lambda>s. (nsm_Name s, nsm_Phase s, nsm_ResultRef s)"]])
     (auto simp: struct_simps NodeState_DeepCopyInto_def reach_NodeState_def eq_NodeState_def split: prod.split)

lemma copyable_node_states: "copyable (copy_ref NodeStates as_node_states (copy_list NodeState_DeepCopyInto)) (reach_ref as_node_states (reach_list reach_NodeState)) (eq_ref as_node_states (eq_list eq_NodeState))"
  by (rule copyable_ref [OF copyable_list [OF copyable_NodeState]]) simp

definition AgentRunStatus_DeepCopyInto :: "agent_run_status_m \<Rightarrow> 'm heap \<Rightarrow> agent_run_status_m \<times> 'm heap" where
  "AgentRunStatus_DeepCopyInto s h =
     (case copy_conditions (stm_Conditions s) h of (a, h1) \<Rightarrow>
      case copy_ref NodeStates as_node_states (copy_list NodeState_DeepCopyInto) (stm_NodeStates s) h1 of (b, h2) \<Rightarrow>
      case copy_instant (stm_StartedAt s) h2 of (c, h3) \<Rightarrow>
      case copy_instant (stm_FinishedAt s) h3 of (d, h4) \<Rightarrow>
        (s\<lparr>stm_Conditions := a, stm_NodeStates := b, stm_StartedAt := c, stm_FinishedAt := d\<rparr>, h4))"

definition reach_AgentRunStatus :: "'m heap \<Rightarrow> agent_run_status_m \<Rightarrow> addr set" where
  "reach_AgentRunStatus h s = reach_conditions h (stm_Conditions s) \<union> reach_ref as_node_states (reach_list reach_NodeState) h (stm_NodeStates s) \<union> reach_instant h (stm_StartedAt s) \<union> reach_instant h (stm_FinishedAt s)"

definition eq_AgentRunStatus :: "'m heap \<Rightarrow> agent_run_status_m \<Rightarrow> 'm heap \<Rightarrow> agent_run_status_m \<Rightarrow> bool" where
  "eq_AgentRunStatus h s h' t \<longleftrightarrow>
     stm_Phase s = stm_Phase t \<and> stm_ObservedGeneration s = stm_ObservedGeneration t \<and>
     stm_Attempts s = stm_Attempts t \<and> stm_TraceID s = stm_TraceID t \<and> stm_BackendRunID s
     = stm_BackendRunID t \<and> stm_ResultRef s = stm_ResultRef t \<and> stm_ErrorCode s =
     stm_ErrorCode t \<and> stm_Message s = stm_Message t \<and>
     eq_conditions h (stm_Conditions s) h' (stm_Conditions t) \<and>
     eq_ref as_node_states (eq_list eq_NodeState) h (stm_NodeStates s) h' (stm_NodeStates t) \<and>
     eq_instant h (stm_StartedAt s) h' (stm_StartedAt t) \<and>
     eq_instant h (stm_FinishedAt s) h' (stm_FinishedAt t)"

lemma copyable_AgentRunStatus: "copyable AgentRunStatus_DeepCopyInto reach_AgentRunStatus eq_AgentRunStatus"
  by (rule copyable_cong [OF copyable_struct [OF copyable_pair [OF copyable_plain(3) copyable_pair [OF copyable_node_states copyable_pair [OF copyable_plain(4) copyable_plain(4)]]],
        where get = "\<lambda>s. (stm_Conditions s, stm_NodeStates s, stm_StartedAt s, stm_FinishedAt s)"
          and put = "\<lambda>s x. s\<lparr>stm_Conditions := fst x, stm_NodeStates := fst (snd x), stm_StartedAt := fst (snd (snd x)), stm_FinishedAt := snd (snd (snd x))\<rparr>"
          and rest = "\<lambda>s. (stm_Phase s, stm_ObservedGeneration s, stm_Attempts s, stm_TraceID s, stm_BackendRunID s, stm_ResultRef s, stm_ErrorCode s, stm_Message s)"]])
     (auto simp: struct_simps AgentRunStatus_DeepCopyInto_def reach_AgentRunStatus_def eq_AgentRunStatus_def split: prod.split)

subsection \<open>Structs of an Agent\<close>

definition SandboxSpec_DeepCopyInto :: "sandbox_spec_m \<Rightarrow> 'm heap \<Rightarrow> sandbox_spec_m \<times> 'm heap" where
  "SandboxSpec_DeepCopyInto s h =
     (case copy_strings (sbm_NetworkEgress s) h of (a, h1) \<Rightarrow>
        (s\<lparr>sbm_NetworkEgress := a\<rparr>, h1))"

definition reach_SandboxSpec :: "'m heap \<Rightarrow> sandbox_spec_m \<Rightarrow> addr set" where
  "reach_SandboxSpec h s = reach_strings h (sbm_NetworkEgress s)"

definition eq_SandboxSpec :: "'m heap \<Rightarrow> sandbox_spec_m \<Rightarrow> 'm heap \<Rightarrow> sandbox_spec_m \<Rightarrow> bool" where
  "eq_SandboxSpec h s h' t \<longleftrightarrow>
     sbm_Mode s = sbm_Mode t \<and> sbm_RuntimeClassName s = sbm_RuntimeClassName t \<and>
     sbm_PersistentVolumeSizeGi s = sbm_PersistentVolumeSizeGi t \<and> sbm_IdleTimeoutSeconds s =
     sbm_IdleTimeoutSeconds t \<and>
     eq_strings h (sbm_NetworkEgress s) h' (sbm_NetworkEgress t)"

lemma copyable_SandboxSpec: "copyable SandboxSpec_DeepCopyInto reach_SandboxSpec eq_SandboxSpec"
  by (rule copyable_cong [OF copyable_struct [OF copyable_plain(1),
        where get = "\<lambda>s. (sbm_NetworkEgress s)"
          and put = "\<lambda>s x. s\<lparr>sbm_NetworkEgress := x\<rparr>"
          and rest = "\<lambda>s. (sbm_Mode s, sbm_RuntimeClassName s, sbm_PersistentVolumeSizeGi s, sbm_IdleTimeoutSeconds s)"]])
     (auto simp: struct_simps SandboxSpec_DeepCopyInto_def reach_SandboxSpec_def eq_SandboxSpec_def split: prod.split)

definition AgentSpec_DeepCopyInto :: "agent_spec_m \<Rightarrow> 'm heap \<Rightarrow> agent_spec_m \<times> 'm heap" where
  "AgentSpec_DeepCopyInto s h =
     (case copy_tool_refs (asm_Tools s) h of (a, h1) \<Rightarrow>
      case SandboxSpec_DeepCopyInto (asm_Sandbox s) h1 of (b, h2) \<Rightarrow>
        (s\<lparr>asm_Tools := a, asm_Sandbox := b\<rparr>, h2))"

definition reach_AgentSpec :: "'m heap \<Rightarrow> agent_spec_m \<Rightarrow> addr set" where
  "reach_AgentSpec h s = reach_tool_refs h (asm_Tools s) \<union> reach_SandboxSpec h (asm_Sandbox s)"

definition eq_AgentSpec :: "'m heap \<Rightarrow> agent_spec_m \<Rightarrow> 'm heap \<Rightarrow> agent_spec_m \<Rightarrow> bool" where
  "eq_AgentSpec h s h' t \<longleftrightarrow>
     asm_DisplayName s = asm_DisplayName t \<and> asm_ProjectID s = asm_ProjectID t \<and>
     asm_Runtime s = asm_Runtime t \<and> asm_Model s = asm_Model t \<and> asm_PolicyRef s =
     asm_PolicyRef t \<and> asm_Budget s = asm_Budget t \<and>
     eq_tool_refs h (asm_Tools s) h' (asm_Tools t) \<and>
     eq_SandboxSpec h (asm_Sandbox s) h' (asm_Sandbox t)"

lemma copyable_AgentSpec: "copyable AgentSpec_DeepCopyInto reach_AgentSpec eq_AgentSpec"
  by (rule copyable_cong [OF copyable_struct [OF copyable_pair [OF copyable_plain(2) copyable_SandboxSpec],
        where get = "\<lambda>s. (asm_Tools s, asm_Sandbox s)"
          and put = "\<lambda>s x. s\<lparr>asm_Tools := fst x, asm_Sandbox := snd x\<rparr>"
          and rest = "\<lambda>s. (asm_DisplayName s, asm_ProjectID s, asm_Runtime s, asm_Model s, asm_PolicyRef s, asm_Budget s)"]])
     (auto simp: struct_simps AgentSpec_DeepCopyInto_def reach_AgentSpec_def eq_AgentSpec_def split: prod.split)

definition AgentStatus_DeepCopyInto :: "agent_status_m \<Rightarrow> 'm heap \<Rightarrow> agent_status_m \<times> 'm heap" where
  "AgentStatus_DeepCopyInto s h =
     (case copy_conditions (agm_Conditions s) h of (a, h1) \<Rightarrow>
        (s\<lparr>agm_Conditions := a\<rparr>, h1))"

definition reach_AgentStatus :: "'m heap \<Rightarrow> agent_status_m \<Rightarrow> addr set" where
  "reach_AgentStatus h s = reach_conditions h (agm_Conditions s)"

definition eq_AgentStatus :: "'m heap \<Rightarrow> agent_status_m \<Rightarrow> 'm heap \<Rightarrow> agent_status_m \<Rightarrow> bool" where
  "eq_AgentStatus h s h' t \<longleftrightarrow>
     agm_Ready s = agm_Ready t \<and> agm_ObservedGeneration s = agm_ObservedGeneration t \<and>
     eq_conditions h (agm_Conditions s) h' (agm_Conditions t)"

lemma copyable_AgentStatus: "copyable AgentStatus_DeepCopyInto reach_AgentStatus eq_AgentStatus"
  by (rule copyable_cong [OF copyable_struct [OF copyable_plain(3),
        where get = "\<lambda>s. (agm_Conditions s)"
          and put = "\<lambda>s x. s\<lparr>agm_Conditions := x\<rparr>"
          and rest = "\<lambda>s. (agm_Ready s, agm_ObservedGeneration s)"]])
     (auto simp: struct_simps AgentStatus_DeepCopyInto_def reach_AgentStatus_def eq_AgentStatus_def split: prod.split)

subsection \<open>Structs of a TenantPolicy\<close>

definition PolicyRule_DeepCopyInto :: "policy_rule_m \<Rightarrow> 'm heap \<Rightarrow> policy_rule_m \<times> 'm heap" where
  "PolicyRule_DeepCopyInto s h =
     (case copy_strings (prm_Resources s) h of (a, h1) \<Rightarrow>
      case copy_strings (prm_Verbs s) h1 of (b, h2) \<Rightarrow>
        (s\<lparr>prm_Resources := a, prm_Verbs := b\<rparr>, h2))"

definition reach_PolicyRule :: "'m heap \<Rightarrow> policy_rule_m \<Rightarrow> addr set" where
  "reach_PolicyRule h s = reach_strings h (prm_Resources s) \<union> reach_strings h (prm_Verbs s)"

definition eq_PolicyRule :: "'m heap \<Rightarrow> policy_rule_m \<Rightarrow> 'm heap \<Rightarrow> policy_rule_m \<Rightarrow> bool" where
  "eq_PolicyRule h s h' t \<longleftrightarrow>
     eq_strings h (prm_Resources s) h' (prm_Resources t) \<and>
     eq_strings h (prm_Verbs s) h' (prm_Verbs t)"

lemma copyable_PolicyRule: "copyable PolicyRule_DeepCopyInto reach_PolicyRule eq_PolicyRule"
  by (rule copyable_cong [OF copyable_struct [OF copyable_pair [OF copyable_plain(1) copyable_plain(1)],
        where get = "\<lambda>s. (prm_Resources s, prm_Verbs s)"
          and put = "\<lambda>s x. s\<lparr>prm_Resources := fst x, prm_Verbs := snd x\<rparr>"
          and rest = "\<lambda>s. ()"]])
     (auto simp: struct_simps PolicyRule_DeepCopyInto_def reach_PolicyRule_def eq_PolicyRule_def split: prod.split)

lemma copyable_rules: "copyable (copy_ref PolicyRules as_rules (copy_list PolicyRule_DeepCopyInto)) (reach_ref as_rules (reach_list reach_PolicyRule)) (eq_ref as_rules (eq_list eq_PolicyRule))"
  by (rule copyable_ref [OF copyable_list [OF copyable_PolicyRule]]) simp

definition NetworkPolicySpec_DeepCopyInto :: "network_policy_m \<Rightarrow> 'm heap \<Rightarrow> network_policy_m \<times> 'm heap" where
  "NetworkPolicySpec_DeepCopyInto s h =
     (case copy_strings (npm_EgressAllowed s) h of (a, h1) \<Rightarrow>
        (s\<lparr>npm_EgressAllowed := a\<rparr>, h1))"

definition reach_NetworkPolicySpec :: "'m heap \<Rightarrow> network_policy_m \<Rightarrow> addr set" where
  "reach_NetworkPolicySpec h s = reach_strings h (npm_EgressAllowed s)"

definition eq_NetworkPolicySpec :: "'m heap \<Rightarrow> network_policy_m \<Rightarrow> 'm heap \<Rightarrow> network_policy_m \<Rightarrow> bool" where
  "eq_NetworkPolicySpec h s h' t \<longleftrightarrow>
     npm_DefaultDenyEgress s = npm_DefaultDenyEgress t \<and>
     eq_strings h (npm_EgressAllowed s) h' (npm_EgressAllowed t)"

lemma copyable_NetworkPolicySpec: "copyable NetworkPolicySpec_DeepCopyInto reach_NetworkPolicySpec eq_NetworkPolicySpec"
  by (rule copyable_cong [OF copyable_struct [OF copyable_plain(1),
        where get = "\<lambda>s. (npm_EgressAllowed s)"
          and put = "\<lambda>s x. s\<lparr>npm_EgressAllowed := x\<rparr>"
          and rest = "\<lambda>s. (npm_DefaultDenyEgress s)"]])
     (auto simp: struct_simps NetworkPolicySpec_DeepCopyInto_def reach_NetworkPolicySpec_def eq_NetworkPolicySpec_def split: prod.split)

definition TenantPolicySpec_DeepCopyInto :: "tenant_policy_spec_m \<Rightarrow> 'm heap \<Rightarrow> tenant_policy_spec_m \<times> 'm heap" where
  "TenantPolicySpec_DeepCopyInto s h =
     (case copy_strings (tpm_AllowedTools s) h of (a, h1) \<Rightarrow>
      case copy_strings (tpm_AllowedModels s) h1 of (b, h2) \<Rightarrow>
      case NetworkPolicySpec_DeepCopyInto (tpm_Network s) h2 of (c, h3) \<Rightarrow>
      case copy_ref PolicyRules as_rules (copy_list PolicyRule_DeepCopyInto) (tpm_Rules s) h3 of (d, h4) \<Rightarrow>
        (s\<lparr>tpm_AllowedTools := a, tpm_AllowedModels := b, tpm_Network := c, tpm_Rules := d\<rparr>, h4))"

definition reach_TenantPolicySpec :: "'m heap \<Rightarrow> tenant_policy_spec_m \<Rightarrow> addr set" where
  "reach_TenantPolicySpec h s = reach_strings h (tpm_AllowedTools s) \<union> reach_strings h (tpm_AllowedModels s) \<union> reach_NetworkPolicySpec h (tpm_Network s) \<union> reach_ref as_rules (reach_list reach_PolicyRule) h (tpm_Rules s)"

definition eq_TenantPolicySpec :: "'m heap \<Rightarrow> tenant_policy_spec_m \<Rightarrow> 'm heap \<Rightarrow> tenant_policy_spec_m \<Rightarrow> bool" where
  "eq_TenantPolicySpec h s h' t \<longleftrightarrow>
     tpm_Budget s = tpm_Budget t \<and> tpm_ApprovalLevel s = tpm_ApprovalLevel t \<and>
     tpm_PolicyVersion s = tpm_PolicyVersion t \<and>
     eq_strings h (tpm_AllowedTools s) h' (tpm_AllowedTools t) \<and>
     eq_strings h (tpm_AllowedModels s) h' (tpm_AllowedModels t) \<and>
     eq_NetworkPolicySpec h (tpm_Network s) h' (tpm_Network t) \<and>
     eq_ref as_rules (eq_list eq_PolicyRule) h (tpm_Rules s) h' (tpm_Rules t)"

lemma copyable_TenantPolicySpec: "copyable TenantPolicySpec_DeepCopyInto reach_TenantPolicySpec eq_TenantPolicySpec"
  by (rule copyable_cong [OF copyable_struct [OF copyable_pair [OF copyable_plain(1) copyable_pair [OF copyable_plain(1) copyable_pair [OF copyable_NetworkPolicySpec copyable_rules]]],
        where get = "\<lambda>s. (tpm_AllowedTools s, tpm_AllowedModels s, tpm_Network s, tpm_Rules s)"
          and put = "\<lambda>s x. s\<lparr>tpm_AllowedTools := fst x, tpm_AllowedModels := fst (snd x), tpm_Network := fst (snd (snd x)), tpm_Rules := snd (snd (snd x))\<rparr>"
          and rest = "\<lambda>s. (tpm_Budget s, tpm_ApprovalLevel s, tpm_PolicyVersion s)"]])
     (auto simp: struct_simps TenantPolicySpec_DeepCopyInto_def reach_TenantPolicySpec_def eq_TenantPolicySpec_def split: prod.split)

definition TenantPolicyStatus_DeepCopyInto :: "tenant_policy_status_m \<Rightarrow> 'm heap \<Rightarrow> tenant_policy_status_m \<times> 'm heap" where
  "TenantPolicyStatus_DeepCopyInto s h =
     (case copy_conditions (tsm_Conditions s) h of (a, h1) \<Rightarrow>
        (s\<lparr>tsm_Conditions := a\<rparr>, h1))"

definition reach_TenantPolicyStatus :: "'m heap \<Rightarrow> tenant_policy_status_m \<Rightarrow> addr set" where
  "reach_TenantPolicyStatus h s = reach_conditions h (tsm_Conditions s)"

definition eq_TenantPolicyStatus :: "'m heap \<Rightarrow> tenant_policy_status_m \<Rightarrow> 'm heap \<Rightarrow> tenant_policy_status_m \<Rightarrow> bool" where
  "eq_TenantPolicyStatus h s h' t \<longleftrightarrow>
     tsm_ObservedGeneration s = tsm_ObservedGeneration t \<and> tsm_Active s = tsm_Active t \<and>
     eq_conditions h (tsm_Conditions s) h' (tsm_Conditions t)"

lemma copyable_TenantPolicyStatus: "copyable TenantPolicyStatus_DeepCopyInto reach_TenantPolicyStatus eq_TenantPolicyStatus"
  by (rule copyable_cong [OF copyable_struct [OF copyable_plain(3),
        where get = "\<lambda>s. (tsm_Conditions s)"
          and put = "\<lambda>s x. s\<lparr>tsm_Conditions := x\<rparr>"
          and rest = "\<lambda>s. (tsm_ObservedGeneration s, tsm_Active s)"]])
     (auto simp: struct_simps TenantPolicyStatus_DeepCopyInto_def reach_TenantPolicyStatus_def eq_TenantPolicyStatus_def split: prod.split)

subsection \<open>Objects\<close>

text \<open>An object copies its metadata, its spec and its status, in this order.\<close>

definition object_DeepCopyInto where
  "object_DeepCopyInto copy_meta copy_spec copy_status s h =
     (case copy_meta (ob_ObjectMeta s) h of (m, h1) \<Rightarrow>
      case copy_spec (ob_Spec s) h1 of (a, h2) \<Rightarrow>
      case copy_status (ob_Status s) h2 of (b, h3) \<Rightarrow>
        (s\<lparr>ob_ObjectMeta := m, ob_Spec := a, ob_Status := b\<rparr>, h3))"

definition reach_object where
  "reach_object rm rs rt h s = rm h (ob_ObjectMeta s) \<union> rs h (ob_Spec s) \<union> rt h (ob_Status s)"

definition eq_object where
  "eq_object em es et h s h' t \<longleftrightarrow> ob_TypeMeta s = ob_TypeMeta t \<and>
     em h (ob_ObjectMeta s) h' (ob_ObjectMeta t) \<and> es h (ob_Spec s) h' (ob_Spec t) \<and>
     et h (ob_Status s) h' (ob_Status t)"

lemma copyable_object:
  assumes "copyable fm rm em" and "copyable fs rs es" and "copyable ft rt et"
  shows "copyable (object_DeepCopyInto fm fs ft) (reach_object rm rs rt) (eq_object em es et)"
  by (rule copyable_cong [OF copyable_struct [OF copyable_pair [OF assms(1) copyable_pair [OF assms(2,3)]],
        where get = "\<lambda>s. (ob_ObjectMeta s, ob_Spec s, ob_Status s)"
          and put = "\<lambda>s x. s\<lparr>ob_ObjectMeta := fst x, ob_Spec := fst (snd x), ob_Status := snd (snd x)\<rparr>"
          and rest = ob_TypeMeta]])
     (auto simp: struct_simps object_DeepCopyInto_def reach_object_def eq_object_def split: prod.split)

definition Agent_DeepCopyInto ::
  "('m \<Rightarrow> 'm heap \<Rightarrow> 'm \<times> 'm heap) \<Rightarrow> 'm agent_m \<Rightarrow> 'm heap \<Rightarrow> 'm agent_m \<times> 'm heap" where
  "Agent_DeepCopyInto copy_meta = object_DeepCopyInto copy_meta AgentSpec_DeepCopyInto AgentStatus_DeepCopyInto"

abbreviation eq_Agent where "eq_Agent em \<equiv> eq_object em eq_AgentSpec eq_AgentStatus"
abbreviation reach_Agent where "reach_Agent rm \<equiv> reach_object rm reach_AgentSpec reach_AgentStatus"

lemma copyable_Agent:
  "copyable fm rm em \<Longrightarrow> copyable (Agent_DeepCopyInto fm) (reach_Agent rm) (eq_Agent em)"
  unfolding Agent_DeepCopyInto_def by (rule copyable_object [OF _ copyable_AgentSpec copyable_AgentStatus])

definition AgentRun_DeepCopyInto ::
  "('m \<Rightarrow> 'm heap \<Rightarrow> 'm \<times> 'm heap) \<Rightarrow> 'm agent_run_m \<Rightarrow> 'm heap \<Rightarrow> 'm agent_run_m \<times> 'm heap" where
  "AgentRun_DeepCopyInto copy_meta = object_DeepCopyInto copy_meta AgentRunSpec_DeepCopyInto AgentRunStatus_DeepCopyInto"

abbreviation eq_AgentRun where "eq_AgentRun em \<equiv> eq_object em eq_AgentRunSpec eq_AgentRunStatus"
abbreviation reach_AgentRun where "reach_AgentRun rm \<equiv> reach_object rm reach_AgentRunSpec reach_AgentRunStatus"

lemma copyable_AgentRun:
  "copyable fm rm em \<Longrightarrow> copyable (AgentRun_DeepCopyInto fm) (reach_AgentRun rm) (eq_AgentRun em)"
  unfolding AgentRun_DeepCopyInto_def by (rule copyable_object [OF _ copyable_AgentRunSpec copyable_AgentRunStatus])

definition TenantPolicy_DeepCopyInto ::
  "('m \<Rightarrow> 'm heap \<Rightarrow> 'm \<times> 'm heap) \<Rightarrow> 'm tenant_policy_m \<Rightarrow> 'm heap \<Rightarrow> 'm tenant_policy_m \<times> 'm heap" where
  "TenantPolicy_DeepCopyInto copy_meta = object_DeepCopyInto copy_meta TenantPolicySpec_DeepCopyInto TenantPolicyStatus_DeepCopyInto"

abbreviation eq_TenantPolicy where "eq_TenantPolicy em \<equiv> eq_object em eq_TenantPolicySpec eq_TenantPolicyStatus"
abbreviation reach_TenantPolicy where "reach_TenantPolicy rm \<equiv> reach_object rm reach_TenantPolicySpec reach_TenantPolicyStatus"

lemma copyable_TenantPolicy:
  "copyable fm rm em \<Longrightarrow> copyable (TenantPolicy_DeepCopyInto fm) (reach_TenantPolicy rm) (eq_TenantPolicy em)"
  unfolding TenantPolicy_DeepCopyInto_def by (rule copyable_object [OF _ copyable_TenantPolicySpec copyable_TenantPolicyStatus])

subsection \<open>Lists of objects\<close>

definition list_DeepCopyInto where
  "list_DeepCopyInto copy_list_meta con view copy_item s h =
     (case copy_list_meta (ol_ListMeta s) h of (m, h1) \<Rightarrow>
      case copy_ref con view (copy_list copy_item) (ol_Items s) h1 of (a, h2) \<Rightarrow>
        (s\<lparr>ol_ListMeta := m, ol_Items := a\<rparr>, h2))"

definition reach_object_list where
  "reach_object_list rm view ri h s = rm h (ol_ListMeta s) \<union> reach_ref view (reach_list ri) h (ol_Items s)"

definition eq_object_list where
  "eq_object_list em view ei h s h' t \<longleftrightarrow> ol_TypeMeta s = ol_TypeMeta t \<and>
     em h (ol_ListMeta s) h' (ol_ListMeta t) \<and> eq_ref view (eq_list ei) h (ol_Items s) h' (ol_Items t)"

lemma copyable_object_list:
  assumes "copyable fm rm em" and "copyable fi ri ei" and "\<And>x. view (con x) = Some x"
  shows "copyable (list_DeepCopyInto fm con view fi) (reach_object_list rm view ri) (eq_object_list em view ei)"
  by (rule copyable_cong [OF copyable_struct [OF
          copyable_pair [OF assms(1) copyable_ref [OF copyable_list [OF assms(2)] assms(3)]],
        where get = "\<lambda>s. (ol_ListMeta s, ol_Items s)"
          and put = "\<lambda>s x. s\<lparr>ol_ListMeta := fst x, ol_Items := snd x\<rparr>" and rest = ol_TypeMeta]])
     (auto simp: struct_simps list_DeepCopyInto_def reach_object_list_def eq_object_list_def split: prod.split)

definition AgentList_DeepCopyInto ::
  "('m \<Rightarrow> 'm heap \<Rightarrow> 'm \<times> 'm heap) \<Rightarrow> ('m \<Rightarrow> 'm heap \<Rightarrow> 'm \<times> 'm heap) \<Rightarrow>
   'm object_list_m \<Rightarrow> 'm heap \<Rightarrow> 'm object_list_m \<times> 'm heap" where
  "AgentList_DeepCopyInto copy_list_meta copy_meta =
     list_DeepCopyInto copy_list_meta AgentItems as_agents (Agent_DeepCopyInto copy_meta)"

abbreviation eq_AgentList where "eq_AgentList el em \<equiv> eq_object_list el as_agents (eq_Agent em)"
abbreviation reach_AgentList where "reach_AgentList rl rm \<equiv> reach_object_list rl as_agents (reach_Agent rm)"

lemma copyable_AgentList:
  "copyable fl rl el \<Longrightarrow> copyable fm rm em \<Longrightarrow>
     copyable (AgentList_DeepCopyInto fl fm) (reach_AgentList rl rm) (eq_AgentList el em)"
  unfolding AgentList_DeepCopyInto_def by (rule copyable_object_list [OF _ copyable_Agent]) simp_all

definition AgentRunList_DeepCopyInto ::
  "('m \<Rightarrow> 'm heap \<Rightarrow> 'm \<times> 'm heap) \<Rightarrow> ('m \<Rightarrow> 'm heap \<Rightarrow> 'm \<times> 'm heap) \<Rightarrow>
   'm object_list_m \<Rightarrow> 'm heap \<Rightarrow> 'm object_list_m \<times> 'm heap" where
  "AgentRunList_DeepCopyInto copy_list_meta copy_meta =
     list_DeepCopyInto copy_list_meta AgentRunItems as_agent_runs (AgentRun_DeepCopyInto copy_meta)"

abbreviation eq_AgentRunList where "eq_AgentRunList el em \<equiv> eq_object_list el as_agent_runs (eq_AgentRun em)"
abbreviation reach_AgentRunList where "reach_AgentRunList rl rm \<equiv> reach_object_list rl as_agent_runs (reach_AgentRun rm)"

lemma copyable_AgentRunList:
  "copyable fl rl el \<Longrightarrow> copyable fm rm em \<Longrightarrow>
     copyable (AgentRunList_DeepCopyInto fl fm) (reach_AgentRunList rl rm) (eq_AgentRunList el em)"
  unfolding AgentRunList_DeepCopyInto_def by (rule copyable_object_list [OF _ copyable_AgentRun]) simp_all

definition TenantPolicyList_DeepCopyInto ::
  "('m \<Rightarrow> 'm heap \<Rightarrow> 'm \<times> 'm heap) \<Rightarrow> ('m \<Rightarrow> 'm heap \<Rightarrow> 'm \<times> 'm heap) \<Rightarrow>
   'm object_list_m \<Rightarrow> 'm heap \<Rightarrow> 'm object_list_m \<times> 'm heap" where
  "TenantPolicyList_DeepCopyInto copy_list_meta copy_meta =
     list_DeepCopyInto copy_list_meta TenantPolicyItems as_policies (TenantPolicy_DeepCopyInto copy_meta)"

abbreviation eq_TenantPolicyList where "eq_TenantPolicyList el em \<equiv> eq_object_list el as_policies (eq_TenantPolicy em)"
abbreviation reach_TenantPolicyList where "reach_TenantPolicyList rl rm \<equiv> reach_object_list rl as_policies (reach_TenantPolicy rm)"

lemma copyable_TenantPolicyList:
  "copyable fl rl el \<Longrightarrow> copyable fm rm em \<Longrightarrow>
     copyable (TenantPolicyList_DeepCopyInto fl fm) (reach_TenantPolicyList rl rm) (eq_TenantPolicyList el em)"
  unfolding TenantPolicyList_DeepCopyInto_def by (rule copyable_object_list [OF _ copyable_TenantPolicy]) simp_all

subsection \<open>DeepCopy and DeepCopyObject\<close>

text \<open>\<open>DeepCopy\<close> of a nil pointer is nil, of any other a new struct filled by \<open>DeepCopyInto\<close>.\<close>

definition new_copy ::
  "('a \<Rightarrow> 'm heap \<Rightarrow> 'a \<times> 'm heap) \<Rightarrow> 'a option \<Rightarrow> 'm heap \<Rightarrow> 'a option \<times> 'm heap" where
  "new_copy into p h =
     (case p of None \<Rightarrow> (None, h) | Some s \<Rightarrow> (case into s h of (out, h1) \<Rightarrow> (Some out, h1)))"

definition AgentRunInput_DeepCopy where "AgentRunInput_DeepCopy = new_copy AgentRunInput_DeepCopyInto"
definition AgentRuntime_DeepCopy where "AgentRuntime_DeepCopy = new_copy AgentRuntime_DeepCopyInto"
definition Budget_DeepCopy where "Budget_DeepCopy = new_copy Budget_DeepCopyInto"
definition BudgetSpec_DeepCopy where "BudgetSpec_DeepCopy = new_copy BudgetSpec_DeepCopyInto"
definition ModelRef_DeepCopy where "ModelRef_DeepCopy = new_copy ModelRef_DeepCopyInto"
definition RetryPolicy_DeepCopy where "RetryPolicy_DeepCopy = new_copy RetryPolicy_DeepCopyInto"
definition ToolRef_DeepCopy where "ToolRef_DeepCopy = new_copy ToolRef_DeepCopyInto"
definition DAGNode_DeepCopy where "DAGNode_DeepCopy = new_copy DAGNode_DeepCopyInto"
definition DAGSpec_DeepCopy where "DAGSpec_DeepCopy = new_copy DAGSpec_DeepCopyInto"
definition AgentRunSpec_DeepCopy where "AgentRunSpec_DeepCopy = new_copy AgentRunSpec_DeepCopyInto"
definition NodeState_DeepCopy where "NodeState_DeepCopy = new_copy NodeState_DeepCopyInto"
definition AgentRunStatus_DeepCopy where "AgentRunStatus_DeepCopy = new_copy AgentRunStatus_DeepCopyInto"
definition SandboxSpec_DeepCopy where "SandboxSpec_DeepCopy = new_copy SandboxSpec_DeepCopyInto"
definition AgentSpec_DeepCopy where "AgentSpec_DeepCopy = new_copy AgentSpec_DeepCopyInto"
definition AgentStatus_DeepCopy where "AgentStatus_DeepCopy = new_copy AgentStatus_DeepCopyInto"
definition PolicyRule_DeepCopy where "PolicyRule_DeepCopy = new_copy PolicyRule_DeepCopyInto"
definition NetworkPolicySpec_DeepCopy where "NetworkPolicySpec_DeepCopy = new_copy NetworkPolicySpec_DeepCopyInto"
definition TenantPolicySpec_DeepCopy where "TenantPolicySpec_DeepCopy = new_copy TenantPolicySpec_DeepCopyInto"
definition TenantPolicyStatus_DeepCopy where "TenantPolicyStatus_DeepCopy = new_copy TenantPolicyStatus_DeepCopyInto"

definition Agent_DeepCopy where "Agent_DeepCopy copy_meta = new_copy (Agent_DeepCopyInto copy_meta)"
definition AgentList_DeepCopy where
  "AgentList_DeepCopy copy_list_meta copy_meta = new_copy (AgentList_DeepCopyInto copy_list_meta copy_meta)"

definition AgentRun_DeepCopy where "AgentRun_DeepCopy copy_meta = new_copy (AgentRun_DeepCopyInto copy_meta)"
definition AgentRunList_DeepCopy where
  "AgentRunList_DeepCopy copy_list_meta copy_meta = new_copy (AgentRunList_DeepCopyInto copy_list_meta copy_meta)"

definition TenantPolicy_DeepCopy where "TenantPolicy_DeepCopy copy_meta = new_copy (TenantPolicy_DeepCopyInto copy_meta)"
definition TenantPolicyList_DeepCopy where
  "TenantPolicyList_DeepCopy copy_list_meta copy_meta = new_copy (TenantPolicyList_DeepCopyInto copy_list_meta copy_meta)"

text \<open>\<open>DeepCopyObject\<close> returns the copy as an interface value, nil for nil.\<close>

definition Agent_DeepCopyObject where
  "Agent_DeepCopyObject copy_meta p h = (case Agent_DeepCopy copy_meta p h of (Some c, h1) \<Rightarrow> (Some c, h1) | (None, h1) \<Rightarrow> (None, h1))"
definition AgentList_DeepCopyObject where
  "AgentList_DeepCopyObject copy_list_meta copy_meta p h =
     (case AgentList_DeepCopy copy_list_meta copy_meta p h of (Some c, h1) \<Rightarrow> (Some c, h1) | (None, h1) \<Rightarrow> (None, h1))"

definition AgentRun_DeepCopyObject where
  "AgentRun_DeepCopyObject copy_meta p h = (case AgentRun_DeepCopy copy_meta p h of (Some c, h1) \<Rightarrow> (Some c, h1) | (None, h1) \<Rightarrow> (None, h1))"
definition AgentRunList_DeepCopyObject where
  "AgentRunList_DeepCopyObject copy_list_meta copy_meta p h =
     (case AgentRunList_DeepCopy copy_list_meta copy_meta p h of (Some c, h1) \<Rightarrow> (Some c, h1) | (None, h1) \<Rightarrow> (None, h1))"

definition TenantPolicy_DeepCopyObject where
  "TenantPolicy_DeepCopyObject copy_meta p h = (case TenantPolicy_DeepCopy copy_meta p h of (Some c, h1) \<Rightarrow> (Some c, h1) | (None, h1) \<Rightarrow> (None, h1))"
definition TenantPolicyList_DeepCopyObject where
  "TenantPolicyList_DeepCopyObject copy_list_meta copy_meta p h =
     (case TenantPolicyList_DeepCopy copy_list_meta copy_meta p h of (Some c, h1) \<Rightarrow> (Some c, h1) | (None, h1) \<Rightarrow> (None, h1))"

subsection \<open>The contract\<close>

text \<open>The three statuses the controllers snapshot before they update them.\<close>

interpretation agent_run_status: copyable AgentRunStatus_DeepCopyInto reach_AgentRunStatus eq_AgentRunStatus
  by (rule copyable_AgentRunStatus)

interpretation agent_status: copyable AgentStatus_DeepCopyInto reach_AgentStatus eq_AgentStatus
  by (rule copyable_AgentStatus)

interpretation tenant_policy_status:
    copyable TenantPolicyStatus_DeepCopyInto reach_TenantPolicyStatus eq_TenantPolicyStatus
  by (rule copyable_TenantPolicyStatus)

text \<open>The value of a status in memory: the record the rest of the development works with.\<close>

definition contents :: "'m heap \<Rightarrow> ('m cell \<Rightarrow> 'b option) \<Rightarrow> ref \<Rightarrow> 'b option" where
  "contents h view p = Option.bind p (\<lambda>a. Option.bind (cells h a) view)"

definition node_state_value :: "'m heap \<Rightarrow> node_state_m \<Rightarrow> node_state" where
  "node_state_value h s =
     \<lparr>ns_Name = nsm_Name s, ns_Phase = nsm_Phase s, ns_StartedAt = contents h as_instant (nsm_StartedAt s),
      ns_FinishedAt = contents h as_instant (nsm_FinishedAt s), ns_ResultRef = nsm_ResultRef s\<rparr>"

definition status_value :: "'m heap \<Rightarrow> agent_run_status_m \<Rightarrow> agent_run_status" where
  "status_value h s =
     \<lparr>st_Phase = stm_Phase s, st_ObservedGeneration = stm_ObservedGeneration s,
      st_Conditions = (case contents h as_conditions (stm_Conditions s) of None \<Rightarrow> [] | Some cs \<Rightarrow> cs),
      st_NodeStates = map_option (map (node_state_value h)) (contents h as_node_states (stm_NodeStates s)),
      st_Attempts = stm_Attempts s, st_StartedAt = contents h as_instant (stm_StartedAt s),
      st_FinishedAt = contents h as_instant (stm_FinishedAt s), st_TraceID = stm_TraceID s,
      st_BackendRunID = stm_BackendRunID s, st_ResultRef = stm_ResultRef s,
      st_ErrorCode = stm_ErrorCode s, st_Message = stm_Message s\<rparr>"

lemma eq_value_contents:
  "eq_ref view (\<lambda>_ x _ y. x = y) h p h' q \<Longrightarrow> contents h view p = contents h' view q"
  by (cases p) (auto simp: eq_ref_Some eq_ref_None contents_def)

lemma eq_node_state_value: "eq_NodeState h s h' t \<Longrightarrow> node_state_value h s = node_state_value h' t"
  by (auto simp: eq_NodeState_def eq_instant_def node_state_value_def dest: eq_value_contents)

lemma eq_node_states_value:
  assumes "eq_ref as_node_states (eq_list eq_NodeState) h p h' q"
  shows "map_option (map (node_state_value h)) (contents h as_node_states p) =
     map_option (map (node_state_value h')) (contents h' as_node_states q)"
proof (cases p)
  case None
  with assms show ?thesis by (simp add: eq_ref_None contents_def)
next
  case (Some a)
  with assms obtain b xs ys where q: "q = Some b" and xs: "Option.bind (cells h a) as_node_states = Some xs"
    and ys: "Option.bind (cells h' b) as_node_states = Some ys" and eq: "eq_list eq_NodeState h xs h' ys"
    by (auto simp: eq_ref_Some)
  from eq have "map (node_state_value h) xs = map (node_state_value h') ys"
    by (auto simp: eq_list_def list_all2_conv_all_nth list_eq_iff_nth_eq intro: eq_node_state_value)
  then show ?thesis by (simp add: Some q contents_def xs ys)
qed

text \<open>Deeply equal statuses have one value.\<close>

lemma eq_status_value: "eq_AgentRunStatus h s h' t \<Longrightarrow> status_value h s = status_value h' t"
  unfolding eq_AgentRunStatus_def eq_conditions_def eq_instant_def status_value_def
  by (elim conjE, drule eq_node_states_value, (drule eq_value_contents)+) simp

subsection \<open>Properties\<close>

text \<open>
  C39. The deep copy of an AgentRun is deeply equal to the original, lives in newly allocated memory only,
  and writes no cell that existed before, so that the copy and the original share nothing that can
  change. The deep copy of the metadata is assumed to do the same.
\<close>

theorem agent_run_deep_copy:
  assumes "copyable copy_meta rm em" and "heap_ok h" and "eq_AgentRun em h run h run"
    and "AgentRun_DeepCopy copy_meta (Some run) h = (out, h')"
  shows "\<exists>copy. out = Some copy \<and> eq_AgentRun em h run h' copy \<and>
     reach_AgentRun rm h' copy \<subseteq> {limit h..<limit h'} \<and> reach_AgentRun rm h run \<subseteq> {..<limit h} \<and>
     (\<forall>a < limit h. cells h' a = cells h a)"
proof -
  obtain copy where out: "out = Some copy" and into: "AgentRun_DeepCopyInto copy_meta run h = (copy, h')"
    using assms(4) by (auto simp: AgentRun_DeepCopy_def new_copy_def split: prod.splits)
  from copyable.copy_fresh [OF copyable_AgentRun [OF assms(1)] assms(2,3) into]
    copyable.reach_allocated [OF copyable_AgentRun [OF assms(1)] assms(2,3)]
  show ?thesis by (auto simp: out extends_def)
qed

text \<open>
  C40. Snapshot isolation: \<open>before := run.Status.DeepCopy()\<close> keeps the value the status had, whatever is
  written afterwards to the memory of the run or anywhere else outside the snapshot, as
  \<open>meta.SetStatusCondition\<close> writes into the array of the conditions. The comparison of \<open>before\<close> with the
  updated status therefore compares the old value with the new one.
\<close>

theorem status_snapshot_isolated:
  assumes "heap_ok h" and "eq_AgentRunStatus h s h s"
    and "AgentRunStatus_DeepCopy (Some s) h = (Some before, h')"
    and "\<forall>x \<in> {limit h..<limit h'}. cells h'' x = cells h' x"
  shows "status_value h'' before = status_value h s"
proof -
  have into: "AgentRunStatus_DeepCopyInto s h = (before, h')"
    using assms(3) by (auto simp: AgentRunStatus_DeepCopy_def new_copy_def split: prod.splits)
  have "eq_AgentRunStatus h s h'' before"
    by (rule agent_run_status.snapshot [OF assms(1,2) into]) (use assms(4) in auto)
  then show ?thesis by (rule eq_status_value [symmetric])
qed

subsection \<open>Witnesses\<close>

text \<open>A status with one condition, in a heap where metadata is a reference to a table of labels.\<close>

definition status_memory :: "ref heap" where
  "status_memory = \<lparr>cells = [0 \<mapsto> Conditions [condition_lit ''Ready'' ConditionTrue ''r'' ''m'' 1],
     1 \<mapsto> Table Map.empty], limit = 2\<rparr>"

definition status_in_memory :: agent_run_status_m where
  "status_in_memory = \<lparr>stm_Phase = AgentRunRunning, stm_ObservedGeneration = 1, stm_Conditions = Some 0,
     stm_NodeStates = None, stm_Attempts = 1, stm_StartedAt = None, stm_FinishedAt = None, stm_TraceID = [],
     stm_BackendRunID = ''b1'', stm_ResultRef = [], stm_ErrorCode = [], stm_Message = []\<rparr>"

definition spec_in_memory :: agent_run_spec_m where
  "spec_in_memory = \<lparr>arm_AgentRef = ''research'', arm_Input = \<lparr>in_Task = ''t''\<rparr>, arm_DAG = None,
     arm_RetryPolicy = \<lparr>rp_MaxAttempts = 1\<rparr>, arm_TTLSecondsAfterFinished = 0, arm_IdempotencyKey = [],
     arm_Cancel = False\<rparr>"

definition run_in_memory :: "ref agent_run_m" where
  "run_in_memory = \<lparr>ob_TypeMeta = \<lparr>tym_Kind = ''AgentRun'', tym_APIVersion = ''agents.governed.io/v1alpha1''\<rparr>,
     ob_ObjectMeta = Some 1, ob_Spec = spec_in_memory, ob_Status = status_in_memory\<rparr>"

lemma status_memory_ok [simp]:
  "heap_ok status_memory" "eq_AgentRunStatus status_memory status_in_memory status_memory status_in_memory"
  "limit status_memory = 2"
  by (auto simp: heap_ok_def status_memory_def status_in_memory_def eq_AgentRunStatus_def eq_conditions_def
      eq_instant_def split: if_splits)

text \<open>The condition is then overwritten in place.\<close>

definition overwritten :: "ref heap \<Rightarrow> ref heap" where
  "overwritten h = h\<lparr>cells := (cells h)(0 \<mapsto> Conditions [])\<rparr>"

theorem status_snapshot_isolated_witness:
  "status_value (overwritten (snd (AgentRunStatus_DeepCopy (Some status_in_memory) status_memory)))
     (the (fst (AgentRunStatus_DeepCopy (Some status_in_memory) status_memory))) =
   status_value status_memory status_in_memory"
proof -
  obtain before h' where copy: "AgentRunStatus_DeepCopy (Some status_in_memory) status_memory = (Some before, h')"
    by (cases "AgentRunStatus_DeepCopyInto status_in_memory status_memory")
       (auto simp: AgentRunStatus_DeepCopy_def new_copy_def)
  have "\<forall>x \<in> {limit status_memory..<limit h'}. cells (overwritten h') x = cells h' x"
    by (simp add: overwritten_def)
  from status_snapshot_isolated [OF status_memory_ok(1,2) copy this] show ?thesis by (simp add: copy)
qed

theorem agent_run_deep_copy_witness:
  "\<exists>copy. fst (AgentRun_DeepCopy (copy_ref Table as_table copy_value) (Some run_in_memory) status_memory) = Some copy \<and>
     reach_AgentRun (reach_ref as_table (\<lambda>_ _. {}))
       (snd (AgentRun_DeepCopy (copy_ref Table as_table copy_value) (Some run_in_memory) status_memory)) copy \<subseteq>
     {2..<limit (snd (AgentRun_DeepCopy (copy_ref Table as_table copy_value) (Some run_in_memory) status_memory))}"
proof -
  have "eq_AgentRun (eq_ref as_table (\<lambda>_ x _ y. x = y)) status_memory run_in_memory status_memory run_in_memory"
    using status_memory_ok(2)
    by (simp add: eq_object_def run_in_memory_def spec_in_memory_def eq_AgentRunSpec_def)
       (simp add: status_memory_def)
  from agent_run_deep_copy [OF copyable_ref [OF copyable_value, of as_table Table] status_memory_ok(1) this
      prod.collapse [symmetric]]
  show ?thesis by auto
qed

end
