(* ===== verification/Operator_Startup.thy ===== *)
theory Operator_Startup
  imports Tenant_Policy_Controller AgentRun_Controller Http_Gateway
begin

text \<open>
  How the program is put together: src/cmd/main.go, the registration of the API types in
  src/api/v1alpha1, and the three \<open>SetupWithManager\<close> methods of src/controllers. Every call of
  controller-runtime that can fail is a step of an arbitrary world that may report an error; \<open>main\<close> is the
  sequence of these calls with what it does when one fails. A registration says which kind a controller
  is for, which other kinds it watches and through which function; from it follow the requests an event
  causes. The error texts in the log are those of the code; the errors themselves and the zap options
  are left out.
\<close>

subsection \<open>The API group\<close>

record group_version =
  gv_Group :: string
  gv_Version :: string

definition GroupVersion :: group_version where
  "GroupVersion = \<lparr>gv_Group = ''agents.governed.io'', gv_Version = ''v1alpha1''\<rparr>"

text \<open>The Go types of the group, and what the \<open>init\<close> function of each file hands to \<open>SchemeBuilder.Register\<close>.\<close>

datatype kind = AgentKind | AgentRunKind | TenantPolicyKind

datatype api_type = ObjectType kind | ListType kind

definition register :: "kind \<Rightarrow> api_type list \<Rightarrow> api_type list" where
  "register k builder = builder @ [ObjectType k, ListType k]"

definition init_agent_types :: "api_type list \<Rightarrow> api_type list" where
  "init_agent_types = register AgentKind"

definition init_agentrun_types :: "api_type list \<Rightarrow> api_type list" where
  "init_agentrun_types = register AgentRunKind"

definition init_tenantpolicy_types :: "api_type list \<Rightarrow> api_type list" where
  "init_tenantpolicy_types = register TenantPolicyKind"

text \<open>Go runs the \<open>init\<close> functions of a package in the order of its files, before \<open>main\<close>.\<close>

definition SchemeBuilder :: "api_type list" where
  "SchemeBuilder = init_tenantpolicy_types (init_agentrun_types (init_agent_types []))"

subsection \<open>Registrations\<close>

datatype map_func = MapAgentsForPolicy | MapRunsForAgent

datatype reconciler =
    TenantPolicyReconciler
  | AgentReconciler
  | AgentRunReconciler http_run_gateway

record registration =
  reg_For :: kind
  reg_Watches :: "(kind \<times> map_func) list"
  reg_Reconciler :: reconciler

definition setup_tenant_policy :: registration where
  "setup_tenant_policy =
     \<lparr>reg_For = TenantPolicyKind, reg_Watches = [], reg_Reconciler = TenantPolicyReconciler\<rparr>"

definition setup_agent :: registration where
  "setup_agent =
     \<lparr>reg_For = AgentKind, reg_Watches = [(TenantPolicyKind, MapAgentsForPolicy)],
      reg_Reconciler = AgentReconciler\<rparr>"

definition setup_agent_run :: "http_run_gateway \<Rightarrow> registration" where
  "setup_agent_run gateway =
     \<lparr>reg_For = AgentRunKind, reg_Watches = [(AgentKind, MapRunsForAgent)],
      reg_Reconciler = AgentRunReconciler gateway\<rparr>"

subsection \<open>Flags\<close>

text \<open>
  \<open>settings\<close> are the flags given on the command line. \<open>strconv.ParseBool\<close> decides a boolean flag; one it
  does not accept ends the program in \<open>flag.Parse\<close> with status 2.
\<close>

definition flag_string :: "(string \<rightharpoonup> string) \<Rightarrow> string \<Rightarrow> string \<Rightarrow> string" where
  "flag_string settings name fallback = (case settings name of None \<Rightarrow> fallback | Some v \<Rightarrow> v)"

definition parse_bool :: "string \<Rightarrow> bool option" where
  "parse_bool s =
     (if s \<in> {''1'', ''t'', ''T'', ''true'', ''TRUE'', ''True''} then Some True
      else if s \<in> {''0'', ''f'', ''F'', ''false'', ''FALSE'', ''False''} then Some False else None)"

definition flag_bool :: "(string \<rightharpoonup> string) \<Rightarrow> string \<Rightarrow> bool \<Rightarrow> bool option" where
  "flag_bool settings name fallback = (case settings name of None \<Rightarrow> Some fallback | Some v \<Rightarrow> parse_bool v)"

record manager_options =
  mo_MetricsBindAddress :: string
  mo_HealthProbeBindAddress :: string
  mo_LeaderElection :: bool
  mo_LeaderElectionID :: string

definition manager_options_of :: "(string \<rightharpoonup> string) \<Rightarrow> manager_options option" where
  "manager_options_of settings =
     map_option (\<lambda>leaderElection.
       \<lparr>mo_MetricsBindAddress = flag_string settings ''metrics-bind-address'' '':8080'',
        mo_HealthProbeBindAddress = flag_string settings ''health-probe-bind-address'' '':8081'',
        mo_LeaderElection = leaderElection, mo_LeaderElectionID = ''agents.governed.io''\<rparr>)
       (flag_bool settings ''leader-elect'' True)"

subsection \<open>main\<close>

text \<open>The calls that can fail, and what a failure does; \<open>Exit\<close> carries the line \<open>main\<close> logs first.\<close>

datatype startup_call =
    AddClientGoTypes
  | AddTypes group_version "api_type list"
  | GetConfigOrDie
  | NewManager manager_options
  | Complete registration
  | AddHealthzCheck string
  | AddReadyzCheck string
  | StartManager

datatype startup_failure = Panic | Exit int string

datatype startup_outcome = Returned | Failed startup_failure

text \<open>\<open>init\<close> of main.go: both calls are wrapped in \<open>utilruntime.Must\<close>.\<close>

definition init_main :: "(startup_call \<times> startup_failure) list" where
  "init_main = [(AddClientGoTypes, Panic), (AddTypes GroupVersion SchemeBuilder, Panic)]"

text \<open>\<open>main\<close> after \<open>flag.Parse\<close>; \<open>getenv\<close> is \<open>os.Getenv\<close>.\<close>

definition main_calls :: "(string \<Rightarrow> string) \<Rightarrow> manager_options \<Rightarrow> (startup_call \<times> startup_failure) list" where
  "main_calls getenv options =
     [(GetConfigOrDie, Exit 1 ''unable to get kubeconfig''),
      (NewManager options, Exit 1 ''create manager''),
      (Complete setup_tenant_policy, Exit 1 ''register TenantPolicy reconciler''),
      (Complete setup_agent, Exit 1 ''register Agent reconciler''),
      (Complete (setup_agent_run (NewHTTPRunGatewayFromEnv getenv)), Exit 1 ''register AgentRun reconciler''),
      (AddHealthzCheck ''healthz'', Exit 1 ''register health check''),
      (AddReadyzCheck ''readyz'', Exit 1 ''register readiness check''),
      (StartManager, Exit 1 ''run manager'')]"

text \<open>The calls made, the outcome, and the world after it; \<open>call\<close> is controller-runtime.\<close>

fun run_calls ::
  "(startup_call \<Rightarrow> 'w \<Rightarrow> string option \<times> 'w) \<Rightarrow> (startup_call \<times> startup_failure) list \<Rightarrow> 'w \<Rightarrow>
   (startup_call list \<times> startup_outcome) \<times> 'w" where
  "run_calls call [] w = (([], Returned), w)"
| "run_calls call ((c, failure) # cs) w =
     (case call c w of
        (Some err, w1) \<Rightarrow> (([c], Failed failure), w1)
      | (None, w1) \<Rightarrow> (case run_calls call cs w1 of ((made, outcome), w2) \<Rightarrow> ((c # made, outcome), w2)))"

definition operator_main ::
  "(startup_call \<Rightarrow> 'w \<Rightarrow> string option \<times> 'w) \<Rightarrow> (string \<rightharpoonup> string) \<Rightarrow> (string \<Rightarrow> string) \<Rightarrow> 'w \<Rightarrow>
   (startup_call list \<times> startup_outcome) \<times> 'w" where
  "operator_main call settings getenv w =
     (case run_calls call init_main w of
        ((made, Failed failure), w1) \<Rightarrow> ((made, Failed failure), w1)
      | ((made, Returned), w1) \<Rightarrow>
          (case manager_options_of settings of
             None \<Rightarrow> ((made, Failed (Exit 2 ''invalid boolean flag'')), w1)
           | Some options \<Rightarrow>
               (case run_calls call (main_calls getenv options) w1 of
                  ((made', outcome), w2) \<Rightarrow> ((made @ made', outcome), w2))))"

subsection \<open>Events and requests\<close>

text \<open>
  Documented behaviour of the builder: an event on an object of the kind a controller is for requests
  that object, and an event on a watched kind requests what the map function returns.
\<close>

fun map_requests :: "'w kube \<Rightarrow> map_func \<Rightarrow> object_meta \<Rightarrow> 'w \<Rightarrow> object_key list \<times> 'w" where
  "map_requests K MapAgentsForPolicy object w = agentsForPolicy K object w"
| "map_requests K MapRunsForAgent object w = runsForAgent K object w"

fun watch_requests ::
  "'w kube \<Rightarrow> (kind \<times> map_func) list \<Rightarrow> kind \<Rightarrow> object_meta \<Rightarrow> 'w \<Rightarrow> object_key list \<times> 'w" where
  "watch_requests K [] k object w = ([], w)"
| "watch_requests K ((watched, f) # watches) k object w =
     (if watched = k then
        (case map_requests K f object w of
           (requests, w1) \<Rightarrow>
             (case watch_requests K watches k object w1 of (requests', w2) \<Rightarrow> (requests @ requests', w2)))
      else watch_requests K watches k object w)"

definition event_requests ::
  "'w kube \<Rightarrow> registration \<Rightarrow> kind \<Rightarrow> object_meta \<Rightarrow> 'w \<Rightarrow> object_key list \<times> 'w" where
  "event_requests K reg k object w =
     (case watch_requests K (reg_Watches reg) k object w of
        (requests, w1) \<Rightarrow> ((if reg_For reg = k then [key_of object] else []) @ requests, w1))"

text \<open>The pass a registered controller makes on a request.\<close>

fun reconcile_request ::
  "platform \<Rightarrow> 'w kube \<Rightarrow> (http_run_gateway \<Rightarrow> 'w gateway) \<Rightarrow> clock \<Rightarrow> reconciler \<Rightarrow> object_key \<Rightarrow> 'w \<Rightarrow>
   pass_result \<times> 'w" where
  "reconcile_request P K net T TenantPolicyReconciler request w =
     apfst (map_sum KubeErr id) (reconcileTenantPolicy P K (ck_outcome T) request w)"
| "reconcile_request P K net T AgentReconciler request w =
     apfst (map_sum KubeErr id) (reconcileAgent P K (ck_outcome T) request w)"
| "reconcile_request P K net T (AgentRunReconciler gateway) request w = Reconcile P K (net gateway) T request w"

subsection \<open>Start-up stops at the first failure\<close>

text \<open>The calls that were made are a prefix of the program, whose last call failed unless all succeeded.\<close>

definition stops_at_failure ::
  "(startup_call \<times> startup_failure) list \<Rightarrow> startup_call list \<Rightarrow> startup_outcome \<Rightarrow> bool" where
  "stops_at_failure prog made outcome \<longleftrightarrow>
     made = map fst prog \<and> outcome = Returned \<or>
     (\<exists>pre c failure post. prog = pre @ (c, failure) # post \<and> made = map fst pre @ [c] \<and>
        outcome = Failed failure)"

lemma stops_at_failure_Cons:
  "stops_at_failure prog made outcome \<Longrightarrow> stops_at_failure ((c, f) # prog) (c # made) outcome"
  unfolding stops_at_failure_def by (metis append_Cons fst_conv list.map(2))

lemma run_calls_stops:
  "run_calls call prog w = ((made, outcome), w') \<Longrightarrow> stops_at_failure prog made outcome"
proof (induction call prog w arbitrary: made outcome w' rule: run_calls.induct)
  case (1 call w)
  then show ?case by (simp add: stops_at_failure_def)
next
  case (2 call c f cs w)
  obtain err w1 where c: "call c w = (err, w1)" by fastforce
  show ?case
  proof (cases err)
    case None
    with 2 c show ?thesis by (auto split: prod.splits intro: stops_at_failure_Cons)
  next
    case (Some e)
    with 2(2) c show ?thesis by (fastforce simp: stops_at_failure_def)
  qed
qed

lemma init_main_start: "StartManager \<notin> set (map fst init_main)"
  by (simp add: init_main_def)

lemma stops_at_failure_append:
  "stops_at_failure A made (Failed f) \<Longrightarrow> stops_at_failure (A @ B) made (Failed f)"
  "stops_at_failure A made Returned \<Longrightarrow> stops_at_failure B made' outcome \<Longrightarrow>
     stops_at_failure (A @ B) (made @ made') outcome"
  unfolding stops_at_failure_def
  by (metis append.assoc append_Cons startup_outcome.distinct(1))
    (metis append.assoc map_append startup_outcome.distinct(1))

lemma stops_at_failure_made: "stops_at_failure prog made outcome \<Longrightarrow> set made \<subseteq> set (map fst prog)"
  by (auto simp: stops_at_failure_def)

lemma operator_main_stops:
  assumes "operator_main call settings getenv w = ((made, outcome), w')"
    and "manager_options_of settings = Some options"
  shows "stops_at_failure (init_main @ main_calls getenv options) made outcome"
proof -
  obtain made1 out1 w1 where i: "run_calls call init_main w = ((made1, out1), w1)"
    by (metis prod.exhaust)
  obtain made2 out2 w2 where m: "run_calls call (main_calls getenv options) w1 = ((made2, out2), w2)"
    by (metis prod.exhaust)
  from run_calls_stops [OF i] run_calls_stops [OF m] assms show ?thesis
    by (cases out1) (auto simp: operator_main_def i m intro: stops_at_failure_append)
qed

lemma operator_main_bad_flag:
  assumes "operator_main call settings getenv w = ((made, outcome), w')" and "manager_options_of settings = None"
  shows "StartManager \<notin> set made"
proof -
  obtain made1 out1 w1 where i: "run_calls call init_main w = ((made1, out1), w1)"
    by (metis prod.exhaust)
  from stops_at_failure_made [OF run_calls_stops [OF i]] have "set made1 \<subseteq> set (map fst init_main)" .
  moreover have "made = made1" using assms by (cases out1) (auto simp: operator_main_def i)
  ultimately show ?thesis using init_main_start by blast
qed

lemma stop_at_last:
  assumes "front @ [(l, e)] = pre @ (c, f) # post" and "l \<in> set (map fst pre @ [c])" and "l \<notin> fst ` set front"
  shows "pre = front \<and> c = l \<and> f = e"
proof (cases post rule: rev_cases)
  case Nil
  with assms(1) show ?thesis by simp
next
  case (snoc xs x)
  with assms(1) have "front = pre @ (c, f) # xs" by simp
  with assms(2,3) show ?thesis by force
qed

subsection \<open>Properties\<close>

text \<open>
  The operator runs fully wired or not at all: the manager is started only when the types are
  registered, a manager was created with the options of the command line, all three controllers are
  complete, with the watches and the gateway of the code, and both probes are registered.
\<close>

lemma manager_started_fully_wired:
  assumes "operator_main call settings getenv w = ((made, outcome), w')" and "StartManager \<in> set made"
  shows "\<exists>options. manager_options_of settings = Some options \<and>
     made = [AddClientGoTypes, AddTypes GroupVersion SchemeBuilder, GetConfigOrDie, NewManager options,
       Complete setup_tenant_policy, Complete setup_agent,
       Complete (setup_agent_run (NewHTTPRunGatewayFromEnv getenv)),
       AddHealthzCheck ''healthz'', AddReadyzCheck ''readyz'', StartManager] \<and>
     outcome \<in> {Returned, Failed (Exit 1 ''run manager'')}"
proof (cases "manager_options_of settings")
  case None
  with operator_main_bad_flag [OF assms(1)] assms(2) show ?thesis by simp
next
  case (Some options)
  let ?prog = "init_main @ main_calls getenv options"
  from operator_main_stops [OF assms(1) Some] consider
      "made = map fst ?prog" "outcome = Returned"
    | pre c f post where "?prog = pre @ (c, f) # post" "made = map fst pre @ [c]" "outcome = Failed f"
    unfolding stops_at_failure_def by blast
  then show ?thesis
  proof cases
    case 1
    then show ?thesis by (simp add: Some init_main_def main_calls_def)
  next
    case 2
    let ?front = "butlast ?prog"
    have prog: "?prog = ?front @ [(StartManager, Exit 1 ''run manager'')]" and new: "StartManager \<notin> fst ` set ?front"
      by (simp_all add: init_main_def main_calls_def)
    have "?front @ [(StartManager, Exit 1 ''run manager'')] = pre @ (c, f) # post" using prog 2(1) by (simp only:)
    from stop_at_last [OF this _ new] 2(2) assms(2)
    have "pre = ?front \<and> c = StartManager \<and> f = Exit 1 ''run manager''" by (simp only:)
    with 2 show ?thesis by (simp add: Some init_main_def main_calls_def)
  qed
qed

theorem manager_started_fully_wired_witness:
  "\<exists>options. manager_options_of Map.empty = Some options \<and>
     fst (fst (operator_main (\<lambda>_ w. (None, w)) Map.empty (\<lambda>_. []) ())) =
      [AddClientGoTypes, AddTypes GroupVersion SchemeBuilder, GetConfigOrDie, NewManager options,
       Complete setup_tenant_policy, Complete setup_agent,
       Complete (setup_agent_run (NewHTTPRunGatewayFromEnv (\<lambda>_. []))),
       AddHealthzCheck ''healthz'', AddReadyzCheck ''readyz'', StartManager]"
proof -
  obtain made outcome where run:
    "operator_main (\<lambda>_ w. (None, w)) Map.empty (\<lambda>_. []) () = ((made, outcome), ())"
    and "StartManager \<in> set made"
    by (simp add: operator_main_def init_main_def main_calls_def manager_options_of_def flag_bool_def)
  from manager_started_fully_wired [OF this] run show ?thesis by auto
qed

end
