(* ===== verification/Operator_Loop.thy ===== *)
theory Operator_Loop
  imports Operator_Startup Run_Properties
begin

text \<open>
  The running operator: the three controllers side by side, each with a queue of requests, over one
  cluster. An event on an object adds the requests its registrations ask for; a pass takes a request and,
  as controller-runtime documents, the request stays queued when the pass fails or asks to be called
  again; everybody else may change the cluster at any time. The order of all this is arbitrary.
\<close>

subsection \<open>The event system\<close>

record 'w operator =
  op_World :: 'w
  op_Queue :: "(reconciler \<times> object_key) set"

definition registrations :: "http_run_gateway \<Rightarrow> registration list" where
  "registrations gateway = [setup_tenant_policy, setup_agent, setup_agent_run gateway]"

text \<open>The requests of an event, each registration asked in the world the one before left.\<close>

fun queued_requests ::
  "'w kube \<Rightarrow> registration list \<Rightarrow> kind \<Rightarrow> object_meta \<Rightarrow> 'w \<Rightarrow> (reconciler \<times> object_key) list \<times> 'w" where
  "queued_requests K [] k object w = ([], w)"
| "queued_requests K (reg # regs) k object w =
     (case event_requests K reg k object w of
        (requests, w1) \<Rightarrow>
          (case queued_requests K regs k object w1 of
             (queued, w2) \<Rightarrow> (map (Pair (reg_Reconciler reg)) requests @ queued, w2)))"

datatype 'w operator_event =
    Observed kind object_meta
  | Passed reconciler object_key clock 'w
  | Environment

inductive operator_step ::
  "platform \<Rightarrow> 'w kube \<Rightarrow> (http_run_gateway \<Rightarrow> 'w gateway) \<Rightarrow> http_run_gateway \<Rightarrow>
   'w operator \<Rightarrow> 'w operator_event \<Rightarrow> 'w operator \<Rightarrow> bool"
  for P K net gateway where
  observed: "queued_requests K (registrations gateway) k object w = (queued, w') \<Longrightarrow>
    operator_step P K net gateway \<lparr>op_World = w, op_Queue = Q\<rparr> (Observed k object)
      \<lparr>op_World = w', op_Queue = Q \<union> set queued\<rparr>"
| passed: "(c, request) \<in> Q \<Longrightarrow> reconcile_request P K net T c request w = (res, w') \<Longrightarrow>
    operator_step P K net gateway \<lparr>op_World = w, op_Queue = Q\<rparr> (Passed c request T w)
      \<lparr>op_World = w', op_Queue = (if res = Inr empty_result then Q - {(c, request)} else Q)\<rparr>"
| environment: "operator_step P K net gateway \<lparr>op_World = w, op_Queue = Q\<rparr> Environment
      \<lparr>op_World = w', op_Queue = Q\<rparr>"

inductive operator_run ::
  "platform \<Rightarrow> 'w kube \<Rightarrow> (http_run_gateway \<Rightarrow> 'w gateway) \<Rightarrow> http_run_gateway \<Rightarrow>
   'w operator \<Rightarrow> 'w operator_event list \<Rightarrow> 'w operator \<Rightarrow> bool"
  for P K net gateway where
  start: "operator_run P K net gateway s [] s"
| step: "operator_step P K net gateway s e s' \<Longrightarrow> operator_run P K net gateway s' es s'' \<Longrightarrow>
    operator_run P K net gateway s (e # es) s''"

inductive_cases operator_stepE: "operator_step P K net gateway s e s'"

subsection \<open>Requests leave the queue only through a pass that ends\<close>

lemma operator_step_dequeues:
  assumes "operator_step P K net gateway s e s'" and "(c, request) \<in> op_Queue s"
    and "(c, request) \<notin> op_Queue s'"
  shows "\<exists>T w. e = Passed c request T w \<and> fst (reconcile_request P K net T c request w) = Inr empty_result"
  using assms by (auto elim!: operator_stepE split: if_splits)

lemma operator_run_dequeues:
  assumes "operator_run P K net gateway s es s'" and "(c, request) \<in> op_Queue s"
    and "(c, request) \<notin> op_Queue s'"
  shows "\<exists>T w. Passed c request T w \<in> set es \<and> fst (reconcile_request P K net T c request w) = Inr empty_result"
  using assms
proof (induction rule: operator_run.induct)
  case (step s e s' es s'')
  show ?case
  proof (cases "(c, request) \<in> op_Queue s'")
    case True
    with step.IH step.prems(2) show ?thesis by auto
  next
    case False
    from operator_step_dequeues [OF step(1) step.prems(1) False] show ?thesis by auto
  qed
qed simp

text \<open>What a pass that ends for good tells of the run.\<close>

definition run_settled :: "platform \<Rightarrow> 'w kube \<Rightarrow> 'w gateway \<Rightarrow> clock \<Rightarrow> object_key \<Rightarrow> 'w \<Rightarrow> bool" where
  "run_settled P K G T request w \<longleftrightarrow>
     (case fst (kGetAgentRun K request w) of
        Inl err \<Rightarrow> ke_NotFound err
      | Inr run \<Rightarrow>
          \<not> time_is_zero (om_DeletionTimestamp (run_Meta run)) \<and>
            (\<not> contains_finalizer P (om_Finalizers (run_Meta run)) runFinalizer \<or>
             (\<exists>v u. EvUpdate v (Inr u) \<in> set (pass_events P K G T request w))) \<or>
          time_is_zero (om_DeletionTimestamp (run_Meta run)) \<and> isTerminal (st_Phase (run_Status run)) \<or>
          ars_Cancel (run_Spec run) \<and> st_BackendRunID (run_Status run) = [] \<or>
          (\<exists>v u. EvStatus v (Inr u) \<in> set (pass_events P K G T request w) \<and> isTerminal (st_Phase (run_Status u))))"

lemma deletion_ends:
  assumes "deletion P T run es (Inr empty_result)"
  shows "\<not> contains_finalizer P (om_Finalizers (run_Meta run)) runFinalizer \<or> (\<exists>v u. EvUpdate v (Inr u) \<in> set es)"
  using assms by cases (auto dest!: written_cases split: if_splits)

lemma run_pass_deleted_ends:
  assumes "run_pass P T answers run refs es (Inr empty_result)"
    and "\<not> time_is_zero (om_DeletionTimestamp (run_Meta run))"
  shows "\<not> contains_finalizer P (om_Finalizers (run_Meta run)) runFinalizer \<or> (\<exists>v u. EvUpdate v (Inr u) \<in> set es)"
  using assms(1) by cases (use assms(2) in \<open>auto dest: deletion_ends\<close>)

lemma ended_pass_settled:
  assumes "fst (Reconcile P K G T request w) = Inr empty_result"
  shows "run_settled P K G T request w"
proof (cases "fst (kGetAgentRun K request w)")
  case (Inl err)
  with assms show ?thesis
    by (auto simp: run_settled_def Reconcile_def ignoreNotFound_def split: prod.splits if_splits)
next
  case (Inr run)
  from read_pass [OF Inr, of P T G] run_pass_ends [of P T "answers_of G" run]
    run_pass_deleted_ends [of P T "answers_of G" run] assms show ?thesis
    by (auto simp: run_settled_def Inr)
qed

subsection \<open>Properties\<close>

text \<open>
  C7. No run is lost: however events, passes of the three controllers and changes by others interleave, a
  request of the AgentRun controller leaves the queue only through a pass that found the run gone,
  deleted, finished or cancelled before submission, or that stored a finished status.
\<close>

theorem queued_run_leaves_settled:
  assumes "operator_run P K net gateway s es s'"
    and "(AgentRunReconciler gateway, request) \<in> op_Queue s"
    and "(AgentRunReconciler gateway, request) \<notin> op_Queue s'"
  shows "\<exists>T w. Passed (AgentRunReconciler gateway) request T w \<in> set es \<and>
     run_settled P K (net gateway) T request w"
  using operator_run_dequeues [OF assms] ended_pass_settled by fastforce

text \<open>An early cancellation, observed, passed and settled.\<close>

definition quiet_gateway :: http_run_gateway where
  "quiet_gateway = NewHTTPRunGateway ''http://api'' [] None"

lemma early_cancel_pass:
  "reconcile_request sample_platform (run_kube early_cancel sample_agent) (\<lambda>_. fixed_gateway (Inl NoRunID))
     sample_clock (AgentRunReconciler quiet_gateway) sample_key () = (Inr empty_result, ())"
  by (simp add: sample_pass dispatch_def reconcileCancel_def update_status_then_def)

theorem queued_run_leaves_settled_witness:
  "\<exists>T w. run_settled sample_platform (run_kube early_cancel sample_agent) (fixed_gateway (Inl NoRunID)) T sample_key w"
proof -
  have "operator_run sample_platform (run_kube early_cancel sample_agent) (\<lambda>_. fixed_gateway (Inl NoRunID)) quiet_gateway
      \<lparr>op_World = (), op_Queue = {(AgentRunReconciler quiet_gateway, sample_key)}\<rparr>
      [Passed (AgentRunReconciler quiet_gateway) sample_key sample_clock ()]
      \<lparr>op_World = (), op_Queue = {}\<rparr>"
    using operator_step.passed [OF _ early_cancel_pass, of "{(AgentRunReconciler quiet_gateway, sample_key)}"]
    by (auto intro!: operator_run.intros)
  from queued_run_leaves_settled [OF this] show ?thesis by auto
qed

text \<open>
  Changes propagate along the references: an event on a TenantPolicy queues the policy and exactly the
  Agents of its Namespace that name it; an event on an Agent queues the Agent and exactly the unfinished
  runs of its Namespace that name it; an event on a run queues that run alone. Nothing else is woken, so a
  policy reaches a run only through the status of an Agent.
\<close>

lemma event_queues_dependents:
  assumes "operator_step P K net gateway s (Observed k object) s'"
    and "fst (kListAgents K (om_Namespace object) (op_World s)) = Inr agents"
    and "fst (kListAgentRuns K (om_Namespace object) (op_World s)) = Inr runs"
  shows "op_Queue s' = op_Queue s \<union>
     (case k of
        TenantPolicyKind \<Rightarrow> insert (TenantPolicyReconciler, key_of object)
          {(AgentReconciler, key_of (ag_Meta a)) |a. a \<in> set agents \<and> as_PolicyRef (ag_Spec a) = om_Name object}
      | AgentKind \<Rightarrow> insert (AgentReconciler, key_of object)
          {(AgentRunReconciler gateway, key_of (run_Meta r)) |r. r \<in> set runs \<and>
             ars_AgentRef (run_Spec r) = om_Name object \<and> \<not> isTerminal (st_Phase (run_Status r))}
      | AgentRunKind \<Rightarrow> {(AgentRunReconciler gateway, key_of object)})"
  using assms
  by (cases k)
     (auto elim!: operator_stepE simp: registrations_def event_requests_def setup_tenant_policy_def setup_agent_def
        setup_agent_run_def agentsForPolicy_def runsForAgent_def split: prod.splits)

lemma agent_event_step:
  "operator_step P (run_kube sample_run sample_agent) net gateway \<lparr>op_World = (), op_Queue = {}\<rparr>
     (Observed AgentKind (ag_Meta sample_agent))
     \<lparr>op_World = snd (queued_requests (run_kube sample_run sample_agent) (registrations gateway) AgentKind
          (ag_Meta sample_agent) ()),
      op_Queue = {} \<union> set (fst (queued_requests (run_kube sample_run sample_agent) (registrations gateway)
          AgentKind (ag_Meta sample_agent) ()))\<rparr>"
  by (rule operator_step.observed) (simp add: prod_eq_iff)

theorem event_queues_dependents_witness:
  "(AgentRunReconciler quiet_gateway, sample_key) \<in>
     set (fst (queued_requests (run_kube sample_run sample_agent) (registrations quiet_gateway) AgentKind
       (ag_Meta sample_agent) ()))"
  using event_queues_dependents [OF agent_event_step [of _ _ quiet_gateway], of "[]" "[sample_run]"]
  by (auto simp: empty_kube_def run_kube_def key_of_def sample_run_def sample_agent_def)

end
