(* ===== verification/Permissions.thy ===== *)
theory Permissions
  imports Operator_Startup
begin

text \<open>
  The RBAC markers of the three controllers. A call the rules do not permit is answered \<open>forbidden\<close> by the
  API server and changes nothing; reads go through the cache of the manager, which has to get, list and
  watch the resource. Each controller works under the rules it declares, and under far fewer.
\<close>

subsection \<open>Rules\<close>

record rbac_rule =
  rule_Groups :: "string list"
  rule_Resources :: "string list"
  rule_Verbs :: "string list"

text \<open>Group, resource and verb.\<close>

type_synonym permission = "string \<times> string \<times> string"

definition permits :: "rbac_rule list \<Rightarrow> permission \<Rightarrow> bool" where
  "permits rules p = (case p of (grp, resource, verb) \<Rightarrow>
     \<exists>r \<in> set rules. grp \<in> set (rule_Groups r) \<and> resource \<in> set (rule_Resources r) \<and> verb \<in> set (rule_Verbs r))"

abbreviation api_group :: string where
  "api_group \<equiv> ''agents.governed.io''"

abbreviation read_verbs :: "string list" where
  "read_verbs \<equiv> [''get'', ''list'', ''watch'']"

abbreviation all_verbs :: "string list" where
  "all_verbs \<equiv> [''get'', ''list'', ''watch'', ''create'', ''update'', ''patch'', ''delete'']"

definition rbac :: "string \<Rightarrow> string list \<Rightarrow> string list \<Rightarrow> rbac_rule" where
  "rbac grp resources verbs = \<lparr>rule_Groups = [grp], rule_Resources = resources, rule_Verbs = verbs\<rparr>"

definition tenantpolicy_rules :: "rbac_rule list" where
  "tenantpolicy_rules =
     [rbac api_group [''tenantpolicies''] all_verbs,
      rbac api_group [''tenantpolicies/status''] [''get'', ''update'', ''patch''],
      rbac api_group [''tenantpolicies/finalizers''] [''update''],
      rbac [] [''namespaces''] read_verbs]"

definition agent_rules :: "rbac_rule list" where
  "agent_rules =
     [rbac api_group [''agents''] all_verbs,
      rbac api_group [''agents/status''] [''get'', ''update'', ''patch''],
      rbac api_group [''agents/finalizers''] [''update''],
      rbac api_group [''tenantpolicies''] read_verbs,
      rbac [] [''namespaces''] read_verbs]"

definition agentrun_rules :: "rbac_rule list" where
  "agentrun_rules =
     [rbac api_group [''agentruns''] all_verbs,
      rbac api_group [''agentruns/status''] [''get'', ''update'', ''patch''],
      rbac api_group [''agentruns/finalizers''] [''update''],
      rbac api_group [''agents'', ''tenantpolicies''] read_verbs,
      rbac [] [''events''] [''create'', ''patch''],
      rbac [] [''namespaces''] read_verbs]"

subsection \<open>The client of a restricted account\<close>

definition forbidden :: kube_error where
  "forbidden = \<lparr>ke_NotFound = False, ke_Text = ''forbidden''\<rparr>"

definition reads :: "string \<Rightarrow> string \<Rightarrow> permission list" where
  "reads grp resource = map (\<lambda>verb. (grp, resource, verb)) read_verbs"

definition guarded ::
  "rbac_rule list \<Rightarrow> permission list \<Rightarrow> 'e \<Rightarrow> ('w \<Rightarrow> 'e \<times> 'w) \<Rightarrow> 'w \<Rightarrow> 'e \<times> 'w" where
  "guarded rules needed refusal call = (if list_all (permits rules) needed then call else (\<lambda>w. (refusal, w)))"

definition permitted_kube :: "rbac_rule list \<Rightarrow> 'w kube \<Rightarrow> 'w kube" where
  "permitted_kube rules K =
     \<lparr>kGetNamespace = (\<lambda>n. guarded rules (reads [] ''namespaces'') (Inl forbidden) (kGetNamespace K n)),
      kGetAgentRun = (\<lambda>k. guarded rules (reads api_group ''agentruns'') (Inl forbidden) (kGetAgentRun K k)),
      kGetAgent = (\<lambda>k. guarded rules (reads api_group ''agents'') (Inl forbidden) (kGetAgent K k)),
      kGetTenantPolicy = (\<lambda>k. guarded rules (reads api_group ''tenantpolicies'') (Inl forbidden) (kGetTenantPolicy K k)),
      kUpdateAgentRun = (\<lambda>r. guarded rules [(api_group, ''agentruns'', ''update'')] (Inl forbidden) (kUpdateAgentRun K r)),
      kUpdateAgentRunStatus =
        (\<lambda>r. guarded rules [(api_group, ''agentruns/status'', ''update'')] (Inl forbidden) (kUpdateAgentRunStatus K r)),
      kDeleteAgentRun = (\<lambda>r. guarded rules [(api_group, ''agentruns'', ''delete'')] (Some forbidden) (kDeleteAgentRun K r)),
      kUpdateAgentStatus =
        (\<lambda>a. guarded rules [(api_group, ''agents/status'', ''update'')] (Inl forbidden) (kUpdateAgentStatus K a)),
      kUpdateTenantPolicyStatus =
        (\<lambda>p. guarded rules [(api_group, ''tenantpolicies/status'', ''update'')] (Inl forbidden) (kUpdateTenantPolicyStatus K p)),
      kListAgentRuns = (\<lambda>n. guarded rules (reads api_group ''agentruns'') (Inl forbidden) (kListAgentRuns K n)),
      kListAgents = (\<lambda>n. guarded rules (reads api_group ''agents'') (Inl forbidden) (kListAgents K n))\<rparr>"

subsection \<open>What the controllers need\<close>

definition tenantpolicy_needs :: "rbac_rule list" where
  "tenantpolicy_needs =
     [rbac api_group [''tenantpolicies''] read_verbs, rbac api_group [''tenantpolicies/status''] [''update''],
      rbac [] [''namespaces''] read_verbs]"

definition agent_needs :: "rbac_rule list" where
  "agent_needs =
     [rbac api_group [''agents'', ''tenantpolicies''] read_verbs, rbac api_group [''agents/status''] [''update''],
      rbac [] [''namespaces''] read_verbs]"

definition agentrun_needs :: "rbac_rule list" where
  "agentrun_needs =
     [rbac api_group [''agents'', ''agentruns''] read_verbs, rbac api_group [''agentruns''] [''update'', ''delete''],
      rbac api_group [''agentruns/status''] [''update''], rbac [] [''namespaces''] read_verbs]"

text \<open>Every permission of some rules is one of others.\<close>

definition covered_by :: "rbac_rule list \<Rightarrow> rbac_rule list \<Rightarrow> bool" where
  "covered_by small large \<longleftrightarrow> list_all (\<lambda>r. list_all (\<lambda>g. list_all (\<lambda>s. list_all (\<lambda>v. permits large (g, s, v))
     (rule_Verbs r)) (rule_Resources r)) (rule_Groups r)) small"

lemma needs_covered:
  "covered_by tenantpolicy_needs tenantpolicy_rules" "covered_by agent_needs agent_rules"
  "covered_by agentrun_needs agentrun_rules"
  by code_simp+

lemma covered_permits: "covered_by small large \<Longrightarrow> permits small p \<Longrightarrow> permits large p"
  by (cases p) (fastforce simp: covered_by_def permits_def list_all_iff)

lemma needs_permit:
  "list_all (permits agentrun_needs) (reads [] ''namespaces'' @ reads api_group ''agentruns'' @ reads api_group ''agents'' @
     [(api_group, ''agentruns'', ''update''), (api_group, ''agentruns/status'', ''update''), (api_group, ''agentruns'', ''delete'')])"
  "list_all (permits agent_needs) (reads [] ''namespaces'' @ reads api_group ''tenantpolicies'' @ reads api_group ''agents'' @
     [(api_group, ''agents/status'', ''update'')])"
  "list_all (permits tenantpolicy_needs) (reads [] ''namespaces'' @ reads api_group ''tenantpolicies'' @
     [(api_group, ''tenantpolicies/status'', ''update'')])"
  by code_simp+

lemma guarded_eq: "list_all (permits rules) needed \<Longrightarrow> guarded rules needed refusal call = call"
  by (simp add: guarded_def)

lemma list_all_covered: "covered_by small large \<Longrightarrow> list_all (permits small) ps \<Longrightarrow> list_all (permits large) ps"
  by (auto simp: list_all_iff covered_permits)

text \<open>The calls each controller makes go through under rules that cover what it needs.\<close>

lemma agentrun_calls:
  assumes "covered_by agentrun_needs rules"
  shows "kGetNamespace (permitted_kube rules K) = kGetNamespace K" "kGetAgentRun (permitted_kube rules K) = kGetAgentRun K"
    "kGetAgent (permitted_kube rules K) = kGetAgent K" "kUpdateAgentRun (permitted_kube rules K) = kUpdateAgentRun K"
    "kUpdateAgentRunStatus (permitted_kube rules K) = kUpdateAgentRunStatus K"
    "kDeleteAgentRun (permitted_kube rules K) = kDeleteAgentRun K" "kListAgentRuns (permitted_kube rules K) = kListAgentRuns K"
  using list_all_covered [OF assms needs_permit(1)] by (simp_all add: permitted_kube_def guarded_eq)

lemma agent_calls:
  assumes "covered_by agent_needs rules"
  shows "kGetNamespace (permitted_kube rules K) = kGetNamespace K" "kGetTenantPolicy (permitted_kube rules K) = kGetTenantPolicy K"
    "kGetAgent (permitted_kube rules K) = kGetAgent K" "kUpdateAgentStatus (permitted_kube rules K) = kUpdateAgentStatus K"
    "kListAgents (permitted_kube rules K) = kListAgents K"
  using list_all_covered [OF assms needs_permit(2)] by (simp_all add: permitted_kube_def guarded_eq)

lemma tenantpolicy_calls:
  assumes "covered_by tenantpolicy_needs rules"
  shows "kGetNamespace (permitted_kube rules K) = kGetNamespace K" "kGetTenantPolicy (permitted_kube rules K) = kGetTenantPolicy K"
    "kUpdateTenantPolicyStatus (permitted_kube rules K) = kUpdateTenantPolicyStatus K"
  using list_all_covered [OF assms needs_permit(3)] by (simp_all add: permitted_kube_def guarded_eq)

subsection \<open>Every controller works under its own rules\<close>

lemma agentrun_permitted:
  assumes "covered_by agentrun_needs rules"
  shows "Reconcile P (permitted_kube rules K) G T request w = Reconcile P K G T request w"
    and "runsForAgent (permitted_kube rules K) object w = runsForAgent K object w"
  unfolding Reconcile_def reconcileDelete_def release_def validateReferences_def tenantIDFor_def reject_def
      update_status_then_def dispatch_def reconcileCancel_def reconcileSubmit_def reconcilePoll_def gatewayFailure_def
      reconcileTerminal_def finish_or_poll_def reconcileTTL_def runsForAgent_def agentrun_calls [OF assms]
  by (rule refl)+

lemma agent_permitted:
  assumes "covered_by agent_needs rules"
  shows "reconcileAgent P (permitted_kube rules K) t request w = reconcileAgent P K t request w"
    and "agentsForPolicy (permitted_kube rules K) object w = agentsForPolicy K object w"
  unfolding reconcileAgent_def validateAgent_def tenantIDFor_def agentsForPolicy_def agent_calls [OF assms]
  by (rule refl)+

lemma tenantpolicy_permitted:
  assumes "covered_by tenantpolicy_needs rules"
  shows "reconcileTenantPolicy P (permitted_kube rules K) t request w = reconcileTenantPolicy P K t request w"
  unfolding reconcileTenantPolicy_def validateTenantPolicy_def tenantIDFor_def tenantpolicy_calls [OF assms]
  by (rule refl)

text \<open>
  C35. No call of a controller is refused under the rules its own markers declare: every pass and every watch
  function does exactly what it would do with all permissions. Neither creation nor patches, neither the
  finalizer subresources nor events are ever needed, and an Agent or a policy is only read but for its status.
\<close>

theorem controllers_work_under_their_rules:
  "Reconcile P (permitted_kube agentrun_rules K) G T request w = Reconcile P K G T request w \<and>
   Reconcile P (permitted_kube agentrun_needs K) G T request w = Reconcile P K G T request w \<and>
   runsForAgent (permitted_kube agentrun_rules K) object w = runsForAgent K object w \<and>
   reconcileAgent P (permitted_kube agent_rules K) t request w = reconcileAgent P K t request w \<and>
   reconcileAgent P (permitted_kube agent_needs K) t request w = reconcileAgent P K t request w \<and>
   agentsForPolicy (permitted_kube agent_rules K) object w = agentsForPolicy K object w \<and>
   reconcileTenantPolicy P (permitted_kube tenantpolicy_rules K) t request w = reconcileTenantPolicy P K t request w \<and>
   reconcileTenantPolicy P (permitted_kube tenantpolicy_needs K) t request w = reconcileTenantPolicy P K t request w"
proof -
  have "covered_by agentrun_needs agentrun_needs" "covered_by agent_needs agent_needs"
    "covered_by tenantpolicy_needs tenantpolicy_needs" by code_simp+
  with needs_covered show ?thesis
    by (simp add: agentrun_permitted agent_permitted tenantpolicy_permitted)
qed

text \<open>The rules are needed: without the permission to delete, an expired run stays.\<close>

lemma delete_needed:
  "permits agentrun_needs (api_group, ''agentruns'', ''delete'')"
  "\<not> permits agent_rules (api_group, ''agentruns'', ''delete'')"
  by code_simp+

end
