(* ===== verification/Backend_Store.thy ===== *)
theory Backend_Store
  imports Prelude
begin

text \<open>
  \<open>InMemoryRunStore\<close> of src/backend/app/store.py, the ledger of the backend: the dictionaries \<open>_runs\<close> and
  \<open>_idempotency\<close>, and one definition per method. Every method holds the lock from its first to its last
  access, so it is one step of the store. \<open>uuid4\<close> is an argument of \<open>submit\<close>. A Python value that may be
  \<open>None\<close> is an \<open>option\<close>; numbers of the model are the unbounded integers of Python.
\<close>

subsection \<open>Records\<close>

record run_step =
  sp_node_id :: string
  sp_prompt :: string
  sp_role :: string
  sp_depends_on :: "string list"
  sp_max_retries :: int
  sp_model :: string
  sp_max_tokens :: int
  sp_attempts :: int
  sp_status :: string
  sp_output :: string
  sp_error :: string
  sp_latency_ms :: int
  sp_input_tokens :: int
  sp_output_tokens :: int

text \<open>\<open>created_at\<close> and \<open>finished_at\<close> are \<open>None\<close> for the whole life of a record.\<close>

record run_record =
  rr_id :: string
  rr_tenant_id :: string
  rr_project_id :: "string option"
  rr_task :: string
  rr_status :: string
  rr_summary :: string
  rr_cancelled :: bool
  rr_runtime_run_id :: "string option"
  rr_steps :: "run_step list"

text \<open>What leaves the store: the record without its private fields.\<close>

record run_snapshot =
  sn_id :: string
  sn_status :: string
  sn_summary :: string
  sn_steps :: "run_step list"

definition snapshot :: "run_record \<Rightarrow> run_snapshot" where
  "snapshot r = \<lparr>sn_id = rr_id r, sn_status = rr_status r, sn_summary = rr_summary r, sn_steps = rr_steps r\<rparr>"

record run_store =
  ms_runs :: "string \<rightharpoonup> run_record"
  ms_idempotency :: "string \<times> string \<rightharpoonup> string"

definition empty_store :: run_store where
  "empty_store = \<lparr>ms_runs = Map.empty, ms_idempotency = Map.empty\<rparr>"

text \<open>A step specification, a dictionary whose optional entries may be missing or \<open>None\<close>.\<close>

record step_spec =
  sx_node_id :: string
  sx_prompt :: "string option"
  sx_role :: "string option"
  sx_depends_on :: "string list"
  sx_max_retries :: int
  sx_model :: "string option"
  sx_max_tokens :: "int option"

definition or_empty :: "string option \<Rightarrow> string" where
  "or_empty v = (case v of None \<Rightarrow> [] | Some s \<Rightarrow> s)"

definition new_step :: "step_spec \<Rightarrow> run_step" where
  "new_step spec =
     \<lparr>sp_node_id = sx_node_id spec, sp_prompt = or_empty (sx_prompt spec), sp_role = or_empty (sx_role spec),
      sp_depends_on = sx_depends_on spec, sp_max_retries = sx_max_retries spec,
      sp_model = or_empty (sx_model spec),
      sp_max_tokens = (case sx_max_tokens spec of None \<Rightarrow> 0 | Some n \<Rightarrow> n),
      sp_attempts = 0, sp_status = ''queued'', sp_output = [], sp_error = [], sp_latency_ms = 0,
      sp_input_tokens = 0, sp_output_tokens = 0\<rparr>"

definition terminal_status :: "string \<Rightarrow> bool" where
  "terminal_status s \<longleftrightarrow> s \<in> {''succeeded'', ''failed'', ''cancelled''}"

subsection \<open>Requests\<close>

definition new_record ::
  "string \<Rightarrow> string \<Rightarrow> string \<Rightarrow> string option \<Rightarrow> step_spec list \<Rightarrow> run_record" where
  "new_record run_id tenant_id task project_id step_specs =
     \<lparr>rr_id = run_id, rr_tenant_id = tenant_id, rr_project_id = project_id, rr_task = task,
      rr_status = ''queued'', rr_summary = ''queued for execution'', rr_cancelled = False,
      rr_runtime_run_id = None, rr_steps = map new_step step_specs\<rparr>"

text \<open>\<open>None\<close> is the \<open>KeyError\<close> of an index entry without its record.\<close>

definition store_submit ::
  "string \<Rightarrow> string \<Rightarrow> string \<Rightarrow> string option \<Rightarrow> string \<Rightarrow> step_spec list \<Rightarrow> run_store \<Rightarrow>
   (run_snapshot \<times> bool) option \<times> run_store" where
  "store_submit run_id tenant_id task project_id idempotency_key step_specs S =
     (let key = (tenant_id, idempotency_key);
          existing_id = or_empty (ms_idempotency S key)
      in if existing_id \<noteq> [] then
           (map_option (\<lambda>r. (snapshot r, False)) (ms_runs S existing_id), S)
         else
           let r = new_record run_id tenant_id task project_id step_specs
           in (Some (snapshot r, True),
               S\<lparr>ms_runs := (ms_runs S)(run_id \<mapsto> r), ms_idempotency := (ms_idempotency S)(key \<mapsto> run_id)\<rparr>))"

text \<open>\<open>record and record["tenant_id"] == tenant_id\<close>\<close>

definition owned :: "string \<Rightarrow> string \<Rightarrow> run_store \<Rightarrow> run_record option" where
  "owned tenant_id run_id S =
     (case ms_runs S run_id of None \<Rightarrow> None
      | Some r \<Rightarrow> if rr_tenant_id r = tenant_id then Some r else None)"

definition store_get :: "string \<Rightarrow> string \<Rightarrow> run_store \<Rightarrow> run_snapshot option" where
  "store_get tenant_id run_id S = map_option snapshot (owned tenant_id run_id S)"

definition store_runtime_run_id :: "string \<Rightarrow> string \<Rightarrow> run_store \<Rightarrow> string option" where
  "store_runtime_run_id tenant_id run_id S = Option.bind (owned tenant_id run_id S) rr_runtime_run_id"

definition store_project_id :: "string \<Rightarrow> string \<Rightarrow> run_store \<Rightarrow> string option" where
  "store_project_id tenant_id run_id S = Option.bind (owned tenant_id run_id S) rr_project_id"

definition cancelled_record :: "run_record \<Rightarrow> run_record" where
  "cancelled_record r =
     (if \<not> terminal_status (rr_status r) then
        r\<lparr>rr_cancelled := True, rr_status := ''cancelled'', rr_summary := ''cancelled by API request'',
          rr_steps := map (\<lambda>s. if sp_status s \<in> {''queued'', ''running''} then s\<lparr>sp_status := ''cancelled''\<rparr> else s)
                        (rr_steps r)\<rparr>
      else r)"

definition store_cancel :: "string \<Rightarrow> string \<Rightarrow> run_store \<Rightarrow> run_snapshot option \<times> run_store" where
  "store_cancel tenant_id run_id S =
     (case owned tenant_id run_id S of
        None \<Rightarrow> (None, S)
      | Some r \<Rightarrow> (Some (snapshot (cancelled_record r)),
                    S\<lparr>ms_runs := (ms_runs S)(run_id \<mapsto> cancelled_record r)\<rparr>))"

subsection \<open>Execution\<close>

text \<open>
  The guard of every method of the executor, \<open>not record or record["tenant_id"] != tenant_id or
  record["cancelled"]\<close>, and the update behind it; \<open>None\<close> is a \<open>False\<close> of the inner guard.
\<close>

definition update_live ::
  "(run_record \<Rightarrow> run_record option) \<Rightarrow> string \<Rightarrow> string \<Rightarrow> run_store \<Rightarrow> bool \<times> run_store" where
  "update_live f tenant_id run_id S =
     (case owned tenant_id run_id S of
        None \<Rightarrow> (False, S)
      | Some r \<Rightarrow>
          if rr_cancelled r then (False, S)
          else case f r of None \<Rightarrow> (False, S)
               | Some r' \<Rightarrow> (True, S\<lparr>ms_runs := (ms_runs S)(run_id \<mapsto> r')\<rparr>))"

definition store_set_runtime_run_id :: "string \<Rightarrow> string \<Rightarrow> string \<Rightarrow> run_store \<Rightarrow> bool \<times> run_store" where
  "store_set_runtime_run_id runtime_run_id = update_live (\<lambda>r. Some (r\<lparr>rr_runtime_run_id := Some runtime_run_id\<rparr>))"

definition store_start :: "string \<Rightarrow> string \<Rightarrow> run_store \<Rightarrow> bool \<times> run_store" where
  "store_start = update_live (\<lambda>r. Some (r\<lparr>rr_status := ''running'', rr_summary := ''execution running''\<rparr>))"

text \<open>\<open>position\<close> is an index of the steps of the run, as every caller takes it from them.\<close>

definition store_start_step :: "nat \<Rightarrow> string \<Rightarrow> string \<Rightarrow> run_store \<Rightarrow> bool \<times> run_store" where
  "store_start_step position = update_live (\<lambda>r.
     let s = rr_steps r ! position in
     if sp_status s \<notin> {''queued'', ''failed''} then None
     else Some (r\<lparr>rr_steps := (rr_steps r)[position :=
       s\<lparr>sp_status := ''running'', sp_attempts := sp_attempts s + 1, sp_error := []\<rparr>]\<rparr>))"

definition store_succeed_step ::
  "nat \<Rightarrow> string option \<Rightarrow> int \<Rightarrow> int \<Rightarrow> int \<Rightarrow> string \<Rightarrow> string \<Rightarrow> run_store \<Rightarrow> bool \<times> run_store" where
  "store_succeed_step position output latency_ms input_tokens output_tokens = update_live (\<lambda>r.
     let s = rr_steps r ! position;
         text = (if or_empty output = [] then ''mock execution completed step '' @ sp_node_id s else or_empty output)
     in Some (r\<lparr>rr_steps := (rr_steps r)[position :=
       s\<lparr>sp_status := ''succeeded'', sp_output := text, sp_latency_ms := latency_ms,
         sp_input_tokens := input_tokens, sp_output_tokens := output_tokens\<rparr>]\<rparr>))"

definition store_fail_step :: "nat \<Rightarrow> string \<Rightarrow> string \<Rightarrow> string \<Rightarrow> run_store \<Rightarrow> bool \<times> run_store" where
  "store_fail_step position error = update_live (\<lambda>r.
     Some (r\<lparr>rr_steps := (rr_steps r)[position :=
       (rr_steps r ! position)\<lparr>sp_status := ''failed'', sp_error := error\<rparr>]\<rparr>))"

definition store_succeed :: "string \<Rightarrow> string \<Rightarrow> run_store \<Rightarrow> bool \<times> run_store" where
  "store_succeed = update_live (\<lambda>r. Some (r\<lparr>rr_status := ''succeeded'', rr_summary := ''execution completed''\<rparr>))"

definition store_fail :: "string \<Rightarrow> string \<Rightarrow> string \<Rightarrow> run_store \<Rightarrow> bool \<times> run_store" where
  "store_fail error = update_live (\<lambda>r.
     Some (r\<lparr>rr_status := ''failed'', rr_summary := error,
       rr_steps := map (\<lambda>s. if sp_status s = ''queued'' then s\<lparr>sp_status := ''cancelled''\<rparr> else s) (rr_steps r)\<rparr>))"

subsection \<open>What every step of the store keeps\<close>

text \<open>One step of the store by anybody: a request of the API or a method called by an executor.\<close>

inductive store_step :: "run_store \<Rightarrow> run_store \<Rightarrow> bool" for S where
  submit: "run_id \<noteq> [] \<Longrightarrow> ms_runs S run_id = None \<Longrightarrow>
    store_step S (snd (store_submit run_id tenant task project key specs S))"
| cancel: "store_step S (snd (store_cancel tenant run_id S))"
| set_runtime: "store_step S (snd (store_set_runtime_run_id runtime tenant run_id S))"
| start: "store_step S (snd (store_start tenant run_id S))"
| start_step: "store_step S (snd (store_start_step position tenant run_id S))"
| succeed_step: "store_step S (snd (store_succeed_step position answer latency in_tokens out_tokens tenant run_id S))"
| fail_step: "store_step S (snd (store_fail_step position error tenant run_id S))"
| succeed: "store_step S (snd (store_succeed tenant run_id S))"
| fail: "store_step S (snd (store_fail error tenant run_id S))"

text \<open>
  The records are filed under their ids, the index leads to records of its tenant, statuses are words of
  the five, and a run is cancelled exactly when it says so.
\<close>

definition status_word :: "string \<Rightarrow> bool" where
  "status_word s \<longleftrightarrow> s \<in> {''queued'', ''running'', ''succeeded'', ''failed'', ''cancelled''}"

definition record_ok :: "string \<Rightarrow> run_record \<Rightarrow> bool" where
  "record_ok i r \<longleftrightarrow> i \<noteq> [] \<and> rr_id r = i \<and> status_word (rr_status r) \<and>
     (rr_cancelled r \<longleftrightarrow> rr_status r = ''cancelled'') \<and> (\<forall>s \<in> set (rr_steps r). status_word (sp_status s))"

definition store_ok :: "run_store \<Rightarrow> bool" where
  "store_ok S \<longleftrightarrow>
     (\<forall>i r. ms_runs S i = Some r \<longrightarrow> record_ok i r) \<and>
     (\<forall>tenant key i. ms_idempotency S (tenant, key) = Some i \<longrightarrow>
        (\<exists>r. ms_runs S i = Some r \<and> rr_tenant_id r = tenant))"

lemma store_ok_empty: "store_ok empty_store"
  by (simp add: store_ok_def empty_store_def)

lemma store_okD:
  assumes "store_ok S"
  shows "ms_runs S i = Some r \<Longrightarrow> record_ok i r"
    and "ms_idempotency S (tenant, key) = Some i \<Longrightarrow> \<exists>r. ms_runs S i = Some r \<and> rr_tenant_id r = tenant"
  using assms by (simp_all add: store_ok_def)

lemma store_okI:
  assumes "\<And>i r. ms_runs S i = Some r \<Longrightarrow> record_ok i r"
    and "\<And>tenant key i. ms_idempotency S (tenant, key) = Some i \<Longrightarrow>
      \<exists>r. ms_runs S i = Some r \<and> rr_tenant_id r = tenant"
  shows "store_ok S"
  using assms by (simp add: store_ok_def)

lemma store_ok_update:
  assumes "store_ok S" and "ms_runs S i = Some r" and "record_ok i r'" and "rr_tenant_id r' = rr_tenant_id r"
  shows "store_ok (S\<lparr>ms_runs := (ms_runs S)(i \<mapsto> r')\<rparr>)"
proof (rule store_okI)
  fix tenant key j
  assume "ms_idempotency (S\<lparr>ms_runs := (ms_runs S)(i \<mapsto> r')\<rparr>) (tenant, key) = Some j"
  then obtain q where "ms_runs S j = Some q" "rr_tenant_id q = tenant"
    using store_okD(2) [OF assms(1), of tenant key j] by auto
  then show "\<exists>q. ms_runs (S\<lparr>ms_runs := (ms_runs S)(i \<mapsto> r')\<rparr>) j = Some q \<and> rr_tenant_id q = tenant"
    using assms(2,4) by auto
qed (use assms(3) store_okD(1) [OF assms(1)] in \<open>auto split: if_splits\<close>)

lemma store_ok_fresh:
  assumes "store_ok S" and "ms_runs S i = None"
  shows "ms_idempotency S k \<noteq> Some i"
  using store_okD(2) [OF assms(1)] assms(2) by (cases k) fastforce

text \<open>Filing a new record under a fresh id, for a key of its tenant.\<close>

lemma store_ok_insert:
  assumes "store_ok S" and "ms_runs S i = None" and "record_ok i r" and "rr_tenant_id r = tenant"
  shows "store_ok (S\<lparr>ms_runs := (ms_runs S)(i \<mapsto> r), ms_idempotency := (ms_idempotency S)((tenant, key) \<mapsto> i)\<rparr>)"
    (is "store_ok ?S")
proof (rule store_okI)
  fix t k j assume "ms_idempotency ?S (t, k) = Some j"
  then show "\<exists>q. ms_runs ?S j = Some q \<and> rr_tenant_id q = t"
    using store_okD(2) [OF assms(1), of t k j] store_ok_fresh [OF assms(1,2), of "(t, k)"] assms(4)
    by (auto split: if_splits)
qed (use assms(3) store_okD(1) [OF assms(1)] in \<open>auto split: if_splits\<close>)

lemma update_live_ok:
  assumes "store_ok S"
    and "\<And>r r'. f r = Some r' \<Longrightarrow> record_ok run_id r \<Longrightarrow> \<not> rr_cancelled r \<Longrightarrow>
      record_ok run_id r' \<and> rr_tenant_id r' = rr_tenant_id r"
  shows "store_ok (snd (update_live f tenant run_id S))"
proof -
  have "record_ok run_id r" if "ms_runs S run_id = Some r" for r
    using assms(1) that by (simp add: store_ok_def)
  then show ?thesis
    using assms store_ok_update [OF assms(1)]
    by (auto simp: update_live_def owned_def split: option.splits)
qed

lemma new_record_ok: "run_id \<noteq> [] \<Longrightarrow> record_ok run_id (new_record run_id tenant task project specs)"
  by (auto simp: record_ok_def new_record_def new_step_def status_word_def)

lemma cancelled_record_ok: "record_ok i r \<Longrightarrow> record_ok i (cancelled_record r)"
  by (auto simp: record_ok_def cancelled_record_def status_word_def terminal_status_def)

lemma cancelled_record_tenant [simp]: "rr_tenant_id (cancelled_record r) = rr_tenant_id r"
  by (simp add: cancelled_record_def)

lemma set_list_update_word:
  assumes "\<forall>s \<in> set xs. status_word (sp_status s)" and "status_word (sp_status x)"
  shows "\<forall>s \<in> set (xs[i := x]). status_word (sp_status s)"
  using assms set_update_subset_insert [of xs i x] by auto

lemma store_step_ok: "store_step S S' \<Longrightarrow> store_ok S \<Longrightarrow> store_ok S'"
proof (induction rule: store_step.induct)
  case (submit run_id tenant task project key specs)
  have "rr_tenant_id (new_record run_id tenant task project specs) = tenant" by (simp add: new_record_def)
  with store_ok_insert [OF submit(3,2) new_record_ok [OF submit(1)]] submit(3) show ?case
    by (simp add: store_submit_def Let_def)
next
  case (cancel tenant run_id)
  then show ?case
    using store_ok_update [OF cancel] cancelled_record_ok store_okD(1) [OF cancel]
    by (auto simp: store_cancel_def owned_def split: option.splits)
next
  case (start_step position tenant run_id)
  then show ?case unfolding store_start_step_def
    by (rule update_live_ok)
       (auto simp: record_ok_def Let_def status_word_def split: if_splits
          dest!: set_update_subset_insert [THEN subsetD])
next
  case (succeed_step position answer latency in_tokens out_tokens tenant run_id)
  then show ?case unfolding store_succeed_step_def
    by (rule update_live_ok)
       (auto simp: record_ok_def Let_def status_word_def dest!: set_update_subset_insert [THEN subsetD])
next
  case (fail_step position error tenant run_id)
  then show ?case unfolding store_fail_step_def
    by (rule update_live_ok)
       (auto simp: record_ok_def status_word_def dest!: set_update_subset_insert [THEN subsetD])
qed (auto simp: store_set_runtime_run_id_def store_start_def store_succeed_def store_fail_def record_ok_def
    status_word_def intro!: update_live_ok)

text \<open>The index only grows, runs never disappear or change hands, and a cancelled run is frozen.\<close>

lemma update_live_frame:
  "ms_idempotency (snd (update_live f tenant run_id S)) = ms_idempotency S"
  "ms_runs S i = Some r \<Longrightarrow> rr_cancelled r \<or> rr_tenant_id r \<noteq> tenant \<or> i \<noteq> run_id \<Longrightarrow>
     ms_runs (snd (update_live f tenant run_id S)) i = Some r"
  by (auto simp: update_live_def owned_def split: option.splits)

lemma index_nonempty:
  assumes "store_ok S" and "ms_idempotency S k = Some i"
  shows "i \<noteq> [] \<and> (\<exists>r. ms_runs S i = Some r \<and> rr_id r = i)"
proof -
  obtain tenant key where "k = (tenant, key)" by fastforce
  with store_okD(2) [OF assms(1), of tenant key i] assms(2) obtain r where "ms_runs S i = Some r" by auto
  with store_okD(1) [OF assms(1) this] show ?thesis by (simp add: record_ok_def)
qed

lemma store_submit_frame:
  assumes "store_ok S"
  shows "ms_idempotency S k = Some i \<Longrightarrow>
      ms_idempotency (snd (store_submit run_id tenant task project key specs S)) k = Some i"
    and "ms_runs S run_id = None \<Longrightarrow> ms_runs S i = Some r \<Longrightarrow>
      ms_runs (snd (store_submit run_id tenant task project key specs S)) i = Some r"
proof -
  note index_nonempty [OF assms]
  then show "ms_idempotency S k = Some i \<Longrightarrow>
      ms_idempotency (snd (store_submit run_id tenant task project key specs S)) k = Some i"
    by (auto simp: store_submit_def Let_def or_empty_def split: option.splits)
  show "ms_runs S run_id = None \<Longrightarrow> ms_runs S i = Some r \<Longrightarrow>
      ms_runs (snd (store_submit run_id tenant task project key specs S)) i = Some r"
    by (auto simp: store_submit_def Let_def)
qed

lemma store_step_index:
  "store_step S S' \<Longrightarrow> store_ok S \<Longrightarrow> ms_idempotency S k = Some i \<Longrightarrow> ms_idempotency S' k = Some i"
  by (induction rule: store_step.induct)
     (auto simp: store_submit_frame store_cancel_def store_set_runtime_run_id_def store_start_def store_start_step_def
        store_succeed_step_def store_fail_step_def store_succeed_def store_fail_def update_live_frame
        split: option.splits)

lemma store_step_frozen:
  assumes "store_step S S'" and "store_ok S" and "ms_runs S i = Some r" and "rr_cancelled r"
  shows "ms_runs S' i = Some r"
  using assms(1)
proof cases
  case (submit run_id tenant task project key specs)
  with store_submit_frame(2) [OF assms(2) submit(3) assms(3)] show ?thesis by simp
next
  case (cancel tenant run_id)
  have "cancelled_record r = r"
    using store_okD(1) [OF assms(2,3)] assms(4) by (simp add: cancelled_record_def record_ok_def terminal_status_def)
  with assms(3) cancel show ?thesis by (auto simp: store_cancel_def owned_def split: option.splits)
qed (use update_live_frame(2) [OF assms(3)] assms(4) in \<open>auto simp: store_set_runtime_run_id_def store_start_def
      store_start_step_def store_succeed_step_def store_fail_step_def store_succeed_def store_fail_def\<close>)

subsection \<open>The contract of a ledger\<close>

text \<open>
  What the operator relies on behind the HTTP interface: a request is filed under a key, the key of a
  request that was filed leads to its run for ever, and a repeated request changes nothing, unless it cannot be sent. From it follows
  that a key starts at most one run, however requests and other steps interleave.
\<close>

locale run_ledger =
  fixes ok :: "'s \<Rightarrow> bool" and step :: "'s \<Rightarrow> 's \<Rightarrow> bool" and lookup :: "'s \<Rightarrow> 'k \<Rightarrow> string option"
    and key :: "'q \<Rightarrow> 'k" and sendable :: "'q \<Rightarrow> bool" and fresh :: "'q \<Rightarrow> 's \<Rightarrow> bool"
    and submit :: "'q \<Rightarrow> 's \<Rightarrow> (string \<times> bool) option \<times> 's"
  assumes fresh_sendable: "fresh q S \<Longrightarrow> sendable q"
    and submit_known: "ok S \<Longrightarrow> sendable q \<Longrightarrow> lookup S (key q) = Some i \<Longrightarrow> submit q S = (Some (i, False), S)"
    and submit_new: "ok S \<Longrightarrow> lookup S (key q) = None \<Longrightarrow> fresh q S \<Longrightarrow>
      \<exists>i S'. submit q S = (Some (i, True), S') \<and> lookup S' (key q) = Some i"
    and submit_step: "ok S \<Longrightarrow> fresh q S \<Longrightarrow> step S (snd (submit q S))"
    and step_ok: "step S S' \<Longrightarrow> ok S \<Longrightarrow> ok S'"
    and step_lookup: "step S S' \<Longrightarrow> ok S \<Longrightarrow> lookup S k = Some i \<Longrightarrow> lookup S' k = Some i"
begin

lemma steps_lookup:
  assumes "step\<^sup>*\<^sup>* S S'" and "ok S"
  shows "ok S' \<and> (\<forall>k i. lookup S k = Some i \<longrightarrow> lookup S' k = Some i)"
  using assms by (induction rule: rtranclp_induct) (auto dest: step_ok step_lookup)

text \<open>A submission is filed, and repeating it later, with whatever else it says, finds the same run.\<close>

lemma submitted_found:
  assumes "ok S" and "fresh q S" and "submit q S = (Some (i, created), S')"
  shows "ok S' \<and> lookup S' (key q) = Some i"
proof (cases "lookup S (key q)")
  case None
  with submit_new [OF assms(1) None assms(2)] submit_step [OF assms(1,2)] assms show ?thesis
    by (auto dest: step_ok)
next
  case (Some j)
  with submit_known [OF assms(1) fresh_sendable [OF assms(2)] Some] assms show ?thesis by simp
qed

lemma resubmitted:
  assumes "ok S" and "fresh q S" and "submit q S = (Some (i, created), S')" and "step\<^sup>*\<^sup>* S' S''"
    and "key q' = key q" and "sendable q'"
  shows "submit q' S'' = (Some (i, False), S'')"
  using submitted_found [OF assms(1-3)] steps_lookup [OF assms(4)] assms(5,6) by (intro submit_known) auto

end

text \<open>The requests of the in-memory store: the id it would use, tenant, task, project, key and steps.\<close>

type_synonym store_request = "string \<times> string \<times> string \<times> string option \<times> string \<times> step_spec list"

definition request_key :: "store_request \<Rightarrow> string \<times> string" where
  "request_key q = (case q of (_, tenant, _, _, key, _) \<Rightarrow> (tenant, key))"

definition request_fresh :: "store_request \<Rightarrow> run_store \<Rightarrow> bool" where
  "request_fresh q S \<longleftrightarrow> fst q \<noteq> [] \<and> ms_runs S (fst q) = None"

definition file_request :: "store_request \<Rightarrow> run_store \<Rightarrow> (string \<times> bool) option \<times> run_store" where
  "file_request q S =
     (case q of (run_id, tenant, task, project, key, specs) \<Rightarrow>
        apfst (map_option (apfst sn_id)) (store_submit run_id tenant task project key specs S))"

interpretation memory_ledger:
  run_ledger store_ok store_step ms_idempotency request_key "\<lambda>_. True" request_fresh file_request
proof (unfold_locales, goal_cases)
  case (2 S q i)
  with index_nonempty [OF 2(1,3)] show ?case
    by (auto simp: file_request_def request_key_def store_submit_def or_empty_def snapshot_def split: prod.splits)
next
  case (3 S q)
  then show ?case
    by (auto simp: file_request_def request_key_def store_submit_def or_empty_def snapshot_def new_record_def Let_def
        split: prod.splits)
next
  case (4 S q)
  then show ?case
    using store_step.submit [of "fst q" S]
    by (auto simp: file_request_def request_fresh_def apfst_def map_prod_def split: prod.splits) (metis snd_conv)
next
  case (5 S S')
  then show ?case by (rule store_step_ok)
next
  case (6 S S' k i)
  then show ?case by (rule store_step_index)
qed simp

text \<open>A cancelled run stays as the cancellation left it.\<close>

lemma store_steps_frozen:
  assumes "store_step\<^sup>*\<^sup>* S S'" and "store_ok S" and "ms_runs S i = Some r" and "rr_cancelled r"
  shows "ms_runs S' i = Some r"
  using assms(1)
proof (induction rule: rtranclp_induct)
  case (step S1 S2)
  have "store_ok S1" using memory_ledger.steps_lookup [OF step(1) assms(2)] ..
  from store_step_frozen [OF step(2) this step(3) assms(4)] show ?case .
qed (use assms(3) in simp)

end
