(* ===== verification/Backend_Dag.thy ===== *)
theory Backend_Dag
  imports Dag_Validation "HOL-Library.While_Combinator"
begin

text \<open>
  \<open>_topological_order\<close> of the FastAPI backend (src/backend/app/main.py): the second checker of a DAG,
  which the backend applies to a submission before it accepts it and again before it executes it. It
  counts the unmet dependencies of every step and repeatedly takes a step that has none. A step is its
  \<open>node_id\<close> with its \<open>depends_on\<close>. The \<open>while\<close> loop is \<open>while_option\<close>, so that not returning would be the
  value \<open>None\<close>; the loop is proved to end.
\<close>

subsection \<open>The code\<close>

type_synonym step_deps = "(string \<times> string list) list"

text \<open>The dictionary \<open>positions\<close>; \<open>None\<close> is the early return for a repeated \<open>node_id\<close>.\<close>

fun positions_of :: "step_deps \<Rightarrow> nat \<Rightarrow> (string \<rightharpoonup> nat) \<Rightarrow> (string \<rightharpoonup> nat) option" where
  "positions_of [] position positions = Some positions"
| "positions_of ((node_id, deps) # steps) position positions =
     (if positions node_id \<noteq> None then None
      else positions_of steps (Suc position) (positions(node_id \<mapsto> position)))"

text \<open>The lists \<open>indegree\<close> and \<open>dependents\<close>; \<open>None\<close> is the early return for an unknown dependency.\<close>

fun link_dependencies ::
  "(string \<rightharpoonup> nat) \<Rightarrow> nat \<Rightarrow> string list \<Rightarrow> int list \<times> nat list list \<Rightarrow> (int list \<times> nat list list) option" where
  "link_dependencies positions position [] g = Some g"
| "link_dependencies positions position (dependency # deps) (indegree, dependents) =
     (case positions dependency of
        None \<Rightarrow> None
      | Some p \<Rightarrow> link_dependencies positions position deps
          (indegree[position := indegree ! position + 1], dependents[p := dependents ! p @ [position]]))"

fun link_steps ::
  "(string \<rightharpoonup> nat) \<Rightarrow> nat \<Rightarrow> step_deps \<Rightarrow> int list \<times> nat list list \<Rightarrow> (int list \<times> nat list list) option" where
  "link_steps positions position [] g = Some g"
| "link_steps positions position ((node_id, deps) # steps) g =
     (case link_dependencies positions position deps g of
        None \<Rightarrow> None
      | Some g' \<Rightarrow> link_steps positions (Suc position) steps g')"

text \<open>One turn of the \<open>for dependent\<close> loop, and of the \<open>while ready\<close> loop.\<close>

definition release_dependent :: "int list \<times> nat list \<Rightarrow> nat \<Rightarrow> int list \<times> nat list" where
  "release_dependent s dependent =
     (case s of (indegree, ready) \<Rightarrow>
        let indegree' = indegree[dependent := indegree ! dependent - 1]
        in (indegree', if indegree' ! dependent = 0 then ready @ [dependent] else ready))"

definition take_ready :: "nat list list \<Rightarrow> nat list \<times> int list \<times> nat list \<Rightarrow> nat list \<times> int list \<times> nat list" where
  "take_ready dependents s =
     (case s of (ready, indegree, order) \<Rightarrow>
        let position = hd ready;
            (indegree', ready') = foldl release_dependent (indegree, tl ready) (dependents ! position)
        in (ready', indegree', order @ [position]))"

text \<open>The outer \<open>option\<close> says whether the call returns, the inner one is the result of the code.\<close>

definition topological_order :: "step_deps \<Rightarrow> nat list option option" where
  "topological_order steps =
     (case positions_of steps 0 Map.empty of
        None \<Rightarrow> Some None
      | Some positions \<Rightarrow>
          (case link_steps positions 0 steps (replicate (length steps) 0, replicate (length steps) []) of
             None \<Rightarrow> Some None
           | Some (indegree, dependents) \<Rightarrow>
               (case while_option (\<lambda>(ready, _, _). ready \<noteq> []) (take_ready dependents)
                       (filter (\<lambda>p. indegree ! p = 0) [0..<length steps], indegree, []) of
                  None \<Rightarrow> None
                | Some (_, _, order) \<Rightarrow> Some (if length order = length steps then Some order else None))))"

subsection \<open>The loop on a graph of positions\<close>

text \<open>
  An edge \<open>(q, p)\<close> says that step \<open>q\<close> depends on step \<open>p\<close>; \<open>es\<close> lists the edges in the order the code
  meets them.
\<close>

definition unmet :: "(nat \<times> nat) list \<Rightarrow> nat set \<Rightarrow> nat \<Rightarrow> nat" where
  "unmet es met q = length (filter (\<lambda>e. fst e = q \<and> snd e \<notin> met) es)"

definition dependents_in :: "(nat \<times> nat) list \<Rightarrow> nat \<Rightarrow> nat list" where
  "dependents_in es p = map fst (filter (\<lambda>e. snd e = p) es)"

lemma unmet_add:
  "p \<notin> met \<Longrightarrow> unmet es met q = unmet es (insert p met) q + count_list (dependents_in es p) q"
  unfolding unmet_def dependents_in_def by (induction es) auto

lemma unmet_zero: "unmet es met q = 0 \<longleftrightarrow> (\<forall>p. (q, p) \<in> set es \<longrightarrow> p \<in> met)"
  by (auto simp: unmet_def filter_empty_conv)

text \<open>Between two turns: who is ready, and who is still counted.\<close>

definition ready_inv :: "nat \<Rightarrow> (nat \<Rightarrow> int) \<Rightarrow> nat list \<Rightarrow> int list \<Rightarrow> nat list \<Rightarrow> bool" where
  "ready_inv n cnt ready indegree order \<longleftrightarrow>
     length indegree = n \<and> distinct (order @ ready) \<and> set (order @ ready) \<subseteq> {..<n} \<and>
     (\<forall>q < n. indegree ! q = cnt q) \<and> (\<forall>q < n. q \<in> set (order @ ready) \<longleftrightarrow> indegree ! q = 0)"

lemma release_dependents:
  assumes "ready_inv n (\<lambda>q. int (c q) + int (count_list ds q)) ready indegree order"
    and "set ds \<subseteq> {..<n}"
  shows "\<exists>ready' indegree'. foldl release_dependent (indegree, ready) ds = (indegree', ready') \<and>
     ready_inv n (\<lambda>q. int (c q)) ready' indegree' order"
  using assms
proof (induction ds arbitrary: indegree ready)
  case Nil
  then show ?case by (simp add: ready_inv_def)
next
  case (Cons d ds)
  let ?indegree = "indegree[d := indegree ! d - 1]"
  let ?ready = "if ?indegree ! d = 0 then ready @ [d] else ready"
  from Cons.prems have d: "d < n" "length indegree = n" "indegree ! d = int (c d) + int (count_list ds d) + 1"
    by (auto simp: ready_inv_def)
  then have "d \<notin> set (order @ ready)" using Cons.prems(1) by (auto simp: ready_inv_def)
  with Cons.prems(1) d have "ready_inv n (\<lambda>q. int (c q) + int (count_list ds q)) ?ready ?indegree order"
    unfolding ready_inv_def by (auto simp: nth_list_update split: if_splits)
  from Cons.IH [OF this] Cons.prems(2) show ?case
    by (simp add: release_dependent_def Let_def)
qed

text \<open>The loop invariant: moreover every step in the order comes after all it depends on.\<close>

definition order_inv :: "nat \<Rightarrow> (nat \<times> nat) list \<Rightarrow> nat list \<times> int list \<times> nat list \<Rightarrow> bool" where
  "order_inv n es s \<longleftrightarrow>
     (case s of (ready, indegree, order) \<Rightarrow>
        ready_inv n (\<lambda>q. int (unmet es (set order) q)) ready indegree order \<and>
        (\<forall>ys q zs p. order = ys @ q # zs \<longrightarrow> (q, p) \<in> set es \<longrightarrow> p \<in> set ys))"

lemma order_snoc:
  assumes "\<And>ys x zs p. order = ys @ x # zs \<Longrightarrow> (x, p) \<in> E \<Longrightarrow> p \<in> set ys"
    and "\<And>p. (q, p) \<in> E \<Longrightarrow> p \<in> set order"
    and "order @ [q] = ys @ x # zs" and "(x, p) \<in> E"
  shows "p \<in> set ys"
proof (cases zs rule: rev_cases)
  case Nil
  with assms(2-4) show ?thesis by simp
next
  case (snoc zs' z)
  with assms(3) have "order = ys @ x # zs'" by simp
  with assms(1,4) show ?thesis by blast
qed

lemma take_ready_inv:
  assumes "order_inv n es (ready, indegree, order)" and "ready \<noteq> []"
    and es: "set es \<subseteq> {..<n} \<times> {..<n}" and dep: "\<And>p. p < n \<Longrightarrow> dependents ! p = dependents_in es p"
  shows "\<exists>ready' indegree'. take_ready dependents (ready, indegree, order) = (ready', indegree', order @ [hd ready]) \<and>
     order_inv n es (ready', indegree', order @ [hd ready]) \<and> length order < n"
proof -
  obtain p rest where ready: "ready = p # rest" using assms(2) by (cases ready) auto
  from assms(1) have inv: "ready_inv n (\<lambda>q. int (unmet es (set order) q)) ready indegree order"
    and sched: "\<And>ys q zs p. order = ys @ q # zs \<Longrightarrow> (q, p) \<in> set es \<Longrightarrow> p \<in> set ys"
    unfolding order_inv_def by blast+
  then have p: "p < n" "p \<notin> set order" by (auto simp: ready ready_inv_def)
  from inv p(1) have "unmet es (set order) p = 0" by (auto simp: ready ready_inv_def)
  then have met: "(p, d) \<in> set es \<Longrightarrow> d \<in> set order" for d by (simp add: unmet_zero)
  have "distinct (order @ [p])" "set (order @ [p]) \<subseteq> {..<n}" using inv by (auto simp: ready ready_inv_def)
  then have "length (order @ [p]) \<le> n"
    by (metis card_lessThan card_mono distinct_card finite_lessThan)
  then have len: "length order < n" by simp
  have "ready_inv n (\<lambda>q. int (unmet es (set (order @ [p])) q) + int (count_list (dependents ! p) q))
      rest indegree (order @ [p])"
    using inv by (simp add: ready_inv_def ready dep [OF p(1)] unmet_add [OF p(2)] insert_commute)
  moreover have "set (dependents ! p) \<subseteq> {..<n}" using es by (auto simp: dep [OF p(1)] dependents_in_def)
  ultimately obtain ready' indegree' where
    "foldl release_dependent (indegree, rest) (dependents ! p) = (indegree', ready')"
    and "ready_inv n (\<lambda>q. int (unmet es (set (order @ [p])) q)) ready' indegree' (order @ [p])"
    using release_dependents [of n "unmet es (set (order @ [p]))"] by blast
  moreover have "d \<in> set ys" if "order @ [p] = ys @ q # zs" "(q, d) \<in> set es" for ys q zs d
    by (rule order_snoc [of order "set es" p ys q zs]) (use sched met that in blast)+
  ultimately have "order_inv n es (ready', indegree', order @ [p])"
    and "foldl release_dependent (indegree, rest) (dependents ! p) = (indegree', ready')"
    unfolding order_inv_def by blast+
  then show ?thesis using len by (simp add: take_ready_def ready)
qed

text \<open>The loop ends, and what it leaves is complete exactly when the graph has no cycle.\<close>

lemma loop_ends:
  assumes "order_inv n es s0" and "set es \<subseteq> {..<n} \<times> {..<n}"
    and "\<And>p. p < n \<Longrightarrow> dependents ! p = dependents_in es p"
  shows "\<exists>indegree order. while_option (\<lambda>(ready, _, _). ready \<noteq> []) (take_ready dependents) s0 =
     Some ([], indegree, order) \<and> order_inv n es ([], indegree, order)"
proof -
  let ?b = "\<lambda>(ready, _, _). ready \<noteq> []"
  let ?R = "measure (\<lambda>(_, _, order). n - length order)"
  have step: "order_inv n es (take_ready dependents s) \<and> (take_ready dependents s, s) \<in> ?R"
    if "order_inv n es s" "?b s" for s :: "nat list \<times> int list \<times> nat list"
  proof -
    obtain ready indegree order where s: "s = (ready, indegree, order)" by (cases s)
    from take_ready_inv [OF that(1) [unfolded s] _ assms(2,3)] that(2) show ?thesis by (auto simp: s)
  qed
  have "\<exists>t. while_option ?b (take_ready dependents) s0 = Some t"
    by (rule wf_rel_while_option_Some [of ?R "order_inv n es"]) (use step assms(1) in auto)
  then obtain t where t: "while_option ?b (take_ready dependents) s0 = Some t" ..
  from while_option_stop [OF t] have "fst t = []" by (cases t) auto
  moreover have "order_inv n es t"
    by (rule while_option_rule [OF _ t, of "order_inv n es"]) (use step assms(1) in auto)
  ultimately show ?thesis using t by (cases t) auto
qed

lemma order_acyclic:
  assumes "distinct order" and "set order = {..<n}" and "E \<subseteq> {..<n} \<times> {..<n}"
    and "\<And>ys q zs p. order = ys @ q # zs \<Longrightarrow> (q, p) \<in> E \<Longrightarrow> p \<in> set ys"
  shows "acyclic E"
proof -
  let ?idx = "\<lambda>x. length (takeWhile (\<lambda>y. y \<noteq> x) order)"
  have "(p, q) \<in> measure ?idx" if "(q, p) \<in> E" for q p
  proof -
    from that assms(2,3) have "q \<in> set order" by auto
    then obtain ys zs where order: "order = ys @ q # zs" "q \<notin> set ys" by (meson split_list_first)
    with assms(4) that have p: "p \<in> set ys" by blast
    have "takeWhile (\<lambda>y. y \<noteq> q) order = ys"
      unfolding order(1) by (subst takeWhile_append2) (use order(2) in auto)
    moreover obtain us vs where "ys = us @ p # vs" "p \<notin> set us" using p by (meson split_list_first)
    then have "length (takeWhile (\<lambda>y. y \<noteq> p) order) < length ys"
      by (auto simp: order(1) takeWhile_append)
    ultimately show ?thesis by simp
  qed
  then have "E\<inverse> \<subseteq> measure ?idx" by auto
  then have "wf (E\<inverse>)" by (rule wf_subset [OF wf_measure])
  then show ?thesis by (metis wf_acyclic acyclic_converse)
qed

lemma order_complete:
  assumes "order_inv n es ([], indegree, order)" and "set es \<subseteq> {..<n} \<times> {..<n}"
  shows "length order = n \<longleftrightarrow> acyclic (set es)"
proof
  from assms(1) have ready: "ready_inv n (\<lambda>q. int (unmet es (set order) q)) [] indegree order"
    and sched: "\<And>ys q zs p. order = ys @ q # zs \<Longrightarrow> (q, p) \<in> set es \<Longrightarrow> p \<in> set ys"
    unfolding order_inv_def prod.case by blast+
  from ready have inv: "distinct order" "set order \<subseteq> {..<n}" by (simp_all add: ready_inv_def)
  have left: "unmet es (set order) q \<noteq> 0" if "q < n" "q \<notin> set order" for q
    using ready that by (simp add: ready_inv_def)
  {
    assume "length order = n"
    then have "set order = {..<n}"
      using inv by (metis card_lessThan card_subset_eq distinct_card finite_lessThan)
    from order_acyclic [OF inv(1) this assms(2)] sched show "acyclic (set es)" by metis
  }
  {
    assume "acyclic (set es)"
    then have wf: "wf ((set es)\<inverse>)" by (simp add: finite_acyclic_wf_converse)
    have "set order = {..<n}"
    proof (rule ccontr)
      assume "set order \<noteq> {..<n}"
      with inv(2) obtain x where x: "x \<in> {..<n} - set order" by auto
      from wf have "\<exists>q \<in> {..<n} - set order. \<forall>p. (p, q) \<in> (set es)\<inverse> \<longrightarrow> p \<notin> {..<n} - set order"
        unfolding wf_eq_minimal using x by (elim allE [of _ "{..<n} - set order"]) blast
      then obtain q where q: "q \<in> {..<n} - set order"
        and min: "\<And>p. (p, q) \<in> (set es)\<inverse> \<Longrightarrow> p \<notin> {..<n} - set order"
        by blast
      from left [of q] q obtain p where "(q, p) \<in> set es" "p \<notin> set order" by (auto simp: unmet_zero)
      with min assms(2) show False by auto
    qed
    with distinct_card [OF inv(1)] show "length order = n" by simp
  }
qed

subsection \<open>The graph of the steps\<close>

lemma positions_of_None:
  "positions_of steps i m0 = None \<longleftrightarrow> \<not> (distinct (map fst steps) \<and> dom m0 \<inter> fst ` set steps = {})"
  by (induction steps i m0 rule: positions_of.induct) (auto simp del: fun_upd_apply)

lemma positions_of_Some:
  "positions_of steps i m0 = Some m \<Longrightarrow>
     dom m = dom m0 \<union> fst ` set steps \<and> (\<forall>x \<in> dom m0. m x = m0 x) \<and>
     (\<forall>j < length steps. m (fst (steps ! j)) = Some (i + j))"
proof (induction steps i m0 rule: positions_of.induct)
  case (2 node_id deps steps position positions)
  then have fresh: "positions node_id = None" by (auto split: if_splits)
  with 2 have IH: "dom m = insert node_id (dom positions) \<union> fst ` set steps"
    "\<forall>x \<in> insert node_id (dom positions). m x = (positions(node_id \<mapsto> position)) x"
    "\<forall>j < length steps. m (fst (steps ! j)) = Some (Suc position + j)"
    by (simp_all del: fun_upd_apply)
  have "m (fst (((node_id, deps) # steps) ! j)) = Some (position + j)" if "j < Suc (length steps)" for j
    using IH(2,3) that by (cases j) auto
  moreover have "m x = positions x" if "x \<in> dom positions" for x
    using IH(2) that fresh by auto
  ultimately show ?case using IH(1) by simp
qed simp

fun edges_of :: "(string \<rightharpoonup> nat) \<Rightarrow> nat \<Rightarrow> step_deps \<Rightarrow> (nat \<times> nat) list" where
  "edges_of m i [] = []"
| "edges_of m i ((node_id, deps) # steps) = map (\<lambda>d. (i, the (m d))) deps @ edges_of m (Suc i) steps"

lemma edges_of_in:
  "(q, p) \<in> set (edges_of m i steps) \<longleftrightarrow>
     (\<exists>j < length steps. q = i + j \<and> (\<exists>d \<in> set (snd (steps ! j)). p = the (m d)))"
proof (induction m i steps rule: edges_of.induct)
  case (2 m i node_id deps steps)
  have "(\<exists>j < Suc (length steps). q = i + j \<and> (\<exists>d \<in> set (snd (((node_id, deps) # steps) ! j)). p = the (m d))) \<longleftrightarrow>
      (q = i \<and> (\<exists>d \<in> set deps. p = the (m d))) \<or>
      (\<exists>j < length steps. q = Suc i + j \<and> (\<exists>d \<in> set (snd (steps ! j)). p = the (m d)))"
    by (auto simp: less_Suc_eq_0_disj)
  then show ?case using 2 by auto
qed simp

text \<open>The two lists after the edges \<open>es\<close> have been entered.\<close>

definition graph_of :: "nat \<Rightarrow> (nat \<times> nat) list \<Rightarrow> int list \<times> nat list list \<Rightarrow> bool" where
  "graph_of n es g \<longleftrightarrow>
     (case g of (indegree, dependents) \<Rightarrow> length indegree = n \<and> length dependents = n \<and>
        (\<forall>q < n. indegree ! q = int (unmet es {} q) \<and> dependents ! q = dependents_in es q))"

lemma graph_of_edge:
  "graph_of n es (indegree, dependents) \<Longrightarrow> q < n \<Longrightarrow> p < n \<Longrightarrow>
     graph_of n (es @ [(q, p)]) (indegree[q := indegree ! q + 1], dependents[p := dependents ! p @ [q]])"
  by (auto simp: graph_of_def unmet_def dependents_in_def nth_list_update)

lemma link_dependencies_graph:
  assumes "graph_of n es g" and "i < n" and "ran m \<subseteq> {..<n}"
  shows "if \<forall>d \<in> set deps. m d \<noteq> None
     then \<exists>g'. link_dependencies m i deps g = Some g' \<and> graph_of n (es @ map (\<lambda>d. (i, the (m d))) deps) g'
     else link_dependencies m i deps g = None"
  using assms(1)
proof (induction deps arbitrary: es g)
  case (Cons d deps)
  obtain indegree dependents where g: "g = (indegree, dependents)" by (cases g)
  show ?case
  proof (cases "m d")
    case (Some p)
    then have "p < n" using assms(3) by (auto simp: ran_def)
    from Cons.IH [OF graph_of_edge [OF Cons.prems [unfolded g] assms(2) this]] Some show ?thesis
      by (simp add: g split: if_splits)
  qed (simp add: g)
qed simp

lemma link_steps_graph:
  assumes "graph_of n es g" and "i + length steps \<le> n" and "ran m \<subseteq> {..<n}"
  shows "if \<forall>s \<in> set steps. \<forall>d \<in> set (snd s). m d \<noteq> None
     then \<exists>g'. link_steps m i steps g = Some g' \<and> graph_of n (es @ edges_of m i steps) g'
     else link_steps m i steps g = None"
  using assms(1,2)
proof (induction steps arbitrary: es g i)
  case (Cons s steps)
  obtain node_id deps where s: "s = (node_id, deps)" by (cases s)
  have i: "i < n" "Suc i + length steps \<le> n" using Cons.prems(2) by simp_all
  note deps = link_dependencies_graph [OF Cons.prems(1) i(1) assms(3), of deps]
  show ?case
  proof (cases "\<forall>d \<in> set deps. m d \<noteq> None")
    case True
    with deps obtain g' where g': "link_dependencies m i deps g = Some g'"
      and "graph_of n (es @ map (\<lambda>d. (i, the (m d))) deps) g'" by auto
    from Cons.IH [OF this(2) i(2)] True show ?thesis by (auto simp: s g')
  next
    case False
    with deps show ?thesis by (auto simp: s)
  qed
qed simp

subsection \<open>What the result means\<close>

text \<open>The nodes of a DAG as the steps of the backend, and the relation between positions.\<close>

definition steps_of :: "dag_node list \<Rightarrow> step_deps" where
  "steps_of nodes = map (\<lambda>n. (dn_Name n, dn_DependsOn n)) nodes"

definition position_edges :: "dag_node list \<Rightarrow> (nat \<times> nat) set" where
  "position_edges nodes = {(q, p). q < length nodes \<and> p < length nodes \<and>
     dn_Name (nodes ! p) \<in> set (dn_DependsOn (nodes ! q))}"

text \<open>An order in which every step comes after all it depends on.\<close>

definition execution_order :: "dag_node list \<Rightarrow> nat list \<Rightarrow> bool" where
  "execution_order nodes order \<longleftrightarrow> distinct order \<and> set order = {..<length nodes} \<and>
     (\<forall>ys q zs p. order = ys @ q # zs \<longrightarrow> (q, p) \<in> position_edges nodes \<longrightarrow> p \<in> set ys)"

lemma steps_of_simps [simp]:
  "length (steps_of nodes) = length nodes" "map fst (steps_of nodes) = map dn_Name nodes"
  "fst ` set (steps_of nodes) = dn_Name ` set nodes"
  by (auto simp: steps_of_def image_iff)

lemma steps_of_nth [simp]:
  "q < length nodes \<Longrightarrow> steps_of nodes ! q = (dn_Name (nodes ! q), dn_DependsOn (nodes ! q))"
  by (simp add: steps_of_def)

text \<open>The edges the code enters are those between positions.\<close>

lemma edges_position_edges:
  assumes "positions_of (steps_of nodes) 0 Map.empty = Some m"
    and known: "\<And>n d. n \<in> set nodes \<Longrightarrow> d \<in> set (dn_DependsOn n) \<Longrightarrow> d \<in> dn_Name ` set nodes"
  shows "set (edges_of m 0 (steps_of nodes)) = position_edges nodes"
proof -
  from positions_of_Some [OF assms(1)]
  have m: "m (dn_Name (nodes ! p)) = Some p" if "p < length nodes" for p using that by simp
  have target: "the (m d) < length nodes \<and> dn_Name (nodes ! the (m d)) = d"
    if "q < length nodes" "d \<in> set (dn_DependsOn (nodes ! q))" for q d
  proof -
    from known [OF nth_mem [OF that(1)] that(2)] obtain k where "k < length nodes" "d = dn_Name (nodes ! k)"
      by (auto simp: in_set_conv_nth)
    then show ?thesis using m by simp
  qed
  show ?thesis
  proof (intro equalityI subrelI)
    fix q p assume "(q, p) \<in> set (edges_of m 0 (steps_of nodes))"
    then obtain d where "q < length nodes" "d \<in> set (dn_DependsOn (nodes ! q))" "p = the (m d)"
      by (auto simp: edges_of_in)
    with target show "(q, p) \<in> position_edges nodes" by (simp add: position_edges_def)
  next
    fix q p assume "(q, p) \<in> position_edges nodes"
    then show "(q, p) \<in> set (edges_of m 0 (steps_of nodes))"
      using m [of p] by (auto simp: edges_of_in position_edges_def intro!: bexI [of _ "dn_Name (nodes ! p)"])
  qed
qed

lemma acyclic_pullback:
  assumes "acyclic r" and "\<And>x y. (x, y) \<in> s \<Longrightarrow> (f x, f y) \<in> r"
  shows "acyclic s"
proof -
  have "(f x, f y) \<in> r\<^sup>+" if "(x, y) \<in> s\<^sup>+" for x y
    using that by (induction rule: trancl_induct) (auto dest: assms(2) intro: trancl_into_trancl)
  with assms(1) show ?thesis by (auto simp: acyclic_def)
qed

lemma acyclic_position_edges:
  assumes "distinct (map dn_Name nodes)"
    and known: "\<And>n d. n \<in> set nodes \<Longrightarrow> d \<in> set (dn_DependsOn n) \<Longrightarrow> d \<in> dn_Name ` set nodes"
  shows "acyclic (position_edges nodes) \<longleftrightarrow> acyclic (dag_relation nodes)"
proof
  let ?f = "\<lambda>x. the (map_of (zip (map dn_Name nodes) [0..<length nodes]) x)"
  have f: "?f (dn_Name (nodes ! k)) = k" if "k < length nodes" for k
    using map_of_zip_nth [of "map dn_Name nodes" "[0..<length nodes]" k] assms(1) that by simp
  assume "acyclic (position_edges nodes)"
  then show "acyclic (dag_relation nodes)"
  proof (rule acyclic_pullback [where f = ?f])
    fix x y assume "(x, y) \<in> dag_relation nodes"
    then obtain n where n: "n \<in> set nodes" "x = dn_Name n" "y \<in> set (dn_DependsOn n)"
      by (auto simp: dag_relation_def)
    from n(1) known [OF n(1,3)] obtain q p where "q < length nodes" "n = nodes ! q" "p < length nodes"
      "y = dn_Name (nodes ! p)" by (auto simp: in_set_conv_nth)
    with n f show "(?f x, ?f y) \<in> position_edges nodes" by (simp add: position_edges_def)
  qed
next
  assume "acyclic (dag_relation nodes)"
  then show "acyclic (position_edges nodes)"
    by (rule acyclic_pullback [where f = "\<lambda>q. dn_Name (nodes ! q)"])
       (auto simp: position_edges_def dag_relation_def)
qed

lemma graph_of_nil: "graph_of n [] (replicate n 0, replicate n [])"
  by (simp add: graph_of_def unmet_def dependents_in_def)

lemma distinct_positions:
  assumes "distinct (map dn_Name nodes)"
  shows "\<exists>m. positions_of (steps_of nodes) 0 Map.empty = Some m \<and> dom m = dn_Name ` set nodes \<and>
     ran m \<subseteq> {..<length nodes}"
proof -
  from assms have "positions_of (steps_of nodes) 0 Map.empty \<noteq> None" by (simp add: positions_of_None)
  then obtain m where m: "positions_of (steps_of nodes) 0 Map.empty = Some m" by auto
  note dom = positions_of_Some [OF m, simplified]
  have "p < length nodes" if "m x = Some p" for x p
  proof -
    from that dom obtain k where "k < length nodes" "x = dn_Name (nodes ! k)"
      by (metis domI imageE in_set_conv_nth)
    with dom that show ?thesis by auto
  qed
  with m dom show ?thesis by (auto simp: ran_def)
qed

lemma topological_order_known:
  assumes "distinct (map dn_Name nodes)"
    and known: "\<forall>n \<in> set nodes. \<forall>d \<in> set (dn_DependsOn n). d \<in> dn_Name ` set nodes"
  shows "\<exists>order. topological_order (steps_of nodes) =
      Some (if acyclic (dag_relation nodes) then Some order else None) \<and>
     (acyclic (dag_relation nodes) \<longrightarrow> execution_order nodes order)"
proof -
  let ?n = "length nodes" and ?g = "(replicate (length nodes) 0, replicate (length nodes) [])"
  from distinct_positions [OF assms(1)] obtain m where
    m: "positions_of (steps_of nodes) 0 Map.empty = Some m" "dom m = dn_Name ` set nodes" "ran m \<subseteq> {..<?n}"
    by auto
  have es: "set (edges_of m 0 (steps_of nodes)) = position_edges nodes"
    by (rule edges_position_edges [OF m(1)]) (use known in blast)
  have "\<forall>s \<in> set (steps_of nodes). \<forall>d \<in> set (snd s). m d \<noteq> None"
    using known m(2) by (auto simp: steps_of_def)
  then obtain indegree dependents where
    link: "link_steps m 0 (steps_of nodes) ?g = Some (indegree, dependents)"
    and graph: "graph_of ?n (edges_of m 0 (steps_of nodes)) (indegree, dependents)"
    using link_steps_graph [OF graph_of_nil, of 0 "steps_of nodes" ?n m] m(3) by auto
  let ?es = "edges_of m 0 (steps_of nodes)"
  let ?start = "(filter (\<lambda>p. indegree ! p = 0) [0..<?n], indegree, [])"
  have "order_inv ?n ?es ?start"
    using graph by (auto simp: order_inv_def ready_inv_def graph_of_def)
  moreover have bound: "set ?es \<subseteq> {..<?n} \<times> {..<?n}" by (auto simp: es position_edges_def)
  moreover have "dependents ! p = dependents_in ?es p" if "p < ?n" for p
    using graph that by (simp add: graph_of_def)
  ultimately obtain left order where loop:
    "while_option (\<lambda>(ready, _, _). ready \<noteq> []) (take_ready dependents) ?start = Some ([], left, order)"
    and inv: "order_inv ?n ?es ([], left, order)"
    using loop_ends by blast
  have "length order = ?n \<longleftrightarrow> acyclic (dag_relation nodes)"
    using order_complete [OF inv bound] acyclic_position_edges [OF assms(1)] known by (simp add: es)
  moreover have "execution_order nodes order" if "length order = ?n"
  proof -
    from inv have "distinct order" "set order \<subseteq> {..<?n}" by (simp_all add: order_inv_def ready_inv_def)
    with that have "set order = {..<?n}" by (metis card_lessThan card_subset_eq distinct_card finite_lessThan)
    with inv show ?thesis unfolding execution_order_def order_inv_def prod.case es ready_inv_def by simp
  qed
  ultimately show ?thesis
    by (intro exI [of _ order]) (simp add: topological_order_def m(1) link loop)
qed

lemma topological_order_unknown:
  assumes "distinct (map dn_Name nodes)"
    and "\<not> (\<forall>n \<in> set nodes. \<forall>d \<in> set (dn_DependsOn n). d \<in> dn_Name ` set nodes)"
  shows "topological_order (steps_of nodes) = Some None"
proof -
  from distinct_positions [OF assms(1)] obtain m where
    m: "positions_of (steps_of nodes) 0 Map.empty = Some m" "dom m = dn_Name ` set nodes"
      "ran m \<subseteq> {..<length nodes}"
    by auto
  from assms(2) m(2) have "\<not> (\<forall>s \<in> set (steps_of nodes). \<forall>d \<in> set (snd s). m d \<noteq> None)"
    by (fastforce simp: steps_of_def)
  then have "link_steps m 0 (steps_of nodes) (replicate (length nodes) 0, replicate (length nodes) []) = None"
    using link_steps_graph [OF graph_of_nil, of 0 "steps_of nodes" "length nodes" m] m(3) by auto
  then show ?thesis by (simp add: topological_order_def m(1))
qed

text \<open>The call returns on every DAG: an execution order of a well-formed one, \<open>None\<close> for any other.\<close>

lemma topological_order_result:
  "\<exists>order. topological_order (steps_of nodes) = Some (if wf_dag nodes then Some order else None) \<and>
     (wf_dag nodes \<longrightarrow> execution_order nodes order)"
proof (cases "distinct (map dn_Name nodes)")
  case True
  show ?thesis
  proof (cases "\<forall>n \<in> set nodes. \<forall>d \<in> set (dn_DependsOn n). d \<in> dn_Name ` set nodes")
    case known: True
    from topological_order_known [OF True known] True known show ?thesis by (simp add: wf_dag_def)
  next
    case False
    with topological_order_unknown [OF True False] show ?thesis by (auto simp: wf_dag_def)
  qed
next
  case False
  then have "topological_order (steps_of nodes) = Some None"
    by (simp add: topological_order_def positions_of_None option.case_eq_if)
  with False show ?thesis by (simp add: wf_dag_def)
qed

lemma topological_order_iff:
  "(\<exists>order. topological_order (steps_of nodes) = Some (Some order) \<and> execution_order nodes order) \<longleftrightarrow> wf_dag nodes"
  "(\<exists>order. topological_order (steps_of nodes) = Some (Some order)) \<longleftrightarrow> wf_dag nodes"
proof -
  obtain order where "topological_order (steps_of nodes) = Some (if wf_dag nodes then Some order else None)"
    "wf_dag nodes \<longrightarrow> execution_order nodes order"
    using topological_order_result [of nodes] by (elim exE conjE)
  then show "(\<exists>order. topological_order (steps_of nodes) = Some (Some order) \<and> execution_order nodes order) \<longleftrightarrow> wf_dag nodes"
    and "(\<exists>order. topological_order (steps_of nodes) = Some (Some order)) \<longleftrightarrow> wf_dag nodes"
    by (cases "wf_dag nodes"; simp)+
qed

text \<open>The backend's checker keeps the contract that the operator's keeps.\<close>

interpretation backend_dag: dag_checker
  "\<lambda>nodes. \<exists>order. topological_order (steps_of nodes) = Some (Some order)"
  by unfold_locales (rule topological_order_iff)

subsection \<open>Properties\<close>

lemma topological_order_returns: "\<exists>result. topological_order steps = Some result"
proof -
  have "steps = steps_of (map (\<lambda>(n, ds). \<lparr>dn_Name = n, dn_Role = [], dn_DependsOn = ds, dn_Prompt = []\<rparr>) steps)"
    by (induction steps) (auto simp: steps_of_def)
  then show ?thesis using topological_order_result by metis
qed

lemma topological_order_schedule:
  assumes "topological_order steps = Some (Some order)"
  obtains nodes where "steps = steps_of nodes" "wf_dag nodes" "execution_order nodes order"
proof -
  let ?nodes = "map (\<lambda>(n, ds). \<lparr>dn_Name = n, dn_Role = [], dn_DependsOn = ds, dn_Prompt = []\<rparr>) steps"
  have steps: "steps = steps_of ?nodes" by (induction steps) (auto simp: steps_of_def)
  obtain order' where "topological_order (steps_of ?nodes) = Some (if wf_dag ?nodes then Some order' else None)"
    and "wf_dag ?nodes \<longrightarrow> execution_order ?nodes order'"
    using topological_order_result by blast
  with assms steps have "wf_dag ?nodes" "execution_order ?nodes order" by (auto split: if_splits)
  with steps that show thesis by blast
qed

lemma topological_order_positions:
  assumes "topological_order steps = Some (Some order)"
  shows "distinct order \<and> set order = {..<length steps}"
  using topological_order_schedule [OF assms] by (metis execution_order_def steps_of_simps(1))

text \<open>
  C12. Operator and backend agree on which DAGs are well formed: the operator's depth-first search accepts a
  DAG exactly when the backend's counting of unmet dependencies finds an order, and that order contains
  every step once and after all it depends on. So a submission is never refused for its DAG.
\<close>

theorem checkers_agree:
  "validateDAG r1 r2 (Some \<lparr>dag_Nodes = nodes\<rparr>) = None \<longleftrightarrow>
     (\<exists>order. topological_order (steps_of nodes) = Some (Some order) \<and> execution_order nodes order)"
  by (simp add: go_dag.accepts_iff topological_order_iff)

end
