(* ===== verification/Backend_Api.thy ===== *)
theory Backend_Api
  imports Backend_Store Backend_Dag Http_Gateway "HOL-Library.Monad_Syntax"
begin

text \<open>
  The HTTP interface of the backend, src/backend/app/main.py: the request models with their constraints, the
  handlers of submission, question and cancellation, and the routing of a request to them. What FastAPI,
  Starlette and pydantic do below is the parameter \<open>backend_env\<close>: the rendering of a response body, the
  decoding of a path segment, the conversion of other JSON values to integers, and \<open>uuid4\<close> as a supply of
  ids. The thread that executes a new run is recorded, and runs by itself.
\<close>

subsection \<open>Request models\<close>

record node_request =
  nr_name :: string
  nr_prompt :: string
  nr_role :: "string option"
  nr_model :: "string option"
  nr_maxTokens :: "int option"
  nr_dependsOn :: "string list"
  nr_maxRetries :: "int option"

record run_request =
  rq_task :: string
  rq_nodes :: "node_request list"
  rq_project_id :: "string option"
  rq_idempotency_key :: string

text \<open>A text field with bounds on its number of characters; a UTF-8 continuation byte is none.\<close>

definition characters :: "string \<Rightarrow> nat" where
  "characters s = length (filter (\<lambda>c. \<not> (128 \<le> byte c \<and> byte c < 192)) s)"

definition text_between :: "nat \<Rightarrow> nat \<Rightarrow> string \<Rightarrow> string option" where
  "text_between lo hi s = (if lo \<le> characters s \<and> characters s \<le> hi then Some s else None)"

definition int_between :: "int \<Rightarrow> int \<Rightarrow> int \<Rightarrow> int option" where
  "int_between lo hi n = (if lo \<le> n \<and> n \<le> hi then Some n else None)"

text \<open>
  Members of a JSON object as Python reads it, the last of a name counting; a required member, one with a
  default, and a value that may be \<open>null\<close>.
\<close>

definition member :: "(string \<times> json) list \<Rightarrow> string \<Rightarrow> json option" where
  "member ms name = map_of (rev ms) name"

definition required :: "(json \<Rightarrow> 'a option) \<Rightarrow> (string \<times> json) list \<Rightarrow> string \<Rightarrow> 'a option" where
  "required f ms name = Option.bind (member ms name) f"

definition defaulted :: "(json \<Rightarrow> 'a option) \<Rightarrow> 'a \<Rightarrow> (string \<times> json) list \<Rightarrow> string \<Rightarrow> 'a option" where
  "defaulted f d ms name = (case member ms name of None \<Rightarrow> Some d | Some j \<Rightarrow> f j)"

fun py_str :: "json \<Rightarrow> string option" where
  "py_str (JStr s) = Some s"
| "py_str _ = None"

fun py_int :: "(json \<Rightarrow> int option) \<Rightarrow> json \<Rightarrow> int option" where
  "py_int convert (JInt n) = Some n"
| "py_int convert j = convert j"

fun py_list :: "(json \<Rightarrow> 'a option) \<Rightarrow> json \<Rightarrow> 'a list option" where
  "py_list f (JArr js) = those (map f js)"
| "py_list f _ = None"

fun nullable :: "(json \<Rightarrow> 'a option) \<Rightarrow> json \<Rightarrow> 'a option option" where
  "nullable f JNull = Some None"
| "nullable f j = map_option Some (f j)"

fun py_node :: "(json \<Rightarrow> int option) \<Rightarrow> json \<Rightarrow> node_request option" where
  "py_node convert (JObj ms) =
     do { name \<leftarrow> required (\<lambda>j. Option.bind (py_str j) (text_between 1 63)) ms ''name'';
          prompt \<leftarrow> defaulted py_str [] ms ''prompt'';
          role \<leftarrow> defaulted (nullable py_str) None ms ''role'';
          model \<leftarrow> defaulted (nullable py_str) None ms ''model'';
          maxTokens \<leftarrow> defaulted (nullable (\<lambda>j. Option.bind (py_int convert j) (int_between 1 32768))) None ms ''maxTokens'';
          dependsOn \<leftarrow> defaulted (py_list py_str) [] ms ''dependsOn'';
          maxRetries \<leftarrow> defaulted (nullable (\<lambda>j. Option.bind (py_int convert j) (int_between 0 5))) None ms ''maxRetries'';
          Some \<lparr>nr_name = name, nr_prompt = prompt, nr_role = role, nr_model = model, nr_maxTokens = maxTokens,
                nr_dependsOn = dependsOn, nr_maxRetries = maxRetries\<rparr> }"
| "py_node convert _ = None"

fun py_submit :: "(json \<Rightarrow> int option) \<Rightarrow> json \<Rightarrow> run_request option" where
  "py_submit convert (JObj ms) =
     do { task \<leftarrow> required (\<lambda>j. Option.bind (py_str j) (text_between 1 16000)) ms ''task'';
          nodes \<leftarrow> defaulted (\<lambda>j. do { ns \<leftarrow> py_list (py_node convert) j; if length ns \<le> 32 then Some ns else None })
                     [] ms ''nodes'';
          project_id \<leftarrow> defaulted (nullable (\<lambda>j. Option.bind (py_str j) (text_between 0 128))) None ms ''project_id'';
          idempotency_key \<leftarrow> required (\<lambda>j. Option.bind (py_str j) (text_between 1 255)) ms ''idempotency_key'';
          Some \<lparr>rq_task = task, rq_nodes = nodes, rq_project_id = project_id, rq_idempotency_key = idempotency_key\<rparr> }"
| "py_submit convert _ = None"

subsection \<open>Handlers\<close>

record backend_env =
  ev_render :: "json \<Rightarrow> string"
  ev_unquote :: "string \<Rightarrow> string"
  ev_convert :: "json \<Rightarrow> int option"
  ev_uuid :: "nat \<Rightarrow> string"

text \<open>The store, how many ids were drawn, and the executions started: tenant and run.\<close>

record backend =
  be_store :: run_store
  be_drawn :: nat
  be_threads :: "(string \<times> string) list"

text \<open>A response before it is rendered.\<close>

type_synonym reply = "int \<times> json"

definition detail :: "string \<Rightarrow> json" where
  "detail text = JObj [(''detail'', JStr text)]"

text \<open>\<open>require_tenant\<close>: a missing header and an empty one are both refused.\<close>

definition require_tenant :: "string option \<Rightarrow> (reply, string) result" where
  "require_tenant tenant_id =
     (if or_empty tenant_id = [] then Inl (400, detail ''X-Tenant-Id is required'') else Inr (or_empty tenant_id))"

definition enc_step :: "run_step \<Rightarrow> json" where
  "enc_step s = JObj
     [(''node_id'', JStr (sp_node_id s)), (''prompt'', JStr (sp_prompt s)), (''role'', JStr (sp_role s)),
      (''depends_on'', JArr (map JStr (sp_depends_on s))), (''max_retries'', JInt (sp_max_retries s)),
      (''model'', JStr (sp_model s)), (''max_tokens'', JInt (sp_max_tokens s)), (''attempts'', JInt (sp_attempts s)),
      (''status'', JStr (sp_status s)), (''output'', JStr (sp_output s)), (''error'', JStr (sp_error s)),
      (''latency_ms'', JInt (sp_latency_ms s)), (''input_tokens'', JInt (sp_input_tokens s)),
      (''output_tokens'', JInt (sp_output_tokens s))]"

definition enc_run :: "run_snapshot \<Rightarrow> json" where
  "enc_run r = JObj [(''run'', JObj
     [(''id'', JStr (sn_id r)), (''status'', JStr (sn_status r)), (''summary'', JStr (sn_summary r)),
      (''created_at'', JNull), (''finished_at'', JNull), (''steps'', JArr (map enc_step (sn_steps r)))])]"

definition spec_of_node :: "node_request \<Rightarrow> step_spec" where
  "spec_of_node n =
     \<lparr>sx_node_id = nr_name n, sx_prompt = Some (nr_prompt n), sx_role = Some (or_empty (nr_role n)),
      sx_depends_on = nr_dependsOn n,
      sx_max_retries = (case nr_maxRetries n of None \<Rightarrow> 0 | Some k \<Rightarrow> k), sx_model = nr_model n,
      sx_max_tokens = Some (case nr_maxTokens n of None \<Rightarrow> 0 | Some k \<Rightarrow> k)\<rparr>"

definition step_specs_of :: "run_request \<Rightarrow> step_spec list" where
  "step_specs_of request =
     (if rq_nodes request = [] then
        [\<lparr>sx_node_id = ''run'', sx_prompt = None, sx_role = None, sx_depends_on = [], sx_max_retries = 0,
          sx_model = None, sx_max_tokens = None\<rparr>]
      else map spec_of_node (rq_nodes request))"

definition spec_deps :: "step_spec list \<Rightarrow> step_deps" where
  "spec_deps specs = map (\<lambda>s. (sx_node_id s, sx_depends_on s)) specs"

text \<open>\<open>submit_run\<close>; \<open>None\<close> means that the handler does not return.\<close>

definition submit_run :: "backend_env \<Rightarrow> run_request \<Rightarrow> string option \<Rightarrow> backend \<Rightarrow> (reply \<times> backend) option" where
  "submit_run E request tenant_id B =
     (case require_tenant tenant_id of
        Inl refusal \<Rightarrow> Some (refusal, B)
      | Inr tenant \<Rightarrow>
          let specs = step_specs_of request in
          (case topological_order (spec_deps specs) of
             None \<Rightarrow> None
           | Some None \<Rightarrow> Some ((422, detail ''nodes must have unique names and valid acyclic dependencies''), B)
           | Some (Some _) \<Rightarrow>
               (case store_submit (ev_uuid E (be_drawn B)) tenant (rq_task request) (rq_project_id request)
                       (rq_idempotency_key request) specs (be_store B) of
                  (None, S) \<Rightarrow> Some ((500, detail ''Internal Server Error''), B)
                | (Some (run, created), S) \<Rightarrow>
                    Some ((200, enc_run run),
                      if created then
                        \<lparr>be_store = S, be_drawn = Suc (be_drawn B), be_threads = be_threads B @ [(tenant, sn_id run)]\<rparr>
                      else B\<lparr>be_store := S\<rparr>))))"

definition get_run :: "string \<Rightarrow> string option \<Rightarrow> backend \<Rightarrow> reply \<times> backend" where
  "get_run run_id tenant_id B =
     (case require_tenant tenant_id of
        Inl refusal \<Rightarrow> (refusal, B)
      | Inr tenant \<Rightarrow>
          (case store_get tenant run_id (be_store B) of
             None \<Rightarrow> ((404, detail ''run not found''), B)
           | Some run \<Rightarrow> ((200, enc_run run), B)))"

text \<open>\<open>cancel_run\<close>, with no external runtime configured.\<close>

definition cancel_run :: "string \<Rightarrow> string option \<Rightarrow> backend \<Rightarrow> reply \<times> backend" where
  "cancel_run run_id tenant_id B =
     (case require_tenant tenant_id of
        Inl refusal \<Rightarrow> (refusal, B)
      | Inr tenant \<Rightarrow>
          (case store_cancel tenant run_id (be_store B) of
             (None, S) \<Rightarrow> ((404, detail ''run not found''), B\<lparr>be_store := S\<rparr>)
           | (Some run, S) \<Rightarrow> ((200, enc_run run), B\<lparr>be_store := S\<rparr>)))"

subsection \<open>Routing\<close>

datatype route = RouteSubmit | RouteGet string | RouteCancel string | RouteNone | RouteWrongMethod

definition runs_path :: string where
  "runs_path = ''/api/agent-runs''"

text \<open>A path parameter is one segment, not empty.\<close>

definition route_of :: "string \<Rightarrow> string \<Rightarrow> route" where
  "route_of meth path =
     (if path = runs_path then (if meth = ''POST'' then RouteSubmit else RouteWrongMethod)
      else if take (Suc (length runs_path)) path = runs_path @ ''/'' then
        let rest = drop (Suc (length runs_path)) path;
            segment = takeWhile (\<lambda>c. c \<noteq> CHR ''/'') rest;
            after = dropWhile (\<lambda>c. c \<noteq> CHR ''/'') rest
        in if segment = [] then RouteNone
           else if after = [] then (if meth = ''GET'' then RouteGet segment else RouteWrongMethod)
           else if after = ''/cancel'' then (if meth = ''POST'' then RouteCancel segment else RouteWrongMethod)
           else RouteNone
      else RouteNone)"

text \<open>One request; an invalid body is answered before the handler runs.\<close>

definition serve :: "backend_env \<Rightarrow> string \<Rightarrow> string \<Rightarrow> string option \<Rightarrow> json option \<Rightarrow> backend \<Rightarrow> (reply \<times> backend) option" where
  "serve E meth path tenant_id body B =
     (case route_of meth path of
        RouteNone \<Rightarrow> Some ((404, detail ''Not Found''), B)
      | RouteWrongMethod \<Rightarrow> Some ((405, detail ''Method Not Allowed''), B)
      | RouteSubmit \<Rightarrow>
          (case Option.bind body (py_submit (ev_convert E)) of
             None \<Rightarrow> Some ((422, detail ''invalid request''), B)
           | Some request \<Rightarrow> submit_run E request tenant_id B)
      | RouteGet segment \<Rightarrow> Some (get_run (ev_unquote E segment) tenant_id B)
      | RouteCancel segment \<Rightarrow> Some (cancel_run (ev_unquote E segment) tenant_id B))"

text \<open>
  The backend as the network of the operator's HTTP adapter, for requests below the URL \<open>base\<close>; a handler
  that does not return would be a time-out.
\<close>

definition backend_net :: "backend_env \<Rightarrow> string \<Rightarrow> (string \<Rightarrow> json option) \<Rightarrow> (string \<Rightarrow> gotime option) \<Rightarrow> backend net" where
  "backend_net E base parse_json parse_time =
     \<lparr>net_URLError = (\<lambda>_. None),
      net_Do = (\<lambda>_ req B.
        (case serve E (rq_Method req) (drop (length base) (rq_URL req)) (rq_Headers req ''X-Tenant-Id'') (rq_Body req) B of
           None \<Rightarrow> (Inl ''Client.Timeout exceeded'', B)
         | Some ((code, doc), B') \<Rightarrow>
             (Inr \<lparr>rsp_StatusCode = code, rsp_Body = ev_render E doc, rsp_BodyError = None\<rparr>, B'))),
      net_ParseJSON = parse_json, net_ParseTime = parse_time, net_DecodeText = (\<lambda>_. ''decode error'')\<rparr>"

subsection \<open>What the backend makes of the operator's submissions\<close>

definition received_node :: "run_node \<Rightarrow> node_request" where
  "received_node n =
     \<lparr>nr_name = rn_Name n, nr_prompt = rn_Prompt n, nr_role = (if rn_Role n = [] then None else Some (rn_Role n)),
      nr_model = (if rn_Model n = [] then None else Some (rn_Model n)),
      nr_maxTokens = (if rn_MaxTokens n = 0 then None else Some (rn_MaxTokens n)),
      nr_dependsOn = rn_DependsOn n, nr_maxRetries = rn_MaxRetries n\<rparr>"

definition received :: "submit_run_body \<Rightarrow> run_request" where
  "received b =
     \<lparr>rq_task = srb_Task b, rq_nodes = map received_node (srb_Nodes b),
      rq_project_id = (if srb_ProjectID b = [] then None else Some (srb_ProjectID b)),
      rq_idempotency_key = srb_IdempotencyKey b\<rparr>"

text \<open>The constraints of the request models on a submission.\<close>

definition node_acceptable :: "run_node \<Rightarrow> bool" where
  "node_acceptable n \<longleftrightarrow> 1 \<le> characters (rn_Name n) \<and> characters (rn_Name n) \<le> 63 \<and>
     (rn_MaxTokens n = 0 \<or> 1 \<le> rn_MaxTokens n \<and> rn_MaxTokens n \<le> 32768) \<and>
     (case rn_MaxRetries n of None \<Rightarrow> True | Some k \<Rightarrow> 0 \<le> k \<and> k \<le> 5)"

definition acceptable :: "submit_run_body \<Rightarrow> bool" where
  "acceptable b \<longleftrightarrow> 1 \<le> characters (srb_Task b) \<and> characters (srb_Task b) \<le> 16000 \<and>
     length (srb_Nodes b) \<le> 32 \<and> (\<forall>n \<in> set (srb_Nodes b). node_acceptable n) \<and>
     characters (srb_ProjectID b) \<le> 128 \<and>
     1 \<le> characters (srb_IdempotencyKey b) \<and> characters (srb_IdempotencyKey b) \<le> 255"

lemma member_append:
  "member (ms @ ms') name = (case member ms' name of None \<Rightarrow> member ms name | Some j \<Rightarrow> Some j)"
  by (simp add: member_def map_add_def split: option.split)

lemma member_omit [simp]:
  "member [] name = None"
  "member ((m, j) # ms) name = (case member ms name of None \<Rightarrow> if name = m then Some j else None | Some j' \<Rightarrow> Some j')"
  "member (omit_str m s) name = (if name = m \<and> s \<noteq> [] then Some (JStr s) else None)"
  "member (omit_int m n) name = (if name = m \<and> n \<noteq> 0 then Some (JInt n) else None)"
  "member (omit_int_ptr m p) name = (if name = m then map_option JInt p else None)"
  "member (omit_arr m js) name = (if name = m \<and> js \<noteq> [] then Some (JArr js) else None)"
  by (auto simp: member_def omit_str_def omit_int_def omit_int_ptr_def omit_arr_def map_add_def split: option.splits)

lemma those_py_str: "those (map (py_str \<circ> JStr) ss) = Some ss"
  by (induction ss) simp_all

lemma py_node_enc:
  "py_node convert (enc_run_node n) = (if node_acceptable n then Some (received_node n) else None)"
  by (cases "rn_MaxRetries n"; cases "rn_DependsOn n = []")
     (simp_all add: enc_run_node_def required_def defaulted_def member_append text_between_def int_between_def
       node_acceptable_def received_node_def those_py_str split: option.splits)

lemma those_py_node:
  "those (map (py_node convert \<circ> enc_run_node) ns) =
     (if \<forall>n \<in> set ns. node_acceptable n then Some (map received_node ns) else None)"
  by (induction ns) (auto simp: py_node_enc)

lemma py_submit_enc:
  "py_submit convert (enc_submit_run_body b) = (if acceptable b then Some (received b) else None)"
  by (cases "srb_Nodes b = []"; cases "srb_ProjectID b = []")
     (auto simp: enc_submit_run_body_def required_def defaulted_def member_append text_between_def acceptable_def
       received_def those_py_node characters_def)

subsection \<open>What the operator makes of the backend's answers\<close>

definition backend_step_of :: "run_step \<Rightarrow> backend_step" where
  "backend_step_of s =
     \<lparr>bst_NodeID = sp_node_id s, bst_Status = sp_status s, bst_Output = sp_output s, bst_Error = sp_error s,
      bst_LatencyMS = sp_latency_ms s\<rparr>"

definition backend_run_of :: "run_snapshot \<Rightarrow> backend_run" where
  "backend_run_of r =
     \<lparr>br_ID = sn_id r, br_Status = sn_status r, br_Summary = sn_summary r, br_CreatedAt = None, br_FinishedAt = None,
      br_Steps = map backend_step_of (sn_steps r)\<rparr>"

lemma reply_fold_names:
  "fold_name ''run'' = ''RUN''" "fold_name ''id'' = ''ID''" "fold_name ''status'' = ''STATUS''"
  "fold_name ''summary'' = ''SUMMARY''" "fold_name ''created_at'' = ''CREATED_AT''"
  "fold_name ''finished_at'' = ''FINISHED_AT''" "fold_name ''steps'' = ''STEPS''"
  "fold_name ''node_id'' = ''NODE_ID''" "fold_name ''prompt'' = ''PROMPT''" "fold_name ''role'' = ''ROLE''"
  "fold_name ''depends_on'' = ''DEPENDS_ON''" "fold_name ''max_retries'' = ''MAX_RETRIES''"
  "fold_name ''model'' = ''MODEL''" "fold_name ''max_tokens'' = ''MAX_TOKENS''"
  "fold_name ''attempts'' = ''ATTEMPTS''" "fold_name ''output'' = ''OUTPUT''" "fold_name ''error'' = ''ERROR''"
  "fold_name ''latency_ms'' = ''LATENCY_MS''" "fold_name ''input_tokens'' = ''INPUT_TOKENS''"
  "fold_name ''output_tokens'' = ''OUTPUT_TOKENS''" "fold_name ''detail'' = ''DETAIL''"
  by code_simp+

lemma dec_enc_step:
  "int64_ok (sp_latency_ms s) \<Longrightarrow> dec_backend_step (enc_step s) zero_backend_step = Some (backend_step_of s)"
  by (simp add: dec_backend_step_def enc_step_def reply_fold_names zero_backend_step_def backend_step_of_def int64_ok_def)

lemma dec_enc_steps:
  "\<forall>s \<in> set ss. int64_ok (sp_latency_ms s) \<Longrightarrow>
     dec_elems dec_backend_step zero_backend_step (map enc_step ss) [] = Some (map backend_step_of ss)"
  by (induction ss) (auto simp: dec_enc_step)

lemma dec_enc_run:
  "\<forall>s \<in> set (sn_steps r). int64_ok (sp_latency_ms s) \<Longrightarrow>
     dec_run_envelope parse (enc_run r) = Some \<lparr>env_Run = backend_run_of r\<rparr>"
  by (simp add: dec_run_envelope_def enc_run_def reply_fold_names dec_backend_run_def zero_run_envelope_def
      backend_run_of_def dec_enc_steps)

end
