(* ===== verification/Backend_Steps.thy ===== *)
theory Backend_Steps
  imports Backend_Api
begin

text \<open>
  The backend as a system of steps: a request is served, or a thread that executes a run calls a method of
  the store. Ids come from a supply that never repeats, so every step is a step of the store, and the
  condition \<open>backend_ok\<close> holds from the start on, however requests and executions interleave.
\<close>

subsection \<open>The environment\<close>

text \<open>
  A rendered document parses to itself; ids are distinct, not empty, and one path segment that decodes to
  itself.
\<close>

definition env_law :: "backend_env \<Rightarrow> (string \<Rightarrow> json option) \<Rightarrow> bool" where
  "env_law E parse \<longleftrightarrow> (\<forall>doc. parse (ev_render E doc) = Some doc) \<and> inj (ev_uuid E) \<and>
     (\<forall>n. ev_uuid E n \<noteq> [] \<and> CHR ''/'' \<notin> set (ev_uuid E n) \<and> ev_unquote E (ev_uuid E n) = ev_uuid E n)"

text \<open>A backend whose ids come from the supply, the next ones being unused, with latencies that fit in 64 bits.\<close>

definition backend_ok :: "backend_env \<Rightarrow> backend \<Rightarrow> bool" where
  "backend_ok E B \<longleftrightarrow> store_ok (be_store B) \<and>
     (\<forall>i r. ms_runs (be_store B) i = Some r \<longrightarrow> (\<exists>n < be_drawn B. i = ev_uuid E n) \<and>
        (\<forall>s \<in> set (rr_steps r). int64_ok (sp_latency_ms s)))"

subsection \<open>Steps\<close>

text \<open>What an executing thread does to the store; latencies are measured, not negative and below 64 bits.\<close>

inductive executor_step :: "run_store \<Rightarrow> run_store \<Rightarrow> bool" for S where
  set_runtime: "executor_step S (snd (store_set_runtime_run_id runtime tenant run_id S))"
| start: "executor_step S (snd (store_start tenant run_id S))"
| start_step: "executor_step S (snd (store_start_step position tenant run_id S))"
| succeed_step: "int64_ok latency \<Longrightarrow>
    executor_step S (snd (store_succeed_step position answer latency in_tokens out_tokens tenant run_id S))"
| fail_step: "executor_step S (snd (store_fail_step position error tenant run_id S))"
| succeed: "executor_step S (snd (store_succeed tenant run_id S))"
| fail: "executor_step S (snd (store_fail error tenant run_id S))"
| give_up: "executor_step S (snd (store_cancel tenant run_id S))"

inductive backend_step :: "backend_env \<Rightarrow> backend \<Rightarrow> backend \<Rightarrow> bool" for E B where
  request: "serve E meth path tenant_id body B = Some (answer, B') \<Longrightarrow> backend_step E B B'"
| execute: "executor_step (be_store B) S \<Longrightarrow> backend_step E B (B\<lparr>be_store := S\<rparr>)"

lemma executor_store_step: "executor_step S S' \<Longrightarrow> store_step S S'"
  by (induction rule: executor_step.induct) (rule store_step.intros)+

text \<open>An execution files no run and keeps latencies within 64 bits.\<close>

definition latencies_fit :: "run_step list \<Rightarrow> bool" where
  "latencies_fit ss \<longleftrightarrow> (\<forall>s \<in> set ss. int64_ok (sp_latency_ms s))"

definition latencies_ok :: "run_store \<Rightarrow> bool" where
  "latencies_ok S \<longleftrightarrow> (\<forall>i r. ms_runs S i = Some r \<longrightarrow> latencies_fit (rr_steps r))"

lemma latencies_fit_update:
  "latencies_fit ss \<Longrightarrow> (i < length ss \<Longrightarrow> int64_ok (sp_latency_ms x)) \<Longrightarrow> latencies_fit (ss[i := x])"
  using set_update_subset_insert [of ss i x]
  by (cases "i < length ss") (auto simp: latencies_fit_def list_update_beyond)

lemma latencies_fit_status:
  "latencies_fit ss \<Longrightarrow> (\<And>s. sp_latency_ms (f s) = sp_latency_ms s) \<Longrightarrow> latencies_fit (map f ss)"
  "latencies_fit ss \<Longrightarrow> (\<And>s. sp_latency_ms (f s) = sp_latency_ms s) \<Longrightarrow> latencies_fit (ss[i := f (ss ! i)])"
proof -
  assume "latencies_fit ss" and f: "\<And>s. sp_latency_ms (f s) = sp_latency_ms s"
  then show "latencies_fit (map f ss)" by (auto simp: latencies_fit_def)
  have "int64_ok (sp_latency_ms (f (ss ! i)))" if "i < length ss"
    using \<open>latencies_fit ss\<close> that by (simp add: f latencies_fit_def)
  with \<open>latencies_fit ss\<close> show "latencies_fit (ss[i := f (ss ! i)])" by (rule latencies_fit_update)
qed

lemma update_live_dom: "dom (ms_runs (snd (update_live f tenant i S))) = dom (ms_runs S)"
  by (auto simp: update_live_def owned_def split: option.splits)

lemma update_live_latencies:
  assumes "latencies_ok S"
    and "\<And>r r'. f r = Some r' \<Longrightarrow> latencies_fit (rr_steps r) \<Longrightarrow> latencies_fit (rr_steps r')"
  shows "latencies_ok (snd (update_live f tenant i S))"
  using assms by (auto simp: latencies_ok_def update_live_def owned_def split: option.splits)

lemma cancelled_latencies: "latencies_fit (rr_steps r) \<Longrightarrow> latencies_fit (rr_steps (cancelled_record r))"
  by (auto simp: cancelled_record_def intro: latencies_fit_status(1))

lemma cancel_latencies: "latencies_ok S \<Longrightarrow> latencies_ok (snd (store_cancel tenant i S))"
  by (auto simp: latencies_ok_def store_cancel_def owned_def split: option.splits intro: cancelled_latencies)

lemma cancel_dom: "dom (ms_runs (snd (store_cancel tenant i S))) = dom (ms_runs S)"
  by (auto simp: store_cancel_def owned_def split: option.splits)

lemmas store_methods = store_set_runtime_run_id_def store_start_def store_start_step_def store_succeed_step_def
  store_fail_step_def store_succeed_def store_fail_def

lemma executor_step_dom: "executor_step S S' \<Longrightarrow> dom (ms_runs S') = dom (ms_runs S)"
  by (induction rule: executor_step.induct) (simp_all add: store_methods update_live_dom cancel_dom)

lemma executor_step_latencies: "executor_step S S' \<Longrightarrow> latencies_ok S \<Longrightarrow> latencies_ok S'"
proof (induction rule: executor_step.induct)
  case (start_step position tenant run_id)
  have "latencies_fit ss \<Longrightarrow>
      latencies_fit (ss[position := (ss ! position)\<lparr>sp_status := a, sp_attempts := n, sp_error := e\<rparr>])" for ss a n e
    by (rule latencies_fit_status(2)) simp_all
  with start_step show ?case unfolding store_start_step_def
    by (intro update_live_latencies) (auto simp: Let_def split: if_splits)
next
  case (fail_step position error tenant run_id)
  have "latencies_fit ss \<Longrightarrow>
      latencies_fit (ss[position := (ss ! position)\<lparr>sp_status := a, sp_error := e\<rparr>])" for ss a e
    by (rule latencies_fit_status(2)) simp_all
  with fail_step show ?case unfolding store_fail_step_def by (intro update_live_latencies) auto
next
  case (fail error tenant run_id)
  then show ?case unfolding store_fail_def
    by (intro update_live_latencies) (auto intro!: latencies_fit_status(1))
qed (auto simp: store_methods Let_def cancel_latencies intro!: update_live_latencies latencies_fit_update)

subsection \<open>What every step keeps\<close>

definition ids_drawn :: "backend_env \<Rightarrow> nat \<Rightarrow> run_store \<Rightarrow> bool" where
  "ids_drawn E n S \<longleftrightarrow> dom (ms_runs S) \<subseteq> ev_uuid E ` {..<n}"

lemma backend_ok_parts:
  "backend_ok E B \<longleftrightarrow> store_ok (be_store B) \<and> ids_drawn E (be_drawn B) (be_store B) \<and> latencies_ok (be_store B)"
  by (simp add: backend_ok_def ids_drawn_def latencies_ok_def latencies_fit_def subset_iff image_iff dom_def) blast

lemma next_id_fresh:
  assumes "env_law E parse" and "ids_drawn E (be_drawn B) (be_store B)"
  shows "ms_runs (be_store B) (ev_uuid E (be_drawn B)) = None"
proof (rule ccontr)
  assume "ms_runs (be_store B) (ev_uuid E (be_drawn B)) \<noteq> None"
  then obtain n where "n < be_drawn B" "ev_uuid E (be_drawn B) = ev_uuid E n"
    using assms(2) by (auto simp: ids_drawn_def)
  with assms(1) show False by (auto simp: env_law_def dest: injD)
qed

lemma submit_keeps:
  assumes "env_law E parse" and "backend_ok E B"
    and "store_submit (ev_uuid E (be_drawn B)) tenant task project key specs (be_store B) = (res, S)"
  shows "store_step (be_store B) S \<and> store_ok S \<and> latencies_ok S \<and> ids_drawn E (Suc (be_drawn B)) S \<and>
     (res = None \<or> \<not> snd (the res) \<longrightarrow> S = be_store B)"
proof -
  have parts: "store_ok (be_store B)" "ids_drawn E (be_drawn B) (be_store B)" "latencies_ok (be_store B)"
    using assms(2) by (simp_all add: backend_ok_parts)
  have id: "ev_uuid E (be_drawn B) \<noteq> []" using assms(1) by (simp add: env_law_def)
  from store_step.submit [OF this next_id_fresh [OF assms(1) parts(2)], of tenant task project key specs] assms(3)
  have step: "store_step (be_store B) S" by simp
  have new: "latencies_fit (rr_steps (new_record i tenant task project specs))" for i
    by (auto simp: latencies_fit_def new_record_def new_step_def int64_ok_def int64_min_def int64_max_def)
  show ?thesis
  proof (intro conjI)
    show "latencies_ok S" using assms(3) parts(3) new
      by (auto simp: store_submit_def Let_def latencies_ok_def split: if_splits)
    show "ids_drawn E (Suc (be_drawn B)) S" using assms(3) parts(2)
      by (auto simp: store_submit_def Let_def ids_drawn_def lessThan_Suc split: if_splits
          dest: subsetD [OF _ domI])
    show "res = None \<or> \<not> snd (the res) \<longrightarrow> S = be_store B" using assms(3)
      by (auto simp: store_submit_def Let_def split: if_splits)
  qed (use step store_step_ok [OF step parts(1)] in auto)
qed

lemma submit_run_keeps:
  assumes "env_law E parse" and "backend_ok E B" and "submit_run E q tenant_id B = Some (answer, B')"
  shows "backend_ok E B' \<and> (be_store B' = be_store B \<or> store_step (be_store B) (be_store B'))"
proof -
  obtain res S where store: "store_submit (ev_uuid E (be_drawn B)) (or_empty tenant_id) (rq_task q)
      (rq_project_id q) (rq_idempotency_key q) (step_specs_of q) (be_store B) = (res, S)" by fastforce
  note submit_keeps [OF assms(1,2) store]
  with assms(2,3) store show ?thesis
    by (auto simp: submit_run_def require_tenant_def Let_def backend_ok_parts split: if_splits option.splits)
qed

lemma cancel_run_keeps:
  assumes "backend_ok E B" and "cancel_run run_id tenant_id B = (answer, B')"
  shows "backend_ok E B' \<and> (be_store B' = be_store B \<or> store_step (be_store B) (be_store B'))"
proof -
  obtain res S where store: "store_cancel (or_empty tenant_id) run_id (be_store B) = (res, S)" by fastforce
  have S: "S = snd (store_cancel (or_empty tenant_id) run_id (be_store B))" by (simp add: store)
  with store_step.cancel have step: "store_step (be_store B) S" by simp
  moreover have "store_ok S \<and> ids_drawn E (be_drawn B) S \<and> latencies_ok S"
    using assms(1) store_step_ok [OF step] cancel_dom [of "or_empty tenant_id" run_id "be_store B"]
      cancel_latencies [of "be_store B" "or_empty tenant_id" run_id]
    by (simp add: backend_ok_parts ids_drawn_def S)
  ultimately show ?thesis
    using assms store
    by (auto simp: cancel_run_def require_tenant_def backend_ok_parts split: if_splits option.splits)
qed

lemma get_run_keeps: "snd (get_run run_id tenant_id B) = B"
  by (simp add: get_run_def require_tenant_def split: option.splits)

lemma backend_step_keeps:
  assumes "backend_step E B B'" and "env_law E parse" and "backend_ok E B"
  shows "backend_ok E B' \<and> (be_store B' = be_store B \<or> store_step (be_store B) (be_store B'))"
  using assms(1)
proof cases
  case (request meth path tenant_id body answer)
  with submit_run_keeps [OF assms(2,3)] cancel_run_keeps [OF assms(3)] get_run_keeps assms(3) show ?thesis
    by (auto simp: serve_def split: route.splits option.splits) (metis snd_conv)+
next
  case (execute S)
  with executor_step_dom [OF execute(2)] executor_step_latencies [OF execute(2)]
    executor_store_step [OF execute(2)] assms(3) show ?thesis
    by (auto simp: backend_ok_parts ids_drawn_def intro: store_step_ok)
qed

lemma backend_steps_keep:
  assumes "(backend_step E)\<^sup>*\<^sup>* B B'" and "env_law E parse" and "backend_ok E B"
  shows "backend_ok E B' \<and> store_step\<^sup>*\<^sup>* (be_store B) (be_store B')"
  using assms(1)
proof (induction rule: rtranclp_induct)
  case (step B1 B2)
  from backend_step_keeps [OF step(2) assms(2)] step(3)
  have "backend_ok E B2" and "be_store B2 = be_store B1 \<or> store_step (be_store B1) (be_store B2)" by auto
  with step(3) show ?case by (auto intro: rtranclp.rtrancl_into_rtrancl)
qed (use assms(3) in simp)

end
