(* ===== verification/Backend_Sample.thy ===== *)
theory Backend_Sample
  imports Backend_Steps
begin

text \<open>
  A concrete environment of the backend, on which \<open>env_law\<close> holds: a prefix format for JSON documents with
  its parser, and ids of increasing length. The theorems about the backend are tried on it.
\<close>

subsection \<open>A wire format\<close>

text \<open>Texts are escaped byte by byte, numbers binary with the lowest bit first.\<close>

fun wire_text :: "string \<Rightarrow> string" where
  "wire_text [] = ''.''"
| "wire_text (c # cs) = CHR '','' # c # wire_text cs"

fun unwire_text :: "string \<Rightarrow> (string \<times> string) option" where
  "unwire_text (d # cs) =
     (if d = CHR ''.'' then Some ([], cs)
      else case cs of [] \<Rightarrow> None | c # cs' \<Rightarrow> map_option (apfst ((#) c)) (unwire_text cs'))"
| "unwire_text [] = None"

fun wire_nat :: "nat \<Rightarrow> string" where
  "wire_nat n = (if n = 0 then ''.'' else (if even n then CHR ''0'' else CHR ''1'') # wire_nat (n div 2))"

fun unwire_nat :: "string \<Rightarrow> (nat \<times> string) option" where
  "unwire_nat (d # cs) =
     (if d = CHR ''.'' then Some (0, cs)
      else map_option (apfst (\<lambda>n. 2 * n + (if d = CHR ''1'' then 1 else 0))) (unwire_nat cs))"
| "unwire_nat [] = None"

declare wire_nat.simps [simp del]

lemma unwire_wire_text [simp]: "unwire_text (wire_text s @ rest) = Some (s, rest)"
  by (induction s) simp_all

lemma unwire_wire_nat [simp]: "unwire_nat (wire_nat n @ rest) = Some (n, rest)"
  by (induction n rule: wire_nat.induct) (subst wire_nat.simps, auto)

function wire :: "json \<Rightarrow> string" where
  "wire JNull = ''n''"
| "wire (JBool b) = (if b then ''t'' else ''f'')"
| "wire (JInt n) = (if n < 0 then CHR ''-'' else CHR ''+'') # wire_nat (nat \<bar>n\<bar>)"
| "wire (JReal s) = CHR ''r'' # wire_text s"
| "wire (JStr s) = CHR ''s'' # wire_text s"
| "wire (JArr js) = CHR ''a'' # concat (map wire js) @ ''e''"
| "wire (JObj ms) = CHR ''o'' # concat (map (\<lambda>m. wire_text (fst m) @ wire (snd m)) ms) @ ''e''"
  by pat_completeness auto
termination wire
  by (relation "measure size") (auto simp: less_Suc_eq_le intro!: size_list_estimation')

text \<open>The parser; \<open>n\<close> bounds the depth of the recursion and is at least the length of the input.\<close>

fun unwire :: "nat \<Rightarrow> string \<Rightarrow> (json \<times> string) option"
  and unwire_items :: "nat \<Rightarrow> string \<Rightarrow> (json list \<times> string) option"
  and unwire_members :: "nat \<Rightarrow> string \<Rightarrow> ((string \<times> json) list \<times> string) option" where
  "unwire (Suc n) (d # cs) =
     (if d = CHR ''n'' then Some (JNull, cs)
      else if d = CHR ''t'' then Some (JBool True, cs)
      else if d = CHR ''f'' then Some (JBool False, cs)
      else if d = CHR ''-'' then map_option (apfst (\<lambda>k. JInt (- int k))) (unwire_nat cs)
      else if d = CHR ''+'' then map_option (apfst (\<lambda>k. JInt (int k))) (unwire_nat cs)
      else if d = CHR ''r'' then map_option (apfst JReal) (unwire_text cs)
      else if d = CHR ''s'' then map_option (apfst JStr) (unwire_text cs)
      else if d = CHR ''a'' then map_option (apfst JArr) (unwire_items n cs)
      else if d = CHR ''o'' then map_option (apfst JObj) (unwire_members n cs)
      else None)"
| "unwire _ _ = None"
| "unwire_items (Suc n) (d # cs) =
     (if d = CHR ''e'' then Some ([], cs)
      else case unwire n (d # cs) of None \<Rightarrow> None
           | Some (j, cs') \<Rightarrow> map_option (apfst ((#) j)) (unwire_items n cs'))"
| "unwire_items _ _ = None"
| "unwire_members (Suc n) (d # cs) =
     (if d = CHR ''e'' then Some ([], cs)
      else case unwire_text (d # cs) of None \<Rightarrow> None
           | Some (k, cs') \<Rightarrow>
               (case unwire n cs' of None \<Rightarrow> None
                | Some (j, cs'') \<Rightarrow> map_option (apfst ((#) (k, j))) (unwire_members n cs'')))"
| "unwire_members _ _ = None"

definition parse_wire :: "string \<Rightarrow> json option" where
  "parse_wire t = (case unwire (length t) t of Some (j, []) \<Rightarrow> Some j | _ \<Rightarrow> None)"

lemma wire_first: "\<exists>d cs. wire j = d # cs \<and> d \<noteq> CHR ''e''"
  by (cases j) auto

lemma wire_text_first: "\<exists>d cs. wire_text s = d # cs \<and> d \<noteq> CHR ''e''"
  by (cases s) auto

lemma unwire_items_wire:
  assumes "\<And>j n rest. j \<in> set js \<Longrightarrow> length (wire j) \<le> n \<Longrightarrow> unwire n (wire j @ rest) = Some (j, rest)"
    and "length (concat (map wire js)) < n"
  shows "unwire_items n (concat (map wire js) @ CHR ''e'' # rest) = Some (js, rest)"
  using assms
proof (induction js arbitrary: n)
  case Nil
  then show ?case by (cases n) auto
next
  case (Cons j js)
  obtain d cs where d: "wire j = d # cs" "d \<noteq> CHR ''e''" using wire_first by blast
  obtain m where n: "n = Suc m" using Cons.prems(2) by (cases n) auto
  have "unwire_items m (concat (map wire js) @ CHR ''e'' # rest) = Some (js, rest)"
    using Cons.prems d n by (intro Cons.IH) auto
  moreover have "unwire m (wire j @ concat (map wire js) @ CHR ''e'' # rest) =
      Some (j, concat (map wire js) @ CHR ''e'' # rest)"
    using Cons.prems n by (intro Cons.prems(1)) auto
  ultimately show ?case using d n by simp
qed

lemma unwire_members_wire:
  assumes "\<And>m n rest. m \<in> set ms \<Longrightarrow> length (wire (snd m)) \<le> n \<Longrightarrow> unwire n (wire (snd m) @ rest) = Some (snd m, rest)"
    and "length (concat (map (\<lambda>m. wire_text (fst m) @ wire (snd m)) ms)) < n"
  shows "unwire_members n (concat (map (\<lambda>m. wire_text (fst m) @ wire (snd m)) ms) @ CHR ''e'' # rest) = Some (ms, rest)"
  using assms
proof (induction ms arbitrary: n)
  case Nil
  then show ?case by (cases n) auto
next
  case (Cons m ms)
  let ?tail = "concat (map (\<lambda>m. wire_text (fst m) @ wire (snd m)) ms) @ CHR ''e'' # rest"
  obtain d cs where d: "wire_text (fst m) = d # cs" "d \<noteq> CHR ''e''" using wire_text_first by blast
  obtain k where n: "n = Suc k" using Cons.prems(2) by (cases n) auto
  have "unwire_members k ?tail = Some (ms, rest)" using Cons.prems d n by (intro Cons.IH) auto
  moreover have "unwire k (wire (snd m) @ ?tail) = Some (snd m, ?tail)"
    using Cons.prems n by (intro Cons.prems(1)) auto
  moreover have "unwire_text (d # (cs @ wire (snd m) @ ?tail)) = Some (fst m, wire (snd m) @ ?tail)"
    using unwire_wire_text [of "fst m" "wire (snd m) @ ?tail"] d by simp
  ultimately show ?case using d n by (simp del: unwire_text.simps)
qed

lemma unwire_wire: "length (wire j) \<le> n \<Longrightarrow> unwire n (wire j @ rest) = Some (j, rest)"
proof (induction j arbitrary: n rest rule: wire.induct)
  case (6 js)
  then obtain m where n: "n = Suc m" by (cases n) auto
  have "unwire_items m (concat (map wire js) @ CHR ''e'' # rest) = Some (js, rest)"
    using 6 n by (intro unwire_items_wire) auto
  with n show ?case by simp
next
  case (7 ms)
  then obtain m where n: "n = Suc m" by (cases n) auto
  have "unwire_members m (concat (map (\<lambda>m. wire_text (fst m) @ wire (snd m)) ms) @ CHR ''e'' # rest) = Some (ms, rest)"
    using 7 n by (intro unwire_members_wire) auto
  with n show ?case by simp
next
  case (3 i n rest)
  then show ?case by (cases n) auto
next
  case (4 s n rest)
  then show ?case by (cases n) auto
next
  case (5 s n rest)
  then show ?case by (cases n) auto
qed (auto simp: Suc_le_eq gr0_conv_Suc)

lemma parse_wire [simp]: "parse_wire (wire j) = Some j"
  using unwire_wire [of j "length (wire j)" "[]"] by (simp add: parse_wire_def)

subsection \<open>The environment\<close>

definition sample_env :: backend_env where
  "sample_env = \<lparr>ev_render = wire, ev_unquote = (\<lambda>s. s), ev_convert = (\<lambda>_. None), ev_uuid = (\<lambda>n. replicate (Suc n) (CHR ''u''))\<rparr>"

lemma sample_env_law: "env_law sample_env parse_wire"
  by (auto simp: env_law_def sample_env_def inj_def simp flip: replicate_Suc dest: arg_cong [of _ _ length])

definition empty_backend :: backend where
  "empty_backend = \<lparr>be_store = empty_store, be_drawn = 0, be_threads = []\<rparr>"

lemma empty_backend_ok: "backend_ok E empty_backend"
  by (simp add: backend_ok_def empty_backend_def store_ok_empty) (simp add: empty_store_def)

end
