(* ===== verification/Backend_Gateway.thy ===== *)
theory Backend_Gateway
  imports Backend_Sample Run_Lifecycle
begin

text \<open>
  The operator's HTTP adapter in front of the backend: what \<open>Submit\<close>, \<open>Get\<close> and \<open>Cancel\<close> come back with when
  the network is the model of the backend. The pieces that belong to neither side, rendering and parsing of
  JSON text and the ids, obey \<open>env_law\<close> of \<open>Backend_Steps\<close>.
\<close>

subsection \<open>Answers\<close>

text \<open>The answers about the runs of the store are shorter than the limit of the adapter.\<close>

definition answer_fits :: "backend_env \<Rightarrow> json \<Rightarrow> bool" where
  "answer_fits E doc \<longleftrightarrow> length (ev_render E doc) < body_limit"

subsection \<open>Routing of the adapter's requests\<close>

lemma route_submit [simp]: "route_of ''POST'' ''/api/agent-runs'' = RouteSubmit"
  by (simp add: route_of_def runs_path_def)

lemma takeWhile_segment: "CHR ''/'' \<notin> set i \<Longrightarrow> takeWhile (\<lambda>c. c \<noteq> CHR ''/'') i = i"
  "CHR ''/'' \<notin> set i \<Longrightarrow> takeWhile (\<lambda>c. c \<noteq> CHR ''/'') (i @ CHR ''/'' # s) = i"
  "CHR ''/'' \<notin> set i \<Longrightarrow> dropWhile (\<lambda>c. c \<noteq> CHR ''/'') i = []"
  "CHR ''/'' \<notin> set i \<Longrightarrow> dropWhile (\<lambda>c. c \<noteq> CHR ''/'') (i @ CHR ''/'' # s) = CHR ''/'' # s"
  by (induction i) auto

lemma route_get:
  "i \<noteq> [] \<Longrightarrow> CHR ''/'' \<notin> set i \<Longrightarrow> route_of ''GET'' (''/api/agent-runs/'' @ i) = RouteGet i"
  by (simp add: route_of_def runs_path_def takeWhile_segment)

lemma route_cancel:
  "i \<noteq> [] \<Longrightarrow> CHR ''/'' \<notin> set i \<Longrightarrow>
     route_of ''POST'' (''/api/agent-runs/'' @ i @ ''/cancel'') = RouteCancel i"
  by (simp add: route_of_def runs_path_def takeWhile_segment)

lemma backend_net_time [simp]: "net_ParseTime (backend_net E base parse ptime) = ptime"
  by (simp add: backend_net_def)

text \<open>One exchange: the reply of the backend, read back by the adapter.\<close>

lemma http_do_backend:
  assumes "hg_baseURL g = base" and "base \<noteq> []" and "\<And>doc. parse (ev_render E doc) = Some doc"
    and "serve E meth path (Some tenant) body B = Some ((code, doc), B')" and "answer_fits E doc"
  shows "http_do (backend_net E base parse ptime) g meth path tenant project key body decode B =
     (if code < 200 \<or> 300 \<le> code then Inl (HTTPStatus code (ev_render E doc))
      else case decode doc of None \<Rightarrow> Inl (DecodeFailed ''decode error'') | Some r \<Rightarrow> Inr r, B')"
proof -
  have "request_headers g tenant project key body ''X-Tenant-Id'' = Some tenant"
    by (simp add: request_headers_def Let_def)
  with assms show ?thesis
    by (simp add: http_do_def backend_net_def read_limited_def answer_fits_def split: option.split)
qed

subsection \<open>Submission\<close>

definition body_of :: "run_submission \<Rightarrow> submit_run_body" where
  "body_of s = \<lparr>srb_Task = rs_Task s, srb_Nodes = rs_Nodes s, srb_ProjectID = rs_ProjectID s,
     srb_IdempotencyKey = rs_IdempotencyKey s\<rparr>"

definition submission_specs :: "run_submission \<Rightarrow> step_spec list" where
  "submission_specs s = step_specs_of (received (body_of s))"

text \<open>The request the store gets for a submission, with the id it may use.\<close>

definition store_request_of :: "backend_env \<Rightarrow> run_submission \<Rightarrow> backend \<Rightarrow> store_request" where
  "store_request_of E s B =
     (ev_uuid E (be_drawn B), rs_TenantID s, rs_Task s, (if rs_ProjectID s = [] then None else Some (rs_ProjectID s)),
      rs_IdempotencyKey s, submission_specs s)"

abbreviation submit_reply :: "backend_env \<Rightarrow> run_submission \<Rightarrow> backend \<Rightarrow> (reply \<times> backend) option" where
  "submit_reply E s B \<equiv> serve E ''POST'' ''/api/agent-runs'' (Some (rs_TenantID s))
     (Some (enc_submit_run_body (body_of s))) B"

text \<open>A submission with a tenant is refused for its form, refused for its graph, or filed.\<close>

lemma submit_reply_eq:
  assumes "rs_TenantID s \<noteq> []"
  shows "submit_reply E s B =
     (if \<not> acceptable (body_of s) then Some ((422, detail ''invalid request''), B)
      else case topological_order (spec_deps (submission_specs s)) of
        None \<Rightarrow> None
      | Some None \<Rightarrow> Some ((422, detail ''nodes must have unique names and valid acyclic dependencies''), B)
      | Some (Some _) \<Rightarrow>
          (case store_request_of E s B of (i, tenant, task, project, key, specs) \<Rightarrow>
             case store_submit i tenant task project key specs (be_store B) of
               (None, S) \<Rightarrow> Some ((500, detail ''Internal Server Error''), B)
             | (Some (run, created), S) \<Rightarrow>
                 Some ((200, enc_run run),
                   if created then
                     \<lparr>be_store = S, be_drawn = Suc (be_drawn B),
                      be_threads = be_threads B @ [(rs_TenantID s, sn_id run)]\<rparr>
                   else B\<lparr>be_store := S\<rparr>)))"
  using assms
  by (simp add: serve_def py_submit_enc submit_run_def require_tenant_def or_empty_def store_request_of_def
      submission_specs_def received_def body_of_def Let_def split: option.split)

lemma httpSubmit_backend:
  assumes "hg_baseURL g \<noteq> []" and "\<And>doc. parse (ev_render E doc) = Some doc"
    and "submit_reply E s B = Some ((code, doc), B')" and "answer_fits E doc"
  shows "httpSubmit (backend_net E (hg_baseURL g) parse ptime) g s B =
     (if code < 200 \<or> 300 \<le> code then Inl (HTTPStatus code (ev_render E doc))
      else case dec_run_envelope ptime doc of
        None \<Rightarrow> Inl (DecodeFailed ''decode error'')
      | Some envelope \<Rightarrow> if br_ID (env_Run envelope) = [] then Inl NoRunID else Inr (projectRun (env_Run envelope)), B')"
  by (simp add: httpSubmit_def http_do_backend [OF refl assms(1,2) assms(3) [unfolded body_of_def] assms(4)]
      split: option.split)

text \<open>The form and the graph are those the backend accepts.\<close>

definition submittable :: "run_submission \<Rightarrow> bool" where
  "submittable s \<longleftrightarrow> acceptable (body_of s) \<and>
     (case topological_order (spec_deps (submission_specs s)) of Some (Some _) \<Rightarrow> True | _ \<Rightarrow> False)"

definition refusal_of :: "run_submission \<Rightarrow> json" where
  "refusal_of s = (if acceptable (body_of s) then detail ''nodes must have unique names and valid acyclic dependencies''
     else detail ''invalid request'')"

definition submit_fits :: "backend_env \<Rightarrow> run_submission \<Rightarrow> backend \<Rightarrow> bool" where
  "submit_fits E s B \<longleftrightarrow> (case submit_reply E s B of None \<Rightarrow> True | Some ((_, doc), _) \<Rightarrow> answer_fits E doc)"

lemma submit_fitsD: "submit_fits E s B \<Longrightarrow> submit_reply E s B = Some ((code, doc), B') \<Longrightarrow> answer_fits E doc"
  by (simp add: submit_fits_def)

lemma refused_reply:
  assumes "rs_TenantID s \<noteq> []" and "\<not> submittable s"
  shows "submit_reply E s B = Some ((422, refusal_of s), B)"
proof -
  obtain res where "topological_order (spec_deps (submission_specs s)) = Some res"
    using topological_order_returns by blast
  with assms show ?thesis
    by (cases res) (auto simp: submit_reply_eq submittable_def refusal_of_def)
qed

text \<open>A submission the backend accepts is filed by the store, and the adapter reads back what was filed.\<close>

definition control_of :: "run_record \<Rightarrow> control_plane_run" where
  "control_of r = projectRun (backend_run_of (snapshot r))"

lemma control_of_simps [simp]:
  "cpr_ID (control_of r) = rr_id r" "cpr_Status (control_of r) = rr_status r"
  by (simp_all add: control_of_def projectRun_def backend_run_of_def snapshot_def)

abbreviation store_answer :: "backend_env \<Rightarrow> run_submission \<Rightarrow> backend \<Rightarrow> (run_snapshot \<times> bool) option \<times> run_store" where
  "store_answer E s B \<equiv> store_submit (ev_uuid E (be_drawn B)) (rs_TenantID s) (rs_Task s)
     (if rs_ProjectID s = [] then None else Some (rs_ProjectID s)) (rs_IdempotencyKey s) (submission_specs s) (be_store B)"

lemma store_files:
  assumes "env_law E parse" and "backend_ok E B"
  shows "\<exists>r created S. store_answer E s B = (Some (snapshot r, created), S) \<and> ms_runs S (rr_id r) = Some r \<and>
     rr_id r \<noteq> [] \<and> rr_tenant_id r = rs_TenantID s \<and> latencies_fit (rr_steps r) \<and> (\<not> created \<longrightarrow> S = be_store B)"
proof (cases "or_empty (ms_idempotency (be_store B) (rs_TenantID s, rs_IdempotencyKey s)) = []")
  case True
  let ?r = "new_record (ev_uuid E (be_drawn B)) (rs_TenantID s) (rs_Task s)
      (if rs_ProjectID s = [] then None else Some (rs_ProjectID s)) (submission_specs s)"
  have "latencies_fit (rr_steps ?r)"
    by (auto simp: latencies_fit_def new_record_def new_step_def int64_ok_def int64_min_def int64_max_def)
  moreover have "rr_id ?r = ev_uuid E (be_drawn B)" "rr_tenant_id ?r = rs_TenantID s"
    by (simp_all add: new_record_def)
  moreover have "ev_uuid E (be_drawn B) \<noteq> []" using assms(1) by (simp add: env_law_def)
  ultimately show ?thesis using True
    by (intro exI [of _ ?r] exI [of _ True]) (simp add: store_submit_def Let_def)
next
  case False
  then obtain i where i: "ms_idempotency (be_store B) (rs_TenantID s, rs_IdempotencyKey s) = Some i" and "i \<noteq> []"
    by (auto simp: or_empty_def split: option.splits)
  have ok: "store_ok (be_store B)" "latencies_ok (be_store B)" using assms(2) by (simp_all add: backend_ok_parts)
  from store_okD(2) [OF ok(1) i] obtain r where r: "ms_runs (be_store B) i = Some r" "rr_tenant_id r = rs_TenantID s"
    by auto
  with store_okD(1) [OF ok(1)] have "rr_id r = i" by (auto simp: record_ok_def)
  moreover have "latencies_fit (rr_steps r)" using ok(2) r(1) by (simp add: latencies_ok_def)
  ultimately show ?thesis using r i \<open>i \<noteq> []\<close>
    by (intro exI [of _ r] exI [of _ False]) (simp add: store_submit_def or_empty_def)
qed

text \<open>The two outcomes of a submission.\<close>

lemma refused_submission:
  assumes "env_law E parse" and "hg_baseURL g \<noteq> []" and "rs_TenantID s \<noteq> []" and "submit_fits E s B"
    and "\<not> submittable s"
  shows "httpSubmit (backend_net E (hg_baseURL g) parse ptime) g s B =
     (Inl (HTTPStatus 422 (ev_render E (refusal_of s))), B)"
proof -
  have parse: "parse (ev_render E doc) = Some doc" for doc using assms(1) by (simp add: env_law_def)
  note reply = refused_reply [OF assms(3,5)]
  show ?thesis by (simp add: httpSubmit_backend [OF assms(2) parse reply submit_fitsD [OF assms(4) reply]])
qed

lemma filed_submission:
  assumes "env_law E parse" and "hg_baseURL g \<noteq> []" and "rs_TenantID s \<noteq> []" and "submit_fits E s B"
    and "backend_ok E B" and "submittable s"
  shows "\<exists>r created B'. httpSubmit (backend_net E (hg_baseURL g) parse ptime) g s B = (Inr (control_of r), B') \<and>
     file_request (store_request_of E s B) (be_store B) = (Some (rr_id r, created), be_store B') \<and>
     ms_runs (be_store B') (rr_id r) = Some r \<and> rr_tenant_id r = rs_TenantID s \<and> backend_step E B B' \<and>
     (if created then be_threads B' = be_threads B @ [(rs_TenantID s, rr_id r)] else B' = B)"
proof -
  have parse: "parse (ev_render E doc) = Some doc" for doc using assms(1) by (simp add: env_law_def)
  from store_files [OF assms(1,5), of s] obtain r created S where
    store: "store_answer E s B = (Some (snapshot r, created), S)" and
    r: "ms_runs S (rr_id r) = Some r" "rr_id r \<noteq> []" "rr_tenant_id r = rs_TenantID s" "latencies_fit (rr_steps r)" and
    S: "\<not> created \<longrightarrow> S = be_store B" by blast
  have id: "sn_id (snapshot r) = rr_id r" by (simp add: snapshot_def)
  have steps: "\<forall>s \<in> set (sn_steps (snapshot r)). int64_ok (sp_latency_ms s)"
    using r(4) by (simp add: latencies_fit_def snapshot_def)
  define B' where "B' = (if created then
      \<lparr>be_store = S, be_drawn = Suc (be_drawn B), be_threads = be_threads B @ [(rs_TenantID s, rr_id r)]\<rparr> else B)"
  have "\<not> created \<longrightarrow> B\<lparr>be_store := S\<rparr> = B" using S by simp
  with assms(6) store have reply: "submit_reply E s B = Some ((200, enc_run (snapshot r)), B')"
    by (auto simp: submit_reply_eq [OF assms(3)] submittable_def store_request_of_def id B'_def split: option.splits)
  have "br_ID (backend_run_of (snapshot r)) \<noteq> []" using r(2) by (simp add: backend_run_of_def id)
  with httpSubmit_backend [OF assms(2) parse reply submit_fitsD [OF assms(4) reply], of ptime]
    dec_enc_run [OF steps, of ptime]
  have "httpSubmit (backend_net E (hg_baseURL g) parse ptime) g s B = (Inr (control_of r), B')"
    by (simp add: control_of_def)
  moreover have "be_store B' = S" using S by (simp add: B'_def)
  moreover have "file_request (store_request_of E s B) (be_store B) = (Some (rr_id r, created), S)"
    by (simp add: file_request_def store_request_of_def store id)
  ultimately show ?thesis using r backend_step.request [OF reply]
    by (intro exI [of _ r] exI [of _ created] exI [of _ B']) (simp add: B'_def)
qed

lemma fresh_request:
  assumes "env_law E parse" and "backend_ok E B"
  shows "request_fresh (store_request_of E s B) (be_store B)"
  using assms next_id_fresh [OF assms(1), of B]
  by (simp add: request_fresh_def store_request_of_def env_law_def backend_ok_parts)


subsection \<open>One run for one key\<close>

text \<open>
  C6. A submission that was answered has its run for ever: whatever requests and executions happen in
  between, submitting again for the same tenant under the same key, with whatever task and nodes, finds
  that very run, starts no execution and changes nothing at the backend, unless the new form is refused.
\<close>

theorem resubmission_reaches_same_run:
  assumes "env_law E parse" and "hg_baseURL g \<noteq> []" and "backend_ok E B" and "submit_fits E s B"
    and "rs_TenantID s \<noteq> []"
    and "httpSubmit (backend_net E (hg_baseURL g) parse ptime) g s B = (Inr c, B1)"
    and "(backend_step E)\<^sup>*\<^sup>* B1 B2" and "submit_fits E s' B2"
    and "rs_TenantID s' = rs_TenantID s" and "rs_IdempotencyKey s' = rs_IdempotencyKey s"
  shows "submittable s \<and>
     (\<exists>r. ms_runs (be_store B2) (cpr_ID c) = Some r \<and> rr_tenant_id r = rs_TenantID s \<and>
        httpSubmit (backend_net E (hg_baseURL g) parse ptime) g s' B2 =
          (if submittable s' then Inr (control_of r) else Inl (HTTPStatus 422 (ev_render E (refusal_of s'))), B2))"
proof -
  have s: "submittable s"
    using refused_submission [OF assms(1,2,5,4)] assms(6) by (cases "submittable s") auto
  from filed_submission [OF assms(1,2,5,4,3) s, of ptime] assms(6) obtain created where
    filed: "file_request (store_request_of E s B) (be_store B) = (Some (cpr_ID c, created), be_store B1)" and
    step: "backend_step E B B1"
    by auto
  have ok: "store_ok (be_store B)" "backend_ok E B1"
    using assms(3) backend_step_keeps [OF step assms(1,3)] by (simp_all add: backend_ok_parts)
  from backend_steps_keep [OF assms(7,1) ok(2)] have ok2: "backend_ok E B2"
    and steps: "store_step\<^sup>*\<^sup>* (be_store B1) (be_store B2)" by auto
  note fresh = fresh_request [OF assms(1,3), of s]
  let ?key = "(rs_TenantID s, rs_IdempotencyKey s)"
  have key: "request_key (store_request_of E s0 B0) = (rs_TenantID s0, rs_IdempotencyKey s0)" for s0 B0
    by (simp add: request_key_def store_request_of_def)
  from memory_ledger.submitted_found [OF ok(1) fresh filed] memory_ledger.steps_lookup [OF steps]
  have "ms_idempotency (be_store B2) ?key = Some (cpr_ID c)" by (simp add: key)
  moreover have "store_ok (be_store B2)" using ok2 by (simp add: backend_ok_parts)
  ultimately obtain r where r: "ms_runs (be_store B2) (cpr_ID c) = Some r" "rr_tenant_id r = rs_TenantID s"
    using store_okD(2) by blast
  have tenant: "rs_TenantID s' \<noteq> []" using assms(5,9) by simp
  show ?thesis
  proof (cases "submittable s'")
    case True
    have "request_key (store_request_of E s' B2) = request_key (store_request_of E s B)"
      unfolding key using assms(9,10) by simp
    from memory_ledger.resubmitted [OF ok(1) fresh filed steps this TrueI]
    have again: "file_request (store_request_of E s' B2) (be_store B2) = (Some (cpr_ID c, False), be_store B2)" .
    from filed_submission [OF assms(1,2) tenant assms(8) ok2 True, of ptime] obtain r' created' B3 where
      "httpSubmit (backend_net E (hg_baseURL g) parse ptime) g s' B2 = (Inr (control_of r'), B3)"
      "file_request (store_request_of E s' B2) (be_store B2) = (Some (rr_id r', created'), be_store B3)"
      "ms_runs (be_store B3) (rr_id r') = Some r'"
      "if created' then be_threads B3 = be_threads B2 @ [(rs_TenantID s', rr_id r')] else B3 = B2" by blast
    moreover from this(2) again have "rr_id r' = cpr_ID c" "\<not> created'" by simp_all
    ultimately show ?thesis using r s True by simp
  next
    case False
    with refused_submission [OF assms(1,2) tenant assms(8) False, of ptime] r s show ?thesis by auto
  qed
qed

subsection \<open>A submission on the concrete environment\<close>

definition two_step_submission :: run_submission where
  "two_step_submission =
     \<lparr>rs_TenantID = ''t1'', rs_ProjectID = [], rs_Task = ''report'',
      rs_Nodes =
        [\<lparr>rn_Name = ''draft'', rn_Prompt = ''write'', rn_Role = [], rn_Model = ''m'', rn_MaxTokens = 256,
          rn_DependsOn = [], rn_MaxRetries = Some 1\<rparr>,
         \<lparr>rn_Name = ''review'', rn_Prompt = ''check'', rn_Role = [], rn_Model = ''m'', rn_MaxTokens = 256,
          rn_DependsOn = [''draft''], rn_MaxRetries = None\<rparr>],
      rs_IdempotencyKey = ''k1''\<rparr>"

definition local_gateway :: http_run_gateway where
  "local_gateway = NewHTTPRunGateway ''http://backend/'' [] None"

abbreviation sample_backend_net :: "backend net" where
  "sample_backend_net \<equiv> backend_net sample_env (hg_baseURL local_gateway) parse_wire (\<lambda>_. None)"

definition filed_record :: run_record where
  "filed_record = new_record ''u'' ''t1'' ''report'' None (submission_specs two_step_submission)"

definition filed_backend :: backend where
  "filed_backend = \<lparr>be_store = \<lparr>ms_runs = [''u'' \<mapsto> filed_record], ms_idempotency = [(''t1'', ''k1'') \<mapsto> ''u'']\<rparr>,
     be_drawn = 1, be_threads = [(''t1'', ''u'')]\<rparr>"

lemma local_gateway_url: "hg_baseURL local_gateway \<noteq> []"
  by code_simp

lemma answer_fits_short: "length (ev_render E doc) \<le> 2000 \<Longrightarrow> answer_fits E doc"
  by (simp add: answer_fits_def body_limit_def)

lemma submit_fits_short:
  "(case submit_reply E s B of None \<Rightarrow> True | Some ((_, doc), _) \<Rightarrow> length (ev_render E doc) \<le> 2000) \<Longrightarrow>
     submit_fits E s B"
  by (auto simp: submit_fits_def answer_fits_short split: option.splits prod.splits)

lemma sample_submittable: "submittable two_step_submission"
  by code_simp

lemma sample_fits: "submit_fits sample_env two_step_submission empty_backend"
  by (rule submit_fits_short) code_simp

lemma sample_resubmission:
  "submittable (two_step_submission\<lparr>rs_Task := ''other''\<rparr>)"
  "submit_fits sample_env (two_step_submission\<lparr>rs_Task := ''other''\<rparr>) filed_backend"
  by code_simp (rule submit_fits_short, code_simp)

lemma sample_reply:
  "submit_reply sample_env two_step_submission empty_backend = Some ((200, enc_run (snapshot filed_record)), filed_backend)"
proof -
  have "rs_TenantID two_step_submission \<noteq> []" by (simp add: two_step_submission_def)
  moreover have "store_answer sample_env two_step_submission empty_backend =
      (Some (snapshot filed_record, True), be_store filed_backend)"
    by (simp add: store_submit_def empty_backend_def empty_store_def or_empty_def filed_record_def filed_backend_def
        sample_env_def) (simp add: two_step_submission_def Let_def)
  ultimately show ?thesis
    using sample_submittable
    by (auto simp: submit_reply_eq submittable_def store_request_of_def filed_backend_def empty_backend_def
        snapshot_def filed_record_def new_record_def split: option.splits) (simp_all add: two_step_submission_def)
qed

lemma sample_filed:
  "httpSubmit sample_backend_net local_gateway two_step_submission empty_backend = (Inr (control_of filed_record), filed_backend)"
proof -
  have parse: "parse_wire (ev_render sample_env doc) = Some doc" for doc
    using sample_env_law by (simp add: env_law_def)
  have "\<forall>s \<in> set (sn_steps (snapshot filed_record)). int64_ok (sp_latency_ms s)"
    by (auto simp: snapshot_def filed_record_def new_record_def new_step_def int64_ok_def int64_min_def int64_max_def)
  note dec = dec_enc_run [OF this]
  have "br_ID (backend_run_of (snapshot filed_record)) \<noteq> []"
    by (simp add: backend_run_of_def snapshot_def filed_record_def new_record_def)
  then show ?thesis
    by (simp add: httpSubmit_backend [OF local_gateway_url parse sample_reply submit_fitsD [OF sample_fits sample_reply]]
        dec control_of_def)
qed

theorem resubmission_reaches_same_run_witness:
  "\<exists>r. ms_runs (be_store filed_backend) ''u'' = Some r \<and>
     httpSubmit sample_backend_net local_gateway (two_step_submission\<lparr>rs_Task := ''other''\<rparr>) filed_backend =
       (Inr (control_of r), filed_backend)"
proof -
  have "rs_TenantID two_step_submission \<noteq> []" by (simp add: two_step_submission_def)
  from resubmission_reaches_same_run [OF sample_env_law local_gateway_url empty_backend_ok sample_fits this sample_filed
      rtranclp.rtrancl_refl sample_resubmission(2)] sample_resubmission(1)
  obtain r where "ms_runs (be_store filed_backend) (cpr_ID (control_of filed_record)) = Some r"
    "httpSubmit sample_backend_net local_gateway (two_step_submission\<lparr>rs_Task := ''other''\<rparr>) filed_backend =
      (Inr (control_of r), filed_backend)" by auto
  moreover have "cpr_ID (control_of filed_record) = ''u''" by (simp add: filed_record_def new_record_def)
  ultimately show ?thesis by auto
qed

subsection \<open>Questions and cancellations\<close>

lemma stored_id:
  assumes "env_law E parse" and "backend_ok E B" and "ms_runs (be_store B) i = Some r"
  shows "i \<noteq> [] \<and> CHR ''/'' \<notin> set i \<and> ev_unquote E i = i"
proof -
  from assms(2,3) obtain n where "i = ev_uuid E n" unfolding backend_ok_def by blast
  with assms(1) show ?thesis by (simp add: env_law_def)
qed

lemma httpGet_backend:
  assumes "env_law E parse" and "backend_ok E B" and "hg_baseURL g \<noteq> []" and "tenant \<noteq> []"
    and "ms_runs (be_store B) i = Some r"
    and "rr_tenant_id r = tenant \<Longrightarrow> answer_fits E (enc_run (snapshot r))"
    and "rr_tenant_id r \<noteq> tenant \<Longrightarrow> answer_fits E (detail ''run not found'')"
  shows "httpGet (backend_net E (hg_baseURL g) parse ptime) g tenant i B =
     (if rr_tenant_id r = tenant then Inr (control_of r)
      else Inl (HTTPStatus 404 (ev_render E (detail ''run not found''))), B)"
proof -
  have parse: "parse (ev_render E doc) = Some doc" for doc using assms(1) by (simp add: env_law_def)
  note i = stored_id [OF assms(1,2,5)]
  have ok: "\<forall>s \<in> set (sn_steps (snapshot r)). int64_ok (sp_latency_ms s)"
    using assms(2,5) by (simp add: backend_ok_def snapshot_def)
  have reply: "serve E ''GET'' (''/api/agent-runs/'' @ i) (Some tenant) None B =
      Some (if rr_tenant_id r = tenant then (200, enc_run (snapshot r)) else (404, detail ''run not found''), B)"
    using i assms(4,5)
    by (simp add: serve_def route_get [simplified] get_run_def require_tenant_def or_empty_def store_get_def owned_def)
  show ?thesis
  proof (cases "rr_tenant_id r = tenant")
    case True
    have served: "serve E ''GET'' (''/api/agent-runs/'' @ i) (Some tenant) None B =
        Some ((200, enc_run (snapshot r)), B)"
      using reply by (simp only: if_P [OF True])
    from True show ?thesis
      unfolding httpGet_def http_do_backend [OF refl assms(3) parse served assms(6) [OF True]]
      by (simp add: dec_enc_run [OF ok] control_of_def)
  next
    case False
    have served: "serve E ''GET'' (''/api/agent-runs/'' @ i) (Some tenant) None B =
        Some ((404, detail ''run not found''), B)"
      using reply by (simp only: if_not_P [OF False])
    from False show ?thesis
      unfolding httpGet_def http_do_backend [OF refl assms(3) parse served assms(7) [OF False]] by simp
  qed
qed

text \<open>The backend answers about the run it was asked for, as \<open>answers_match\<close> requires.\<close>

lemma backend_answers_match:
  assumes "env_law E parse" and "backend_ok E B" and "hg_baseURL g \<noteq> []" and "tenant \<noteq> []"
    and "ms_runs (be_store B) i = Some r" and "answer_fits E (enc_run (snapshot r))" and "answer_fits E (detail ''run not found'')"
    and "httpGet (backend_net E (hg_baseURL g) parse ptime) g tenant i B = (Inr c, B')"
  shows "answers_match [EvPoll tenant i (Inr c)]"
proof -
  have "c = control_of r"
    using httpGet_backend [OF assms(1-5), of ptime] assms(6-8) by (simp split: if_splits)
  moreover have "rr_id r = i"
    using assms(2,5) store_okD(1) [of "be_store B" i r] by (simp add: backend_ok_parts record_ok_def)
  ultimately show ?thesis by (simp add: answers_match_def)
qed

lemma httpCancel_backend:
  assumes "env_law E parse" and "backend_ok E B" and "hg_baseURL g \<noteq> []" and "tenant \<noteq> []"
    and "ms_runs (be_store B) i = Some r" and "rr_tenant_id r = tenant"
    and "answer_fits E (enc_run (snapshot (cancelled_record r)))"
  shows "httpCancel (backend_net E (hg_baseURL g) parse ptime) g tenant i B =
     (Inr (control_of (cancelled_record r)),
      B\<lparr>be_store := (be_store B)\<lparr>ms_runs := (ms_runs (be_store B))(i \<mapsto> cancelled_record r)\<rparr>\<rparr>)"
proof -
  have parse: "parse (ev_render E doc) = Some doc" for doc using assms(1) by (simp add: env_law_def)
  note i = stored_id [OF assms(1,2,5)]
  have "\<forall>s \<in> set (rr_steps r). int64_ok (sp_latency_ms s)"
    using assms(2,5) by (simp add: backend_ok_def)
  then have ok: "\<forall>s \<in> set (sn_steps (snapshot (cancelled_record r))). int64_ok (sp_latency_ms s)"
    by (auto simp: snapshot_def cancelled_record_def)
  have reply: "serve E ''POST'' (''/api/agent-runs/'' @ i @ ''/cancel'') (Some tenant) None B =
      Some ((200, enc_run (snapshot (cancelled_record r))),
        B\<lparr>be_store := (be_store B)\<lparr>ms_runs := (ms_runs (be_store B))(i \<mapsto> cancelled_record r)\<rparr>\<rparr>)"
    using i assms(4-6)
    by (simp add: serve_def route_cancel [simplified] cancel_run_def require_tenant_def or_empty_def store_cancel_def owned_def)
  show ?thesis
    unfolding httpCancel_def http_do_backend [OF refl assms(3) parse reply assms(7)]
    by (simp add: dec_enc_run [OF ok] control_of_def)
qed

subsection \<open>Tenants\<close>

text \<open>A question or a cancellation about a run that is not the tenant's.\<close>

lemma unowned_run:
  assumes "env_law E parse" and "hg_baseURL g \<noteq> []" and "tenant \<noteq> []" and "owned tenant (ev_uuid E n) (be_store B) = None"
    and "answer_fits E (detail ''run not found'')"
  shows "httpGet (backend_net E (hg_baseURL g) parse ptime) g tenant (ev_uuid E n) B =
       (Inl (HTTPStatus 404 (ev_render E (detail ''run not found''))), B)"
    and "httpCancel (backend_net E (hg_baseURL g) parse ptime) g tenant (ev_uuid E n) B =
       (Inl (HTTPStatus 404 (ev_render E (detail ''run not found''))), B)"
proof -
  have parse: "parse (ev_render E doc) = Some doc" for doc using assms(1) by (simp add: env_law_def)
  have i: "ev_uuid E n \<noteq> []" "CHR ''/'' \<notin> set (ev_uuid E n)" "ev_unquote E (ev_uuid E n) = ev_uuid E n"
    using assms(1) by (simp_all add: env_law_def)
  have asked: "serve E ''GET'' (''/api/agent-runs/'' @ ev_uuid E n) (Some tenant) None B = Some ((404, detail ''run not found''), B)"
    using i assms(3,4)
    by (simp add: serve_def route_get [simplified] get_run_def require_tenant_def or_empty_def store_get_def)
  have cancelled: "serve E ''POST'' (''/api/agent-runs/'' @ ev_uuid E n @ ''/cancel'') (Some tenant) None B =
      Some ((404, detail ''run not found''), B)"
    using i assms(3,4)
    by (simp add: serve_def route_cancel [simplified] cancel_run_def require_tenant_def or_empty_def store_cancel_def)
  show "httpGet (backend_net E (hg_baseURL g) parse ptime) g tenant (ev_uuid E n) B =
      (Inl (HTTPStatus 404 (ev_render E (detail ''run not found''))), B)"
    unfolding httpGet_def http_do_backend [OF refl assms(2) parse asked assms(5)] by simp
  show "httpCancel (backend_net E (hg_baseURL g) parse ptime) g tenant (ev_uuid E n) B =
      (Inl (HTTPStatus 404 (ev_render E (detail ''run not found''))), B)"
    unfolding httpCancel_def http_do_backend [OF refl assms(2) parse cancelled assms(5)] by simp
qed

text \<open>
  C31. Tenants are separate at the backend: over the operator's adapter, a question about a run of another
  tenant and its cancellation are answered exactly as for a run that does not exist, and change nothing.
\<close>

theorem foreign_run_is_unknown:
  assumes "env_law E parse" and "hg_baseURL g \<noteq> []" and "tenant \<noteq> []"
    and "ms_runs (be_store B) (ev_uuid E n) = Some r" and "rr_tenant_id r \<noteq> tenant"
    and "ms_runs (be_store B') (ev_uuid E n') = None" and "answer_fits E (detail ''run not found'')"
  shows "\<exists>unknown. httpGet (backend_net E (hg_baseURL g) parse ptime) g tenant (ev_uuid E n) B = (unknown, B) \<and>
     httpCancel (backend_net E (hg_baseURL g) parse ptime) g tenant (ev_uuid E n) B = (unknown, B) \<and>
     httpGet (backend_net E (hg_baseURL g) parse ptime) g tenant (ev_uuid E n') B' = (unknown, B') \<and>
     httpCancel (backend_net E (hg_baseURL g) parse ptime) g tenant (ev_uuid E n') B' = (unknown, B')"
proof -
  have "owned tenant (ev_uuid E n) (be_store B) = None" "owned tenant (ev_uuid E n') (be_store B') = None"
    using assms(4-6) by (simp_all add: owned_def)
  from unowned_run [OF assms(1-3) this(1) assms(7)] unowned_run [OF assms(1-3) this(2) assms(7)] show ?thesis by simp
qed

theorem foreign_run_is_unknown_witness:
  "\<exists>unknown. httpGet sample_backend_net local_gateway ''t2'' ''u'' filed_backend = (unknown, filed_backend)"
proof -
  have "ms_runs (be_store filed_backend) (ev_uuid sample_env 0) = Some filed_record"
    "ms_runs (be_store empty_backend) (ev_uuid sample_env 0) = None" "ev_uuid sample_env 0 = ''u''"
    by (simp_all add: filed_backend_def empty_backend_def empty_store_def sample_env_def)
  moreover have "rr_tenant_id filed_record \<noteq> ''t2''" by (simp add: filed_record_def new_record_def)
  moreover have "answer_fits sample_env (detail ''run not found'')" by (rule answer_fits_short) code_simp
  ultimately show ?thesis
    using foreign_run_is_unknown [OF sample_env_law local_gateway_url, of "''t2''" filed_backend 0 filed_record
        empty_backend 0 "\<lambda>_. None"] by auto
qed

text \<open>
  C32. The pass on a deleted run believes the label of the run. When the label names another tenant than the
  one under which the run was submitted, the backend refuses the cancellation as unknown, the pass takes
  that for a settled run and only takes the finalizer off: the backend run goes on, orphaned.
\<close>

theorem deletion_under_foreign_label:
  assumes "env_law E parse" and "hg_baseURL g \<noteq> []" and "answer_fits E (detail ''run not found'')"
    and "kGetAgentRun K request B = (Inr run, B)" and "\<not> time_is_zero (om_DeletionTimestamp (run_Meta run))"
    and "contains_finalizer P (om_Finalizers (run_Meta run)) runFinalizer"
    and "st_BackendRunID (run_Status run) = ev_uuid E n" and "\<not> isTerminal (st_Phase (run_Status run))"
    and "map_get (om_Labels (run_Meta run)) TenantIDLabel \<noteq> []"
    and "ms_runs (be_store B) (ev_uuid E n) = Some r"
    and "rr_tenant_id r \<noteq> map_get (om_Labels (run_Meta run)) TenantIDLabel"
  shows "Reconcile P K (http_gateway (backend_net E (hg_baseURL g) parse ptime) g) T request B = release P K run B"
proof -
  have "ev_uuid E n \<noteq> []" using assms(1) by (simp add: env_law_def)
  moreover have "owned (map_get (om_Labels (run_Meta run)) TenantIDLabel) (ev_uuid E n) (be_store B) = None"
    using assms(10,11) by (simp add: owned_def)
  ultimately show ?thesis
    using assms(4-8) unowned_run(2) [OF assms(1,2,9) _ assms(3), of n B ptime]
    by (simp add: Reconcile_def reconcileDelete_def Let_def http_gateway_def)
qed

definition relabelled_run :: agent_run where
  "relabelled_run = deleted_run\<lparr>run_Status := (run_Status deleted_run)\<lparr>st_BackendRunID := ''u''\<rparr>\<rparr>"

theorem deletion_under_foreign_label_witness:
  "Reconcile sample_platform (run_kube relabelled_run sample_agent) (http_gateway sample_backend_net local_gateway) sample_clock
     sample_key filed_backend = (Inr empty_result, filed_backend)"
proof -
  have "release sample_platform (run_kube relabelled_run sample_agent) relabelled_run filed_backend = (Inr empty_result, filed_backend)"
    by (simp add: release_def)
  moreover have "Reconcile sample_platform (run_kube relabelled_run sample_agent) (http_gateway sample_backend_net local_gateway)
      sample_clock sample_key filed_backend = release sample_platform (run_kube relabelled_run sample_agent) relabelled_run filed_backend"
  proof (rule deletion_under_foreign_label [OF sample_env_law local_gateway_url, where n = 0 and r = filed_record])
    show "answer_fits sample_env (detail ''run not found'')" by (rule answer_fits_short) code_simp
    show "\<not> isTerminal (st_Phase (run_Status relabelled_run))"
      by (simp add: relabelled_run_def)
  qed (simp_all add: relabelled_run_def filed_backend_def filed_record_def new_record_def sample_env_def
      deleted_run_simps)
  ultimately show ?thesis by simp
qed

end
