(* ===== verification/Api_Schema.thy ===== *)
theory Api_Schema
  imports Backend_Gateway
begin

text \<open>
  The validation markers of src/api/v1alpha1: what the API server admits into the cluster, and how it
  compares with what the backend admits. A field left out is read by Go as its zero value, so a bound on
  an optional field allows zero beside its range.
\<close>

subsection \<open>Formats\<close>

definition text_bounds :: "nat \<Rightarrow> nat \<Rightarrow> string \<Rightarrow> bool" where
  "text_bounds lo hi s \<longleftrightarrow> lo \<le> characters s \<and> characters s \<le> hi"

definition optional_int :: "int \<Rightarrow> int \<Rightarrow> bool" where
  "optional_int lo n \<longleftrightarrow> n = 0 \<or> lo \<le> n"

definition is_hex :: "char \<Rightarrow> bool" where
  "is_hex c \<longleftrightarrow> 48 \<le> byte c \<and> byte c \<le> 57 \<or> 65 \<le> byte c \<and> byte c \<le> 70 \<or> 97 \<le> byte c \<and> byte c \<le> 102"

definition hexes :: "nat \<Rightarrow> string \<Rightarrow> string option" where
  "hexes n s = (if n \<le> length s \<and> list_all is_hex (take n s) then Some (drop n s) else None)"

definition dash :: "string \<Rightarrow> string" where
  "dash s = (case s of [] \<Rightarrow> [] | c # cs \<Rightarrow> if c = CHR ''-'' then cs else s)"

text \<open>The format \<open>uuid\<close> of the OpenAPI validator: 8, 4, 4, 4 and 12 hexadecimal digits, dashes optional.\<close>

definition uuid_format :: "string \<Rightarrow> bool" where
  "uuid_format s =
     (Option.bind (Option.bind (Option.bind (Option.bind (hexes 8 s)
        (\<lambda>s. hexes 4 (dash s))) (\<lambda>s. hexes 4 (dash s))) (\<lambda>s. hexes 4 (dash s))) (\<lambda>s. hexes 12 (dash s)) = Some [])"

lemma hexes_length: "hexes n s = Some t \<Longrightarrow> length s = n + length t"
  by (auto simp: hexes_def split: if_splits)

lemma dash_length: "length s \<le> Suc (length (dash s))"
  by (auto simp: dash_def split: list.splits)

lemma hexes_dash: "hexes n (dash s) = Some t \<Longrightarrow> length s \<le> Suc (n + length t)"
  using dash_length [of s] hexes_length [of n "dash s" t] by simp

lemma uuid_format_length:
  assumes "uuid_format s"
  shows "length s \<le> 36"
proof -
  from assms obtain s1 s2 s3 s4 where "hexes 8 s = Some s1" "hexes 4 (dash s1) = Some s2"
    "hexes 4 (dash s2) = Some s3" "hexes 4 (dash s3) = Some s4" "hexes 12 (dash s4) = Some []"
    by (auto simp: uuid_format_def bind_eq_Some_conv)
  from hexes_length [OF this(1)] this(2-5) [THEN hexes_dash] show ?thesis by simp
qed

lemma characters_length: "characters s \<le> length s"
  by (simp add: characters_def)

subsection \<open>Agents\<close>

text \<open>\<open>model\<close> may be left out; when it is there, provider and model are required.\<close>

definition model_valid :: "model_ref \<Rightarrow> bool" where
  "model_valid m \<longleftrightarrow> m = \<lparr>mr_ProviderRef = [], mr_Model = [], mr_MaxTokens = 0\<rparr> \<or>
     mr_ProviderRef m \<noteq> [] \<and> mr_Model m \<noteq> [] \<and> optional_int 1 (mr_MaxTokens m)"

definition sandbox_valid :: "sandbox_spec \<Rightarrow> bool" where
  "sandbox_valid s \<longleftrightarrow> sb_Mode s \<in> {[], ''required'', ''optional'', ''disabled''} \<and>
     optional_int 1 (sb_PersistentVolumeSizeGi s) \<and> optional_int 30 (sb_IdleTimeoutSeconds s)"

definition budget_valid :: "budget_spec \<Rightarrow> bool" where
  "budget_valid b \<longleftrightarrow> optional_int 1 (bs_MaxConcurrentRuns b) \<and> optional_int 1 (bs_MaxTokensPerRun b) \<and>
     optional_int 1 (bs_MaxRunsPerDay b)"

definition agent_spec_valid :: "agent_spec \<Rightarrow> bool" where
  "agent_spec_valid s \<longleftrightarrow> uuid_format (as_ProjectID s) \<and> rt_Engine (as_Runtime s) \<in> {[], ''governed''} \<and>
     model_valid (as_Model s) \<and> (\<forall>t \<in> set (as_Tools s). tool_Ref t \<noteq> []) \<and>
     sandbox_valid (as_Sandbox s) \<and> budget_valid (as_Budget s)"

subsection \<open>Runs\<close>

definition dag_node_valid :: "dag_node \<Rightarrow> bool" where
  "dag_node_valid n \<longleftrightarrow> text_bounds 1 64 (dn_Name n) \<and> text_bounds 0 32000 (dn_Prompt n)"

definition dag_valid :: "dag_spec \<Rightarrow> bool" where
  "dag_valid d \<longleftrightarrow> length (dag_Nodes d) \<le> 64 \<and> (\<forall>n \<in> set (dag_Nodes d). dag_node_valid n)"

definition retry_valid :: "retry_policy \<Rightarrow> bool" where
  "retry_valid p \<longleftrightarrow> optional_int 1 (rp_MaxAttempts p) \<and> rp_MaxAttempts p \<le> 5"

definition run_spec_valid :: "agent_run_spec \<Rightarrow> bool" where
  "run_spec_valid s \<longleftrightarrow> ars_AgentRef s \<noteq> [] \<and> text_bounds 1 8000 (in_Task (ars_Input s)) \<and>
     (case ars_DAG s of None \<Rightarrow> True | Some d \<Rightarrow> dag_valid d) \<and> retry_valid (ars_RetryPolicy s) \<and>
     0 \<le> ars_TTLSecondsAfterFinished s \<and>
     (ars_IdempotencyKey s = [] \<or> text_bounds 1 128 (ars_IdempotencyKey s))"

subsection \<open>Cluster and backend compared\<close>

abbreviation dag_nodes_of :: "agent_run \<Rightarrow> dag_node list" where
  "dag_nodes_of run \<equiv> (case ars_DAG (run_Spec run) of None \<Rightarrow> [] | Some d \<Rightarrow> dag_Nodes d)"

lemma submission_nodes:
  "rs_Nodes (submission_of run tenant agent) =
     (if dag_nodes_of run = [] then [main_node run agent] else map (project_node run agent) (dag_nodes_of run))"
  by (simp add: submission_of_def Let_def split: option.split)

lemma submission_fields [simp]:
  "rs_TenantID (submission_of run tenant agent) = tenant"
  "rs_Task (submission_of run tenant agent) = in_Task (ars_Input (run_Spec run))"
  "rs_ProjectID (submission_of run tenant agent) = as_ProjectID (ag_Spec agent)"
  "rs_IdempotencyKey (submission_of run tenant agent) =
     (if ars_IdempotencyKey (run_Spec run) = [] then om_UID (run_Meta run) else ars_IdempotencyKey (run_Spec run))"
  by (simp_all add: submission_of_def Let_def)

lemma submission_deps:
  "spec_deps (submission_specs s) = (if rs_Nodes s = [] then [(''run'', [])]
     else map (\<lambda>n. (rn_Name n, rn_DependsOn n)) (rs_Nodes s))"
  by (simp add: submission_specs_def step_specs_of_def received_def body_of_def spec_deps_def spec_of_node_def
      received_node_def)

lemma projected_node_fields [simp]:
  "rn_Name (project_node run agent n) = dn_Name n" "rn_DependsOn (project_node run agent n) = dn_DependsOn n"
  "rn_MaxTokens (project_node run agent n) = mr_MaxTokens (as_Model (ag_Spec agent))"
  "rn_MaxRetries (project_node run agent n) =
     (let attempts = rp_MaxAttempts (ars_RetryPolicy (run_Spec run)) in if 1 < attempts then Some (attempts - 1) else None)"
  by (simp_all add: project_node_def Let_def)

text \<open>The graph of a run with valid references is never refused.\<close>

lemma submission_ordered:
  assumes "validateReferences P K run w = (Inr (tenant, agent), w')"
  shows "\<exists>order. topological_order (spec_deps (submission_specs (submission_of run tenant agent))) = Some (Some order)"
proof (cases "dag_nodes_of run = []")
  case True
  have "topological_order [(''main'', [])] = Some (Some [0])" by code_simp
  with True show ?thesis by (simp add: submission_deps submission_nodes main_node_def)
next
  case False
  then obtain d where d: "ars_DAG (run_Spec run) = Some d" "dag_Nodes d \<noteq> []" by (auto split: option.splits)
  have "\<lparr>dag_Nodes = dag_Nodes d\<rparr> = d" by simp
  with validateReferences_dag [OF assms] d(1)
  have "validateDAG (range_check P) (range_visit P) (Some \<lparr>dag_Nodes = dag_Nodes d\<rparr>) = None" by (simp only:)
  then obtain order where "topological_order (steps_of (dag_Nodes d)) = Some (Some order)"
    using topological_order_iff(2) [of "dag_Nodes d"] by (auto simp: validateDAG_accepts)
  with d show ?thesis by (simp add: submission_deps submission_nodes steps_of_def comp_def)
qed

text \<open>What the backend does not take although the cluster does.\<close>

definition within_backend_limits :: "agent_run \<Rightarrow> agent \<Rightarrow> bool" where
  "within_backend_limits run agent \<longleftrightarrow> length (dag_nodes_of run) \<le> 32 \<and>
     (\<forall>n \<in> set (dag_nodes_of run). characters (dn_Name n) \<le> 63) \<and> mr_MaxTokens (as_Model (ag_Spec agent)) \<le> 32768"

lemma valid_model_tokens: "agent_spec_valid s \<Longrightarrow> mr_MaxTokens (as_Model s) = 0 \<or> 1 \<le> mr_MaxTokens (as_Model s)"
  by (auto simp: agent_spec_valid_def model_valid_def optional_int_def)

lemma valid_dag_nodes:
  assumes "run_spec_valid (run_Spec run)" and "n \<in> set (dag_nodes_of run)"
  shows "1 \<le> characters (dn_Name n)"
  using assms by (auto simp: run_spec_valid_def dag_valid_def dag_node_valid_def text_bounds_def split: option.splits)

lemma projected_node_acceptable:
  assumes "run_spec_valid (run_Spec run)" and "agent_spec_valid (ag_Spec agent)" and "n \<in> set (dag_nodes_of run)"
  shows "node_acceptable (project_node run agent n) \<longleftrightarrow>
     characters (dn_Name n) \<le> 63 \<and> mr_MaxTokens (as_Model (ag_Spec agent)) \<le> 32768"
  using valid_dag_nodes [OF assms(1,3)] valid_model_tokens [OF assms(2)] assms(1)
  by (auto simp: node_acceptable_def run_spec_valid_def retry_valid_def optional_int_def Let_def)

lemma main_node_acceptable:
  "agent_spec_valid (ag_Spec agent) \<Longrightarrow>
     node_acceptable (main_node run agent) \<longleftrightarrow> mr_MaxTokens (as_Model (ag_Spec agent)) \<le> 32768"
proof -
  assume "agent_spec_valid (ag_Spec agent)"
  note valid_model_tokens [OF this]
  moreover have "characters ''main'' = 4" by code_simp
  ultimately show ?thesis by (auto simp: node_acceptable_def main_node_def)
qed

lemma submittable_iff_limits:
  assumes "run_spec_valid (run_Spec run)" and "agent_spec_valid (ag_Spec agent)"
    and "validateReferences P K run w = (Inr (tenant, agent), w')" and "text_bounds 1 255 (om_UID (run_Meta run))"
  shows "submittable (submission_of run tenant agent) \<longleftrightarrow> within_backend_limits run agent"
proof -
  have "characters (as_ProjectID (ag_Spec agent)) \<le> 128"
    using assms(2) uuid_format_length characters_length [of "as_ProjectID (ag_Spec agent)"]
    by (fastforce simp: agent_spec_valid_def)
  then have form: "acceptable (body_of (submission_of run tenant agent)) \<longleftrightarrow>
      length (rs_Nodes (submission_of run tenant agent)) \<le> 32 \<and>
      (\<forall>n \<in> set (rs_Nodes (submission_of run tenant agent)). node_acceptable n)"
    using assms(1,4) by (auto simp: acceptable_def body_of_def run_spec_valid_def text_bounds_def)
  show ?thesis
  proof (cases "dag_nodes_of run = []")
    case True
    with submission_ordered [OF assms(3)] main_node_acceptable [OF assms(2)] show ?thesis
      by (auto simp: submittable_def form submission_nodes within_backend_limits_def)
  next
    case False
    define ns where "ns = dag_nodes_of run"
    have ns: "ns \<noteq> []" "rs_Nodes (submission_of run tenant agent) = map (project_node run agent) ns"
      using False by (simp_all add: ns_def submission_nodes)
    have "node_acceptable (project_node run agent n) \<longleftrightarrow>
        characters (dn_Name n) \<le> 63 \<and> mr_MaxTokens (as_Model (ag_Spec agent)) \<le> 32768" if "n \<in> set ns" for n
      using projected_node_acceptable [OF assms(1,2)] that by (simp add: ns_def)
    then have "(\<forall>n \<in> set ns. node_acceptable (project_node run agent n)) \<longleftrightarrow>
        (\<forall>n \<in> set ns. characters (dn_Name n) \<le> 63) \<and> mr_MaxTokens (as_Model (ag_Spec agent)) \<le> 32768"
      using ns(1) hd_in_set [OF ns(1)] by blast
    with submission_ordered [OF assms(3)] show ?thesis
      unfolding within_backend_limits_def ns_def [symmetric] by (auto simp: submittable_def form ns(2))
  qed
qed

text \<open>
  C13. The two validations compared. A run and an Agent that the cluster admits, with valid references, are
  submitted in a form the backend accepts exactly when the DAG has at most 32 nodes with names of at most
  63 characters and the Agent asks for at most 32768 tokens, although the cluster admits 64 nodes, names
  of 64 characters and any number of tokens. No other text, count or range, and no graph, is refused.
\<close>

theorem cluster_and_backend_limits:
  assumes "run_spec_valid (run_Spec run)" and "agent_spec_valid (ag_Spec agent)"
    and "validateReferences P K run w = (Inr (tenant, agent), w')" and "text_bounds 1 255 (om_UID (run_Meta run))"
  shows "submittable (submission_of run tenant agent) \<longleftrightarrow> within_backend_limits run agent"
  by (rule submittable_iff_limits [OF assms])

lemma text_bounds_mono: "text_bounds lo hi s \<Longrightarrow> hi \<le> hi' \<Longrightarrow> text_bounds lo hi' s"
  by (simp add: text_bounds_def)

lemma sample_texts:
  "text_bounds 1 64 ''compare retrieval''" "text_bounds 1 64 ''retrieve''" "text_bounds 1 64 ''review''"
  "text_bounds 1 64 (replicate 64 (CHR ''n''))" "text_bounds 0 64 []"
  by code_simp+

lemma sample_run_valid: "run_spec_valid (run_Spec sample_run)"
  using sample_texts [THEN text_bounds_mono]
  by (simp add: run_spec_valid_def sample_run_def sample_dag_def dag_valid_def dag_node_valid_def retry_valid_def
      optional_int_def)

lemma sample_agent_valid: "agent_spec_valid (ag_Spec sample_agent)"
  by code_simp

lemma sample_uid: "text_bounds 1 255 (om_UID sample_meta)"
  by code_simp

theorem cluster_and_backend_limits_witness:
  "submittable (submission_of sample_run sample_tenant sample_agent)"
proof -
  have "within_backend_limits sample_run sample_agent" by code_simp
  with cluster_and_backend_limits [OF sample_run_valid sample_agent_valid
      sample_refs [where run' = sample_run and run = sample_run and w = "()"]] sample_uid
  show ?thesis by simp
qed

text \<open>
  C33. A run the cluster admits and the backend does not is refused in every pass: the backend answers 422
  and stays as it is, the run stays unsubmitted with \<open>ControlPlaneReady\<close> false, and the next try comes after
  ten seconds, for ever. Neither the API server nor the operator tells the user which limit was passed.
\<close>

theorem oversized_run_never_accepted:
  assumes "env_law E parse" and "hg_baseURL g \<noteq> []"
    and "kGetAgentRun K request B = (Inr run, B)" and "time_is_zero (om_DeletionTimestamp (run_Meta run))"
    and "contains_finalizer P (om_Finalizers (run_Meta run)) runFinalizer"
    and "\<not> ars_Cancel (run_Spec run)" and "st_BackendRunID (run_Status run) = []"
    and "validateReferences P K run B = (Inr (tenant, agent), B)" and "tenant \<noteq> []"
    and "submit_fits E (submission_of run tenant agent) B"
    and "run_spec_valid (run_Spec run)" and "agent_spec_valid (ag_Spec agent)"
    and "text_bounds 1 255 (om_UID (run_Meta run))" and "\<not> within_backend_limits run agent"
  shows "\<exists>text. Reconcile P K (http_gateway (backend_net E (hg_baseURL g) parse ptime) g) T request B =
       update_status_then K (failed_run P T run ''SubmitFailed'' (HTTPStatus 422 text)) (requeue_after (10 * second)) B \<and>
     st_BackendRunID (run_Status (failed_run P T run ''SubmitFailed'' (HTTPStatus 422 text))) = [] \<and>
     run_Spec (failed_run P T run ''SubmitFailed'' (HTTPStatus 422 text)) = run_Spec run"
proof -
  let ?s = "submission_of run tenant agent"
  have "\<not> submittable ?s"
    using submittable_iff_limits [OF assms(11,12,8,13)] assms(14) by simp
  then have "httpSubmit (backend_net E (hg_baseURL g) parse ptime) g ?s B =
      (Inl (HTTPStatus 422 (ev_render E (refusal_of ?s))), B)"
    by (intro refused_submission [OF assms(1,2) _ assms(10)]) (simp_all add: assms(9))
  then show ?thesis
    using assms(3-8)
    by (intro exI [of _ "ev_render E (refusal_of ?s)"])
       (simp add: Reconcile_def dispatch_def reconcileSubmit_def gatewayFailure_def http_gateway_def failed_run_def Let_def)
qed

text \<open>The sample run with a node name of 64 characters.\<close>

definition oversized_run :: agent_run where
  "oversized_run = sample_run\<lparr>run_Spec := (run_Spec sample_run)\<lparr>ars_DAG :=
     Some \<lparr>dag_Nodes = [\<lparr>dn_Name = replicate 64 (CHR ''n''), dn_Role = [], dn_DependsOn = [], dn_Prompt = []\<rparr>]\<rparr>\<rparr>\<rparr>"

lemma oversized_refs:
  "validateReferences sample_platform (run_kube oversized_run sample_agent) oversized_run w =
     (Inr (sample_tenant, sample_agent), w)"
proof -
  have "tenantIDFor sample_platform (run_kube oversized_run sample_agent) (run_Meta oversized_run) w = (Inr sample_tenant, w)"
    by (simp add: tenantIDFor_def oversized_run_def Let_def)
  moreover have "validateDAG insertion_order insertion_order (ars_DAG (run_Spec oversized_run)) = None"
    by code_simp
  ultimately show ?thesis
    by (simp add: validateReferences_def) (simp add: oversized_run_def sample_agent_def)
qed

theorem oversized_run_never_accepted_witness:
  "run_spec_valid (run_Spec oversized_run) \<and>
   (\<exists>text. Reconcile sample_platform (run_kube oversized_run sample_agent)
        (http_gateway sample_backend_net local_gateway) sample_clock sample_key empty_backend =
      update_status_then (run_kube oversized_run sample_agent)
        (failed_run sample_platform sample_clock oversized_run ''SubmitFailed'' (HTTPStatus 422 text))
        (requeue_after (10 * second)) empty_backend)"
proof -
  have valid: "run_spec_valid (run_Spec oversized_run)"
    using sample_texts [THEN text_bounds_mono]
    by (simp add: run_spec_valid_def oversized_run_def sample_run_def dag_valid_def dag_node_valid_def retry_valid_def
        optional_int_def del: replicate.simps)
  have large: "\<not> within_backend_limits oversized_run sample_agent" by code_simp
  have fits: "submit_fits sample_env (submission_of oversized_run sample_tenant sample_agent) empty_backend"
    by (rule submit_fits_short) code_simp
  have meta: "run_Meta oversized_run = run_Meta sample_run" "run_Status oversized_run = new_status"
    by (simp_all add: oversized_run_def)
  have "sample_tenant \<noteq> []" by code_simp
  moreover have "\<not> ars_Cancel (run_Spec oversized_run)" by (simp add: oversized_run_def)
  ultimately show ?thesis
    using oversized_run_never_accepted [OF sample_env_law local_gateway_url, of "run_kube oversized_run sample_agent"
        sample_key empty_backend oversized_run sample_platform sample_tenant sample_agent "\<lambda>_. None" sample_clock]
      valid large fits oversized_refs [of empty_backend] sample_agent_valid sample_uid
    by (auto simp: meta)
qed

end
