(* ===== verification/Status_Schema.thy ===== *)
theory Status_Schema
  imports Api_Schema
begin

text \<open>
  The schema of the status of an AgentRun: the enumeration of \<open>AgentRunPhase\<close> and the markers of
  \<open>metav1.Condition\<close> that the generated CRD carries. The API server refuses a status that breaks it, so
  every status a pass computes has to conform.
\<close>

subsection \<open>The schema\<close>

definition phase_enum :: "string \<Rightarrow> bool" where
  "phase_enum p \<longleftrightarrow> p \<in> {AgentRunQueued, AgentRunRunning, AgentRunSucceeded, AgentRunFailed, AgentRunCancelled}"

definition is_letter :: "char \<Rightarrow> bool" where
  "is_letter c \<longleftrightarrow> 65 \<le> byte c \<and> byte c \<le> 90 \<or> 97 \<le> byte c \<and> byte c \<le> 122"

definition is_digit :: "char \<Rightarrow> bool" where
  "is_digit c \<longleftrightarrow> 48 \<le> byte c \<and> byte c \<le> 57"

text \<open>\<open>^[A-Za-z]([A-Za-z0-9_,:]*[A-Za-z0-9_])?$\<close>, at most 1024 characters\<close>

definition reason_format :: "string \<Rightarrow> bool" where
  "reason_format s \<longleftrightarrow> s \<noteq> [] \<and> length s \<le> 1024 \<and> is_letter (hd s) \<and>
     list_all (\<lambda>c. is_letter c \<or> is_digit c \<or> c \<in> {CHR ''_'', CHR '','', CHR '':''}) s \<and>
     (is_letter (last s) \<or> is_digit (last s) \<or> last s = CHR ''_'')"

text \<open>A type: a name, after an optional prefix of dotted labels and a slash.\<close>

fun split_at_char :: "char \<Rightarrow> string \<Rightarrow> string list" where
  "split_at_char c [] = [[]]"
| "split_at_char c (x # xs) =
     (if x = c then [] # split_at_char c xs
      else case split_at_char c xs of [] \<Rightarrow> [[x]] | p # ps \<Rightarrow> (x # p) # ps)"

definition is_lower :: "char \<Rightarrow> bool" where
  "is_lower c \<longleftrightarrow> 97 \<le> byte c \<and> byte c \<le> 122"

definition label_format :: "string \<Rightarrow> bool" where
  "label_format s \<longleftrightarrow> s \<noteq> [] \<and> list_all (\<lambda>c. is_lower c \<or> is_digit c) [hd s, last s] \<and>
     list_all (\<lambda>c. is_lower c \<or> is_digit c \<or> c = CHR ''-'') s"

definition name_format :: "string \<Rightarrow> bool" where
  "name_format s \<longleftrightarrow> s \<noteq> [] \<and> list_all (\<lambda>c. is_letter c \<or> is_digit c) [hd s, last s] \<and>
     list_all (\<lambda>c. is_letter c \<or> is_digit c \<or> c \<in> {CHR ''-'', CHR ''_'', CHR ''.''}) s"

definition type_format :: "string \<Rightarrow> bool" where
  "type_format s \<longleftrightarrow> length s \<le> 316 \<and>
     (case split_at_char (CHR ''/'') s of
        [name] \<Rightarrow> name_format name
      | [prefix, name] \<Rightarrow> list_all label_format (split_at_char (CHR ''.'') prefix) \<and> name_format name
      | _ \<Rightarrow> False)"

definition message_format :: "string \<Rightarrow> bool" where
  "message_format s \<longleftrightarrow> characters s \<le> 32768"

definition condition_valid :: "condition \<Rightarrow> bool" where
  "condition_valid c \<longleftrightarrow> type_format (cond_Type c) \<and>
     cond_Status c \<in> {ConditionTrue, ConditionFalse, ConditionUnknown} \<and> 0 \<le> cond_ObservedGeneration c \<and>
     reason_format (cond_Reason c) \<and> message_format (cond_Message c) \<and>
     \<not> time_is_zero (Some (cond_LastTransitionTime c))"

definition run_status_valid :: "agent_run_status \<Rightarrow> bool" where
  "run_status_valid s \<longleftrightarrow> (st_Phase s = [] \<or> phase_enum (st_Phase s)) \<and>
     (case st_NodeStates s of None \<Rightarrow> True | Some ns \<Rightarrow> \<forall>n \<in> set ns. phase_enum (ns_Phase n)) \<and>
     (\<forall>c \<in> set (st_Conditions s). condition_valid c)"

text \<open>Together with one condition per type.\<close>

definition conforms :: "agent_run_status \<Rightarrow> bool" where
  "conforms s \<longleftrightarrow> run_status_valid s \<and> conds_ok (st_Conditions s)"

text \<open>A clock that has been set: no reading is the zero time, which is sent as \<open>null\<close>.\<close>

definition clock_set :: "clock \<Rightarrow> bool" where
  "clock_set T \<longleftrightarrow> (\<forall>t \<in> {ck_now T, ck_completed T, ck_references T, ck_plane T, ck_outcome T}. \<not> time_is_zero (Some t))"

subsection \<open>Setting a condition\<close>

lemma set_cond_all:
  assumes "set_cond_law f" and "conds_ok cs" and "cond_LastTransitionTime c = zero_time"
    and "\<forall>c \<in> set cs. Q c" and "Q (c\<lparr>cond_LastTransitionTime := set_cond_time t cs c\<rparr>)"
  shows "\<forall>c' \<in> set (f t cs c). Q c'"
proof
  fix c' assume "c' \<in> set (f t cs c)"
  moreover have "conds_ok (f t cs c)" by (rule conds_ok_set_cond [OF assms(1,3,2)])
  ultimately have found: "find_cond (f t cs c) (cond_Type c') = Some c'"
    by (auto simp: in_set_conv_nth find_cond_nth)
  show "Q c'"
  proof (cases "cond_Type c' = cond_Type c")
    case True
    with found set_cond_same [OF assms(1,3), of t cs] assms(5) show ?thesis by simp
  next
    case False
    with found set_cond_other [OF assms(1,3), of "cond_Type c'" t cs] have "find_cond cs (cond_Type c') = Some c'" by simp
    with assms(4) show ?thesis by (auto simp: find_cond_def find_Some_iff)
  qed
qed

lemma set_cond_time_set:
  assumes "\<forall>c \<in> set cs. condition_valid c" and "\<not> time_is_zero (Some t)"
  shows "\<not> time_is_zero (Some (set_cond_time t cs c))"
  using assms by (auto simp: set_cond_time_def find_cond_def find_Some_iff condition_valid_def split: option.split)

definition words_ok :: "string \<Rightarrow> string \<Rightarrow> string \<Rightarrow> string \<Rightarrow> bool" where
  "words_ok ty st reason message \<longleftrightarrow> type_format ty \<and> st \<in> {ConditionTrue, ConditionFalse, ConditionUnknown} \<and>
     reason_format reason \<and> message_format message"

lemma set_run_cond_conforms:
  assumes "set_cond_law (set_cond P)" and "conforms (run_Status run)" and "\<not> time_is_zero (Some t)"
    and "0 \<le> om_Generation (run_Meta run')" and "words_ok ty st reason message"
  shows "conforms (run_Status (set_run_cond P t run (run_condition run' ty st reason message)))"
proof -
  let ?cs = "st_Conditions (run_Status run)" and ?c = "run_condition run' ty st reason message"
  have ok: "conds_ok ?cs" "\<forall>c \<in> set ?cs. condition_valid c"
    using assms(2) by (simp_all add: conforms_def run_status_valid_def)
  have "condition_valid (?c\<lparr>cond_LastTransitionTime := set_cond_time t ?cs ?c\<rparr>)"
    using assms(4,5) set_cond_time_set [OF ok(2) assms(3), of ?c]
    by (simp add: condition_valid_def words_ok_def run_condition_def)
  from set_cond_all [OF assms(1) ok(1) _ ok(2) this] set_cond_conds_ok [OF assms(1) _ ok(1), of ?c t] assms(2)
  show ?thesis by (simp add: conforms_def run_status_valid_def)
qed

subsection \<open>The words of the controller\<close>

lemma message_format_short: "length s \<le> 1024 \<Longrightarrow> message_format s"
  using characters_length [of s] by (simp add: message_format_def)

lemma fixed_formats:
  "type_format ''Ready''" "type_format ''ControlPlaneReady''" "type_format ''Completed''" "type_format ''Accepted''"
  "type_format ''Cancelled''" "type_format ''CancelRequested''"
  "reason_format ''ReferencesResolved''" "reason_format ''RunGatewayReachable''" "reason_format ''ControlPlaneAccepted''"
  "reason_format ''CancelledBeforeSubmit''" "reason_format ''ControlPlaneNotified''" "reason_format ''ReferencesNotReady''"
  "reason_format ''SubmitFailed''" "reason_format ''PollFailed''" "reason_format ''CancelFailed''"
  "reason_format ''RunSucceeded''" "reason_format ''RunInProgress''" "reason_format (''Run'' @ AgentRunFailed)"
  "reason_format (''Run'' @ AgentRunCancelled)"
  by code_simp+

lemma message_words: "message_format (controlPlaneStatusMessage phase)"
  by (rule message_format_short) (simp add: controlPlaneStatusMessage_def)

lemma verdict_words: "words_ok ''Completed'' (fst (completed_verdict phase)) (snd (completed_verdict phase))
    (controlPlaneStatusMessage phase)"
  using fixed_formats message_words by (auto simp: words_ok_def completed_verdict_def)

lemma failure_words:
  assumes "reason \<in> {''SubmitFailed'', ''PollFailed'', ''CancelFailed''}" and "length message \<le> 1024"
  shows "words_ok ''ControlPlaneReady'' ConditionFalse reason message"
  using assms fixed_formats message_format_short by (auto simp: words_ok_def)

lemma true_words:
  assumes "type_format ty" and "reason_format reason" and "length message \<le> 1024"
  shows "words_ok ty ConditionTrue reason message"
  using assms message_format_short by (simp add: words_ok_def)

subsection \<open>The statuses of a pass\<close>

lemma conforms_with:
  assumes "conforms (run_Status run)" and "st_Conditions (f (run_Status run)) = st_Conditions (run_Status run)"
    and "st_Phase (f (run_Status run)) = st_Phase (run_Status run) \<or> phase_enum (st_Phase (f (run_Status run)))"
    and "st_NodeStates (f (run_Status run)) = st_NodeStates (run_Status run)"
  shows "conforms (run_Status (with_status run f))"
  using assms by (auto simp: conforms_def run_status_valid_def)

lemma mark_conforms:
  assumes "set_cond_law (set_cond P)" and "clock_set T" and "0 \<le> om_Generation (run_Meta run)"
    and "conforms (run_Status run)"
  shows "conforms (run_Status (markReferencesReady P T run))" and "conforms (run_Status (markControlPlaneReady P T run))"
  unfolding markReferencesReady_def markControlPlaneReady_def
  by (rule set_run_cond_conforms [OF assms(1,4) _ assms(3) true_words]; use assms(2) in \<open>simp add: clock_set_def fixed_formats\<close>)+

lemma apply_conforms:
  assumes "set_cond_law (set_cond P)" and "clock_set T" and "0 \<le> om_Generation (run_Meta run)"
    and "conforms (run_Status run)"
  shows "conforms (run_Status (applyControlPlaneStatus P T run control))"
proof -
  let ?run = "with_status run (\<lambda>s. s\<lparr>st_Phase := projectPhase (cpr_Status control),
      st_NodeStates := Some (map (node_state_of (projected_id run control)) (cpr_Steps control))\<rparr>)"
  have "phase_enum (projectPhase w)" for w using projectPhase_cases [of w] by (simp add: phase_enum_def)
  with assms(4) have "conforms (run_Status ?run)"
    by (auto simp: conforms_def run_status_valid_def node_state_of_def Let_def)
  then have "conforms (run_Status (set_run_cond P (ck_completed T) ?run
      (completed_condition run (projectPhase (cpr_Status control)))))"
    unfolding completed_condition_def
    by (rule set_run_cond_conforms [OF assms(1)]) (use assms(2,3) verdict_words in \<open>auto simp: clock_set_def\<close>)
  then show ?thesis by (simp add: conforms_def run_status_valid_def apply_status_Conditions)
qed

text \<open>Each status a pass may write.\<close>

lemma outcome_conforms:
  assumes "set_cond_law (set_cond P)" and "clock_set T" and "0 \<le> om_Generation (run_Meta run')"
    and "conforms (run_Status run)" and "words_ok ty st reason message"
  shows "conforms (run_Status (set_run_cond P (ck_outcome T) run (run_condition run' ty st reason message)))"
  by (rule set_run_cond_conforms [OF assms(1,4) _ assms(3,5)]) (use assms(2) in \<open>simp add: clock_set_def\<close>)

lemma written_conforms:
  assumes "set_cond_law (set_cond P)" and "clock_set T" and "0 \<le> om_Generation (run_Meta run)"
    and "conforms (run_Status run)"
  shows "message_format message \<Longrightarrow> conforms (run_Status (rejected_run P T run ''ReferencesNotReady'' message))"
    and "reason \<in> {''SubmitFailed'', ''PollFailed'', ''CancelFailed''} \<Longrightarrow>
      conforms (run_Status (failed_run P T run reason err))"
    and "conforms (run_Status (polled_run P T run control))"
    and "conforms (run_Status (cancelled_run P T run control))"
    and "conforms (run_Status (accepted_run P T run control))"
    and "conforms (run_Status (cancelled_before_submit P T run))"
proof -
  note outcome = outcome_conforms [OF assms(1,2)]
  note mark = mark_conforms [OF assms(1,2)]
  note applied = apply_conforms [OF assms(1,2)]
  show "message_format message \<Longrightarrow> conforms (run_Status (rejected_run P T run ''ReferencesNotReady'' message))"
    unfolding rejected_run_def Let_def
    by (rule outcome [OF _ conforms_with [OF assms(4)]]) (use assms(3) fixed_formats in \<open>simp_all add: words_ok_def\<close>)
  show "conforms (run_Status (failed_run P T run reason err))"
    if "reason \<in> {''SubmitFailed'', ''PollFailed'', ''CancelFailed''}"
    unfolding failed_run_def Let_def
    by (rule outcome [OF assms(3,4)]) (rule failure_words [OF that], simp)
  have proj: "conforms (run_Status (with_status (applyControlPlaneStatus P T run control)
      (\<lambda>s. s\<lparr>st_ObservedGeneration := om_Generation (run_Meta run)\<rparr>)))"
    by (rule conforms_with [OF applied [OF assms(3,4)]]) simp_all
  then show "conforms (run_Status (polled_run P T run control))"
    unfolding polled_run_eq by (intro mark) (simp_all add: assms(3))
  show "conforms (run_Status (cancelled_run P T run control))"
    unfolding cancelled_run_def Let_def
    by (intro outcome mark true_words) (use proj assms(3) fixed_formats in simp_all)
  show "conforms (run_Status (accepted_run P T run control))"
    unfolding accepted_run_def Let_def
    by (intro outcome mark true_words applied conforms_with) (use assms(3,4) fixed_formats in simp_all)
  show "conforms (run_Status (cancelled_before_submit P T run))"
    unfolding cancelled_before_submit_def Let_def
    by (intro outcome mark true_words conforms_with) (use assms(3,4) fixed_formats in \<open>simp_all add: phase_enum_def\<close>)
qed

lemma clean_conforms:
  assumes "set_cond_law (set_cond P)" and "clock_set T" and "0 \<le> om_Generation (run_Meta run)"
    and "conforms (run_Status run)"
  shows "conforms (clean_status P T run)"
proof -
  let ?mid = "if st_BackendRunID (run_Status run) \<noteq> [] then markControlPlaneReady P T run else run"
  have "conforms (run_Status ?mid)" using mark_conforms [OF assms] assms(4) by simp
  then have "conforms (run_Status (set_run_cond P (ck_completed T) ?mid (completed_condition run (st_Phase (run_Status run)))))"
    unfolding completed_condition_def
    by (rule set_run_cond_conforms [OF assms(1)]) (use assms(2,3) verdict_words in \<open>auto simp: clock_set_def\<close>)
  moreover have "st_Conditions (clean_status P T run) =
      st_Conditions (run_Status (set_run_cond P (ck_completed T) ?mid (completed_condition run (st_Phase (run_Status run)))))"
    by (simp add: clean_status_def clean_conditions_def)
  ultimately show ?thesis using assms(4)
    by (auto simp: conforms_def run_status_valid_def clean_status_def)
qed

lemma run_pass_conforms:
  assumes pass: "run_pass P T answers run refs es res" and law: "set_cond_law (set_cond P)" and clock: "clock_set T"
    and generation: "0 \<le> om_Generation (run_Meta run)" and ok: "conforms (run_Status run)"
    and u: "EvStatus u r \<in> set es"
    and rejections: "\<And>err. refs = Inl err \<Longrightarrow> message_format (reference_error_text P err)"
  shows "conforms (run_Status u)"
proof -
  note forms = written_conforms [OF law clock generation ok] apply_conforms [OF law clock generation ok]
    clean_conforms [OF law clock generation ok]
  from pass show ?thesis
  proof cases
    case deleted
    from deleted(2) u show ?thesis by cases (auto dest: status_written simp: forms)
  next
    case adopt
    with u show ?thesis by simp
  next
    case (unresolved err)
    with u rejections show ?thesis by (simp add: forms)
  next
    case (resolved tenant agent)
    from resolved(4) u show ?thesis
      by cases (auto dest: status_written expiry_no_status simp: forms)
  qed
qed

text \<open>
  C14. The API server admits every status the operator computes: phases are words of the enumeration,
  conditions have a proper type, status, reason and time, and messages fit. The one exception is a
  rejection of the references, whose message quotes names of the spec that the schema does not bound.
\<close>

theorem written_status_conforms:
  assumes "fst (kGetAgentRun K request w) = Inr run" and "conforms (run_Status run)"
    and "0 \<le> om_Generation (run_Meta run)" and "set_cond_law (set_cond P)" and "clock_set T"
    and "\<And>err. pass_refs P K run request w = Inl err \<Longrightarrow> message_format (reference_error_text P err)"
    and "EvStatus u r \<in> set (pass_events P K G T request w)"
  shows "run_status_valid (run_Status u)"
  using run_pass_conforms [OF read_pass [OF assms(1), of P T G] assms(4,5,3,2,7,6)] by (simp add: conforms_def)

definition set_clock :: clock where
  "set_clock = (let t = \<lparr>t_Wall = 0, t_Loc = LocUTC, t_Mono = None\<rparr> in
     \<lparr>ck_now = t, ck_completed = t, ck_references = t, ck_plane = t, ck_outcome = t, ck_expiry = t\<rparr>)"

lemma set_clock_set: "clock_set set_clock"
  by (simp add: clock_set_def set_clock_def time_is_zero_def zero_time_def Let_def)

theorem written_status_conforms_witness:
  "run_status_valid (run_Status (accepted_run sample_platform set_clock sample_run (control_run ''b1'' ''queued'')))"
proof (rule written_status_conforms [of "run_kube sample_run sample_agent" sample_key "()" sample_run])
  show "EvStatus (accepted_run sample_platform set_clock sample_run (control_run ''b1'' ''queued''))
      (Inr (accepted_run sample_platform set_clock sample_run (control_run ''b1'' ''queued'')))
    \<in> set (pass_events sample_platform (run_kube sample_run sample_agent)
        (fixed_gateway (Inr (control_run ''b1'' ''queued''))) set_clock sample_key ())"
    by (simp add: sample_pass dispatch_def reconcileSubmit_def update_status_then_def)
  show "conforms (run_Status sample_run)"
    by (simp add: conforms_def run_status_valid_def conds_ok_def) (simp add: new_status_def)
qed (simp_all add: sample_set_cond_law set_clock_set pass_refs_def sample_refs)

text \<open>
  Such a name: a DAG node that depends on an unknown node with a long name. The API server refuses the
  status that would say so, and the user never learns why the run does not start.
\<close>

lemma plain_characters: "\<forall>c \<in> set s. plain_char c \<Longrightarrow> characters s = length s"
  by (induction s) (auto simp: characters_def plain_char_def)

lemma characters_append [simp]: "characters (s @ s') = characters s + characters s'"
  by (simp add: characters_def)

lemma characters_cons: "characters s \<le> characters (c # s)"
  by (simp add: characters_def)

lemma quote_characters: "\<forall>c \<in> set s. plain_char c \<Longrightarrow> length s \<le> characters (quote p s)"
  using characters_cons [of "s @ [CHR 0x22]" "CHR 0x22"] by (simp add: quote_plain plain_characters)

lemma long_dependency_rejection:
  assumes "set_cond_law (set_cond P)" and "\<forall>c \<in> set d. plain_char c" and "32768 < length d"
  shows "\<not> run_status_valid (run_Status (rejected_run P T run ''ReferencesNotReady''
     (reference_error_text P (InvalidDAG (UnknownDependency n d)))))"
proof -
  let ?text = "reference_error_text P (InvalidDAG (UnknownDependency n d))"
  let ?u = "run_Status (rejected_run P T run ''ReferencesNotReady'' ?text)"
  have "?text = (''DAG node '' @ quote (print_table P) n @ '' depends on unknown node '') @ quote (print_table P) d"
    by simp
  then have "characters (quote (print_table P) d) \<le> characters ?text" by (simp only: characters_append)
  with quote_characters [OF assms(2), of "print_table P"] assms(3)
  have long: "\<not> message_format ?text" by (simp add: message_format_def del: reference_error_text.simps)
  obtain c where "find_cond (st_Conditions ?u) ''Ready'' = Some c" "cond_Message c = ?text"
    using set_cond_same [OF assms(1), of "run_condition run' ''Ready'' ConditionFalse ''ReferencesNotReady'' ?text" for run']
    by (simp add: rejected_run_def Let_def del: reference_error_text.simps)
  then have "c \<in> set (st_Conditions ?u)" "\<not> condition_valid c"
    using long by (auto simp: find_cond_def find_Some_iff condition_valid_def simp del: reference_error_text.simps)
  then show ?thesis by (auto simp: run_status_valid_def)
qed

end
