(* ===== verification/Runtime_Client.thy ===== *)
theory Runtime_Client
  imports Complex_Main Backend_Api
begin

text \<open>
  The client of an external agent runtime, src/backend/app/runtime.py: construction from the environment, the
  submission body, the headers, and one HTTP exchange per operation, with the errors it raises. The exchange is a
  parameter, as are the parts of Python that read and print numbers.
\<close>

subsection \<open>Python values\<close>

text \<open>
  \<open>py_nonzero\<close> tells whether the numeral of a float is not zero, \<open>py_print\<close> is \<open>str\<close> on values other than text, \<open>py_number\<close>
  is \<open>int\<close> on values other than integers and \<open>py_float\<close> is \<open>float\<close> on text; the last two are \<open>None\<close> when Python raises.
\<close>

record python =
  py_nonzero :: "string \<Rightarrow> bool"
  py_print :: "json \<Rightarrow> string"
  py_number :: "json \<Rightarrow> int option"
  py_float :: "string \<Rightarrow> rat option"

text \<open>A Python that prints and reads none of them.\<close>

definition plain_python :: python where
  "plain_python = \<lparr>py_nonzero = (\<lambda>_. True), py_print = (\<lambda>_. ''?''), py_number = (\<lambda>_. None), py_float = (\<lambda>_. None)\<rparr>"

fun truthy :: "python \<Rightarrow> json \<Rightarrow> bool" where
  "truthy P JNull = False"
| "truthy P (JBool b) = b"
| "truthy P (JInt n) = (n \<noteq> 0)"
| "truthy P (JReal s) = py_nonzero P s"
| "truthy P (JStr s) = (s \<noteq> [])"
| "truthy P (JArr js) = (js \<noteq> [])"
| "truthy P (JObj ms) = (ms \<noteq> [])"

text \<open>\<open>d.get(name) or default\<close>\<close>

definition get_or :: "python \<Rightarrow> (string \<times> json) list \<Rightarrow> string \<Rightarrow> json \<Rightarrow> json" where
  "get_or P ms name d = (case member ms name of None \<Rightarrow> d | Some j \<Rightarrow> if truthy P j then j else d)"

fun text_of :: "python \<Rightarrow> json \<Rightarrow> string" where
  "text_of P (JStr s) = s"
| "text_of P j = py_print P j"

text \<open>\<open>str.strip\<close> on UTF-8: the encodings of the characters for which \<open>str.isspace\<close> holds.\<close>

definition spaces :: "string list" where
  "spaces = map (\<lambda>n. [char_of n]) ([9..<14] @ [28..<33]) @
     [[CHR 0xC2, CHR 0x85], [CHR 0xC2, CHR 0xA0], [CHR 0xE1, CHR 0x9A, CHR 0x80]] @
     map (\<lambda>n. [CHR 0xE2, CHR 0x80, char_of n]) ([128..<139] @ [168, 169, 175 :: nat]) @
     [[CHR 0xE2, CHR 0x81, CHR 0x9F], [CHR 0xE3, CHR 0x80, CHR 0x80]]"

function strip_front :: "string list \<Rightarrow> string \<Rightarrow> string" where
  "strip_front ws s =
     (case find (\<lambda>w. w \<noteq> [] \<and> take (length w) s = w) ws of
        None \<Rightarrow> s | Some w \<Rightarrow> strip_front ws (drop (length w) s))"
  by pat_completeness auto
termination strip_front
proof (relation "measure (\<lambda>(ws, s). length s)", simp)
  fix ws s w assume "find (\<lambda>w. w \<noteq> [] \<and> take (length w) s = w) ws = Some w"
  then have "w \<noteq> [] \<and> take (length w) s = w" by (auto simp: find_Some_iff)
  then have "0 < length w" "length w \<le> length s" by (auto, metis length_take min.cobounded1)
  then show "((ws, drop (length w) s), ws, s) \<in> measure (\<lambda>(ws, s). length s)" by (cases w) auto
qed

declare strip_front.simps [simp del]

definition strip :: "string \<Rightarrow> string" where
  "strip s = rev (strip_front (map rev spaces) (rev (strip_front spaces s)))"

subsection \<open>Construction\<close>

text \<open>Timeouts are finite numbers of seconds.\<close>

record runtime_client =
  rc_base_url :: string
  rc_token :: string
  rc_timeout :: rat

definition new_client :: "string \<Rightarrow> string \<Rightarrow> rat \<Rightarrow> runtime_client" where
  "new_client base_url token timeout = \<lparr>rc_base_url = trim_right_slash base_url, rc_token = token, rc_timeout = timeout\<rparr>"

text \<open>\<open>_from_env\<close>; \<open>Inl\<close> is the text of a \<open>RuntimeClientError\<close>, \<open>getenv\<close> is \<open>os.getenv\<close>.\<close>

definition from_env ::
  "python \<Rightarrow> (string \<Rightarrow> string option) \<Rightarrow> string \<Rightarrow> string \<Rightarrow> string \<Rightarrow> string \<Rightarrow> bool \<Rightarrow> (string, runtime_client) result" where
  "from_env P getenv url_name token_name timeout_name provider_name require_token =
     (let base_url = strip (or_empty (getenv url_name)); token = strip (or_empty (getenv token_name)) in
      if base_url = [] then Inl (url_name @ '' is required for the '' @ provider_name @ '' runtime'')
      else if require_token \<and> token = [] then Inl (token_name @ '' is required for the '' @ provider_name @ '' runtime'')
      else case (case getenv timeout_name of None \<Rightarrow> Some 30 | Some s \<Rightarrow> py_float P s) of
        None \<Rightarrow> Inl (timeout_name @ '' must be numeric'')
      | Some timeout \<Rightarrow> Inr (new_client base_url token timeout))"

definition equaxis_from_env :: "python \<Rightarrow> (string \<Rightarrow> string option) \<Rightarrow> (string, runtime_client) result" where
  "equaxis_from_env P getenv =
     from_env P getenv ''EQUAXIS_RUNTIME_URL'' ''EQUAXIS_RUNTIME_TOKEN'' ''EQUAXIS_RUNTIME_TIMEOUT_SECONDS'' ''Equaxis'' False"

definition agent_from_env :: "python \<Rightarrow> (string \<Rightarrow> string option) \<Rightarrow> (string, runtime_client) result" where
  "agent_from_env P getenv =
     from_env P getenv ''AGENT_RUNTIME_URL'' ''AGENT_RUNTIME_TOKEN'' ''AGENT_RUNTIME_TIMEOUT_SECONDS'' ''external agent'' True"

subsection \<open>One exchange\<close>

record runtime_call =
  rx_method :: string
  rx_url :: string
  rx_headers :: "string \<rightharpoonup> string"
  rx_body :: "json option"

text \<open>
  The outcome of \<open>urlopen\<close> and \<open>read\<close>: a response with its code (an \<open>HTTPError\<close> when it is no 2xx), one of the errors
  the client catches as unavailability, or any other exception. \<open>xc_parse\<close> is \<open>json.loads\<close> of the decoded bytes.
\<close>

datatype exchanged = Answered int string | Unavailable | Other_exception

record 'e exchange =
  xc_do :: "runtime_call \<Rightarrow> rat \<Rightarrow> 'e \<Rightarrow> exchanged \<times> 'e"
  xc_parse :: "string \<Rightarrow> json option"

text \<open>What a call of the client gives: a dictionary, a \<open>RuntimeClientError\<close>, or an exception nobody catches.\<close>

datatype runtime_answer = Replied "(string \<times> json) list" | Client_error string | Raised

definition runtime_headers :: "runtime_client \<Rightarrow> string \<Rightarrow> string option \<Rightarrow> string option \<Rightarrow> json option \<Rightarrow> (string \<rightharpoonup> string)" where
  "runtime_headers C tenant project key body =
     (let h0 = [''Accept'' \<mapsto> ''application/json''];
          h1 = (if rc_token C \<noteq> [] then
                  let h = h0(''Authorization'' \<mapsto> ''Bearer '' @ rc_token C, ''X-Tenant-Id'' \<mapsto> tenant)
                  in if or_empty project \<noteq> [] then h(''X-Project-Id'' \<mapsto> or_empty project) else h
                else h0);
          h2 = (if or_empty key \<noteq> [] then h1(''X-Idempotency-Key'' \<mapsto> or_empty key) else h1)
      in if body \<noteq> None then h2(''Content-Type'' \<mapsto> ''application/json'') else h2)"

definition decoded_reply :: "'e exchange \<Rightarrow> string \<Rightarrow> runtime_answer" where
  "decoded_reply X raw =
     (case xc_parse X raw of
        None \<Rightarrow> Client_error ''agent runtime returned invalid JSON''
      | Some (JObj ms) \<Rightarrow> (case member ms ''run'' of Some (JObj run) \<Rightarrow> Replied run | _ \<Rightarrow> Replied ms)
      | Some _ \<Rightarrow> Client_error ''agent runtime returned an invalid response'')"

definition runtime_request ::
  "'e exchange \<Rightarrow> runtime_client \<Rightarrow> string \<Rightarrow> string \<Rightarrow> string \<Rightarrow> string option \<Rightarrow> json option \<Rightarrow> string option \<Rightarrow> 'e \<Rightarrow>
   runtime_answer \<times> 'e" where
  "runtime_request X C meth path tenant project body key e =
     (case xc_do X \<lparr>rx_method = meth, rx_url = rc_base_url C @ path, rx_headers = runtime_headers C tenant project key body,
             rx_body = body\<rparr> (rc_timeout C) e of
        (Answered code raw, e1) \<Rightarrow>
          (if code < 200 \<or> 300 \<le> code then Client_error (''agent runtime returned HTTP '' @ itoa code) else decoded_reply X raw, e1)
      | (Unavailable, e1) \<Rightarrow> (Client_error ''agent runtime is unavailable'', e1)
      | (Other_exception, e1) \<Rightarrow> (Raised, e1))"

subsection \<open>Operations\<close>

definition payload_node :: "string \<Rightarrow> run_step \<Rightarrow> json" where
  "payload_node task node = JObj
     ([(''name'', JStr (sp_node_id node)),
       (''prompt'', JStr (if sp_prompt node \<noteq> [] then sp_prompt node else task)),
       (''dependsOn'', JArr (map JStr (sp_depends_on node))), (''maxRetries'', JInt (sp_max_retries node))] @
      omit_str ''role'' (sp_role node) @ omit_str ''model'' (sp_model node))"

definition submit_payload :: "runtime_client \<Rightarrow> string option \<Rightarrow> string \<Rightarrow> run_step list \<Rightarrow> string \<Rightarrow> json" where
  "submit_payload C project task nodes key = JObj
     [(''task'', JStr task), (''nodes'', JArr (map (payload_node task) nodes)),
      (''project_id'', if rc_token C = [] then JNull else case project of None \<Rightarrow> JNull | Some p \<Rightarrow> JStr p),
      (''idempotency_key'', JStr key)]"

definition runtime_submit ::
  "'e exchange \<Rightarrow> runtime_client \<Rightarrow> string \<Rightarrow> string option \<Rightarrow> string \<Rightarrow> run_step list \<Rightarrow> string \<Rightarrow> 'e \<Rightarrow> runtime_answer \<times> 'e" where
  "runtime_submit X C tenant project task nodes key =
     runtime_request X C ''POST'' ''/api/agent-runs'' tenant project (Some (submit_payload C project task nodes key)) (Some key)"

definition runtime_get ::
  "'e exchange \<Rightarrow> runtime_client \<Rightarrow> string \<Rightarrow> string option \<Rightarrow> string \<Rightarrow> 'e \<Rightarrow> runtime_answer \<times> 'e" where
  "runtime_get X C tenant project runtime_run_id =
     runtime_request X C ''GET'' (''/api/agent-runs/'' @ runtime_run_id) tenant project None None"

definition runtime_cancel ::
  "'e exchange \<Rightarrow> runtime_client \<Rightarrow> string \<Rightarrow> string option \<Rightarrow> string \<Rightarrow> 'e \<Rightarrow> runtime_answer \<times> 'e" where
  "runtime_cancel X C tenant project runtime_run_id =
     runtime_request X C ''POST'' (''/api/agent-runs/'' @ runtime_run_id @ ''/cancel'') tenant project None None"

subsection \<open>The payload and the request model of the backend\<close>

text \<open>
  The runtime speaks the contract of the backend itself: what the request model of the backend reads from the
  payload.
\<close>

definition forwarded_node :: "string \<Rightarrow> run_step \<Rightarrow> node_request" where
  "forwarded_node task s =
     \<lparr>nr_name = sp_node_id s, nr_prompt = (if sp_prompt s \<noteq> [] then sp_prompt s else task),
      nr_role = (if sp_role s = [] then None else Some (sp_role s)),
      nr_model = (if sp_model s = [] then None else Some (sp_model s)), nr_maxTokens = None,
      nr_dependsOn = sp_depends_on s, nr_maxRetries = Some (sp_max_retries s)\<rparr>"

definition step_acceptable :: "run_step \<Rightarrow> bool" where
  "step_acceptable s \<longleftrightarrow> 1 \<le> characters (sp_node_id s) \<and> characters (sp_node_id s) \<le> 63 \<and>
     0 \<le> sp_max_retries s \<and> sp_max_retries s \<le> 5"

lemma py_node_payload:
  "step_acceptable s \<Longrightarrow> py_node convert (payload_node task s) = Some (forwarded_node task s)"
  by (cases "sp_role s = []"; cases "sp_model s = []")
     (simp_all add: payload_node_def required_def defaulted_def member_append text_between_def int_between_def
       step_acceptable_def forwarded_node_def those_py_str)

lemma those_payload:
  "\<forall>s \<in> set nodes. step_acceptable s \<Longrightarrow> those (map (py_node convert \<circ> payload_node task) nodes) = Some (map (forwarded_node task) nodes)"
  by (induction nodes) (auto simp: py_node_payload)

text \<open>
  C28. What of a run arrives at an external runtime. The request model of the AgentRun contract reads from the
  submitted body the task, the key and every step with its name, dependencies, retries, role and model; a step
  without a prompt has the task for one, and the token budgets of the steps are dropped. The project arrives when
  the client has a token, as every client of the mode \<open>agent_http\<close> does, and is dropped otherwise.
\<close>

theorem external_payload_roundtrip:
  assumes "1 \<le> characters task" and "characters task \<le> 16000" and "length nodes \<le> 32"
    and "\<forall>s \<in> set nodes. step_acceptable s" and "characters (or_empty project) \<le> 128"
    and "1 \<le> characters key" and "characters key \<le> 255"
  shows "py_submit convert (submit_payload C project task nodes key) =
     Some \<lparr>rq_task = task, rq_nodes = map (forwarded_node task) nodes,
       rq_project_id = (if rc_token C = [] then None else project), rq_idempotency_key = key\<rparr> \<and>
     (agent_from_env P getenv = Inr C \<longrightarrow> rc_token C \<noteq> [])"
proof
  show "py_submit convert (submit_payload C project task nodes key) =
      Some \<lparr>rq_task = task, rq_nodes = map (forwarded_node task) nodes,
        rq_project_id = (if rc_token C = [] then None else project), rq_idempotency_key = key\<rparr>"
    using assms
    by (cases project; cases "rc_token C = []")
       (simp_all add: submit_payload_def required_def defaulted_def text_between_def those_payload or_empty_def)
  show "agent_from_env P getenv = Inr C \<longrightarrow> rc_token C \<noteq> []"
    by (auto simp: agent_from_env_def from_env_def new_client_def Let_def split: if_splits option.splits)
qed

definition plain_step :: run_step where
  "plain_step = new_step \<lparr>sx_node_id = ''draft'', sx_prompt = None, sx_role = None, sx_depends_on = [], sx_max_retries = 2,
     sx_model = None, sx_max_tokens = Some 512\<rparr>"

definition runtime_with :: "string \<Rightarrow> runtime_client" where
  "runtime_with token = new_client ''http://runtime/'' token 30"

theorem external_payload_roundtrip_witness:
  "py_submit (\<lambda>_. None) (submit_payload (runtime_with ''secret'') (Some ''p1'') ''report'' [plain_step] ''k1'') =
     Some \<lparr>rq_task = ''report'', rq_nodes = [forwarded_node ''report'' plain_step], rq_project_id = Some ''p1'',
       rq_idempotency_key = ''k1''\<rparr> \<and>
   sp_max_tokens plain_step = 512 \<and> nr_maxTokens (forwarded_node ''report'' plain_step) = None"
proof -
  have "characters ''report'' = 6" "characters (or_empty (Some ''p1'')) = 2" "characters ''k1'' = 2" "characters ''draft'' = 5"
    by code_simp+
  then show ?thesis
    using external_payload_roundtrip [of "''report''" "[plain_step]" "Some ''p1''" "''k1''" "\<lambda>_. None" "runtime_with ''secret''"]
    by (simp add: step_acceptable_def plain_step_def new_step_def runtime_with_def new_client_def forwarded_node_def)
qed

end
