(* ===== verification/Language_Model.thy ===== *)
theory Language_Model
  imports Runtime_Client
begin

text \<open>
  The client of a language model, src/backend/app/llm.py: the request for one step and what it makes of the
  answer. The exchange is a parameter. A completion is a text with its token counts, an \<open>LLMError\<close> a text that
  may be stored, and any other exception ends the thread.
\<close>

record completion =
  cm_content :: string
  cm_input_tokens :: int
  cm_output_tokens :: int

text \<open>The outcome of a completion: an answer, the text of an \<open>LLMError\<close>, or an exception nobody catches.\<close>

datatype completed = Answer completion | Llm_error string | Escaped

record llm_executor =
  le_url :: string
  le_api_key :: string
  le_model :: string
  le_max_tokens :: int
  le_timeout_seconds :: int

definition new_executor :: "string \<Rightarrow> string \<Rightarrow> string \<Rightarrow> int \<Rightarrow> int \<Rightarrow> llm_executor" where
  "new_executor base_url api_key model max_tokens timeout_seconds =
     (let base = trim_right_slash base_url;
          base = (if drop (length base - 3) base = ''/v1'' then base else base @ ''/v1'')
      in \<lparr>le_url = base @ ''/chat/completions'', le_api_key = api_key, le_model = model, le_max_tokens = max_tokens,
          le_timeout_seconds = timeout_seconds\<rparr>)"

text \<open>
  \<open>build_executor\<close> of src/backend/app/main.py; \<open>Not_configured\<close> is an \<open>LLMError\<close>, \<open>Misconfigured\<close> any other
  exception: an unknown mode, or a number that cannot be read.
\<close>

datatype executor_choice = Executor "llm_executor option" | Not_configured string | Misconfigured

definition execution_mode :: "(string \<Rightarrow> string option) \<Rightarrow> string" where
  "execution_mode getenv = (case getenv ''EXECUTION_MODE'' of None \<Rightarrow> ''mock'' | Some mode \<Rightarrow> mode)"

definition env_int :: "python \<Rightarrow> (string \<Rightarrow> string option) \<Rightarrow> string \<Rightarrow> int \<Rightarrow> int option" where
  "env_int P getenv name fallback = (case getenv name of None \<Rightarrow> Some fallback | Some s \<Rightarrow> py_number P (JStr s))"

definition env_text :: "(string \<Rightarrow> string option) \<Rightarrow> string \<Rightarrow> string \<Rightarrow> string" where
  "env_text getenv name fallback = (case getenv name of None \<Rightarrow> fallback | Some s \<Rightarrow> s)"

definition build_executor :: "python \<Rightarrow> (string \<Rightarrow> string option) \<Rightarrow> executor_choice" where
  "build_executor P getenv =
     (let mode = execution_mode getenv in
      if mode = ''mock'' then Executor None
      else if mode \<noteq> ''live'' then (if mode \<in> {''equaxis'', ''agent_http''} then Executor None else Misconfigured)
      else if or_empty (getenv ''LLM_API_KEY'') = [] then
        Not_configured ''live execution is enabled but LLM_API_KEY is not configured''
      else case (env_int P getenv ''LLM_MAX_TOKENS'' 512, env_int P getenv ''LLM_TIMEOUT_SECONDS'' 45) of
        (Some max_tokens, Some timeout) \<Rightarrow>
          Executor (Some (new_executor (env_text getenv ''LLM_BASE_URL'' ''https://xindu.xyz/v1'') (or_empty (getenv ''LLM_API_KEY''))
            (env_text getenv ''LLM_MODEL'' ''deepseek-v4-flash'') max_tokens timeout))
      | _ \<Rightarrow> Misconfigured)"

subsection \<open>The request\<close>

text \<open>\<open>text[-n:]\<close>, counted in characters from the end.\<close>

definition continuation :: "char \<Rightarrow> bool" where
  "continuation c \<longleftrightarrow> 128 \<le> byte c \<and> byte c < 192"

fun take_characters :: "nat \<Rightarrow> string \<Rightarrow> string" where
  "take_characters 0 cs = []"
| "take_characters (Suc n) [] = []"
| "take_characters (Suc n) (c # cs) = c # take_characters (if continuation c then Suc n else n) cs"

definition last_characters :: "nat \<Rightarrow> string \<Rightarrow> string" where
  "last_characters n s = rev (take_characters n (rev s))"

definition context_limit :: nat where
  "context_limit = 4000"

definition completion_context :: "string \<Rightarrow> string" where
  "completion_context prior_output =
     (if prior_output \<noteq> [] then last_characters context_limit prior_output else ''(no prior node output)'')"

definition chat_message :: "string \<Rightarrow> string \<Rightarrow> json" where
  "chat_message role content = JObj [(''role'', JStr role), (''content'', JStr content)]"

definition newline :: string where
  "newline = [CHR 0x0A]"

definition completion_payload :: "llm_executor \<Rightarrow> string \<Rightarrow> string \<Rightarrow> string \<Rightarrow> string option \<Rightarrow> int option \<Rightarrow> json" where
  "completion_payload E task node_name prior_output model max_tokens = JObj
     [(''model'', JStr (if or_empty model \<noteq> [] then or_empty model else le_model E)),
      (''temperature'', JReal ''0.2''),
      (''max_tokens'', JInt (case max_tokens of None \<Rightarrow> le_max_tokens E | Some n \<Rightarrow> if n \<noteq> 0 then n else le_max_tokens E)),
      (''messages'', JArr
         [chat_message ''system''
            ''You are a governed agent worker. Return a concise, factual result for your assigned DAG node.'',
          chat_message ''user''
            (''Task:'' @ newline @ task @ newline @ newline @ ''Current node: '' @ node_name @ newline @ newline @
             ''Prior node output:'' @ newline @ completion_context prior_output)])]"

text \<open>
  The exchange with the provider; \<open>Unavailable\<close> are the errors the client catches. The parser is \<open>json.loads\<close> of
  the decoded bytes, the outer \<open>None\<close> a text that is no UTF-8.
\<close>

record llm_exchange =
  lx_do :: "runtime_call \<Rightarrow> int \<Rightarrow> exchanged"
  lx_parse :: "string \<Rightarrow> json option option"

definition completion_call :: "llm_executor \<Rightarrow> string \<Rightarrow> string \<Rightarrow> string \<Rightarrow> string option \<Rightarrow> int option \<Rightarrow> runtime_call" where
  "completion_call E task node_name prior_output model max_tokens =
     \<lparr>rx_method = ''POST'', rx_url = le_url E,
      rx_headers = [''Authorization'' \<mapsto> ''Bearer '' @ le_api_key E, ''Content-Type'' \<mapsto> ''application/json'',
        ''Accept'' \<mapsto> ''application/json''],
      rx_body = Some (completion_payload E task node_name prior_output model max_tokens)\<rparr>"

subsection \<open>The answer\<close>

text \<open>\<open>value if isinstance(value, int) and value >= 0 else 0\<close>; a boolean is an integer.\<close>

fun non_negative_int :: "json option \<Rightarrow> int" where
  "non_negative_int (Some (JInt n)) = (if 0 \<le> n then n else 0)"
| "non_negative_int (Some (JBool b)) = (if b then 1 else 0)"
| "non_negative_int _ = 0"

text \<open>\<open>body["choices"][0]["message"]["content"]\<close>, \<open>None\<close> for the errors of a missing or unsuitable part.\<close>

definition entry :: "string \<Rightarrow> json \<Rightarrow> json option" where
  "entry name j = (case j of JObj ms \<Rightarrow> member ms name | _ \<Rightarrow> None)"

definition first_of :: "json \<Rightarrow> json option" where
  "first_of j = (case j of JArr (x # _) \<Rightarrow> Some x | _ \<Rightarrow> None)"

definition assistant_content :: "json \<Rightarrow> json option" where
  "assistant_content body =
     Option.bind (Option.bind (Option.bind (entry ''choices'' body) first_of) (entry ''message'')) (entry ''content'')"

text \<open>A \<open>usage\<close> that is no dictionary raises an exception the client does not catch, as do bytes that are no text.\<close>

definition read_completion :: "python \<Rightarrow> json \<Rightarrow> completed" where
  "read_completion P body =
     (case assistant_content body of
        None \<Rightarrow> Llm_error ''provider response contained no assistant content''
      | Some content \<Rightarrow>
          (case content of
             JStr s \<Rightarrow>
               if strip s = [] then Llm_error ''provider returned empty assistant content''
               else
                 (case get_or P (case body of JObj ms \<Rightarrow> ms | _ \<Rightarrow> []) ''usage'' (JObj []) of
                    JObj usage \<Rightarrow> Answer \<lparr>cm_content = strip s,
                      cm_input_tokens = non_negative_int (member usage ''prompt_tokens''),
                      cm_output_tokens = non_negative_int (member usage ''completion_tokens'')\<rparr>
                  | _ \<Rightarrow> Escaped)
           | _ \<Rightarrow> Llm_error ''provider returned empty assistant content''))"

definition llm_complete ::
  "python \<Rightarrow> llm_exchange \<Rightarrow> llm_executor \<Rightarrow> string \<Rightarrow> string \<Rightarrow> string \<Rightarrow> string option \<Rightarrow> int option \<Rightarrow>
   completed" where
  "llm_complete P X E task node_name prior_output model max_tokens =
     (case lx_do X (completion_call E task node_name prior_output model max_tokens) (le_timeout_seconds E) of
        Answered code raw \<Rightarrow>
          if code < 200 \<or> 300 \<le> code then Llm_error (''provider returned HTTP '' @ itoa code)
          else (case lx_parse X raw of
                  None \<Rightarrow> Escaped
                | Some None \<Rightarrow> Llm_error ''provider returned invalid JSON''
                | Some (Some body) \<Rightarrow> read_completion P body)
      | Unavailable \<Rightarrow> Llm_error ''provider connection failed''
      | Other_exception \<Rightarrow> Escaped)"

subsection \<open>What a completion promises\<close>

lemma take_characters_count:
  "length (filter (\<lambda>c. \<not> continuation c) (take_characters n cs)) = min n (length (filter (\<lambda>c. \<not> continuation c) cs))"
  by (induction n cs rule: take_characters.induct) auto

lemma take_characters_prefix: "\<exists>rest. cs = take_characters n cs @ rest"
  by (induction n cs rule: take_characters.induct) auto

lemma last_characters_suffix:
  "\<exists>front. s = front @ last_characters n s" and "characters (last_characters n s) = min n (characters s)"
proof -
  obtain rest where "rev s = take_characters n (rev s) @ rest" using take_characters_prefix by blast
  then have "rev (rev s) = rev rest @ rev (take_characters n (rev s))" by (metis rev_append)
  then show "\<exists>front. s = front @ last_characters n s" by (auto simp: last_characters_def)
  have "characters t = length (filter (\<lambda>c. \<not> continuation c) t)" for t by (simp add: characters_def continuation_def)
  then show "characters (last_characters n s) = min n (characters s)"
    by (simp add: last_characters_def rev_filter flip: rev_filter) (simp add: take_characters_count flip: rev_filter)
qed

lemma non_negative_int_nonneg: "0 \<le> non_negative_int v"
  by (cases v rule: non_negative_int.cases) auto

text \<open>A completion has a content and no negative count.\<close>

lemma completion_usable:
  assumes "llm_complete P X E task node_name prior_output model max_tokens = Answer c"
  shows "cm_content c \<noteq> [] \<and> 0 \<le> cm_input_tokens c \<and> 0 \<le> cm_output_tokens c"
  using assms non_negative_int_nonneg
  by (auto simp: llm_complete_def read_completion_def split: exchanged.splits if_splits option.splits json.splits)

end
