(* ===== verification/Backend_Executor.thy ===== *)
theory Backend_Executor
  imports Backend_Steps Language_Model
begin

text \<open>
  The in-process part of \<open>execute_run\<close> of src/backend/app/main.py: the thread that executes a run itself, in the
  modes \<open>mock\<close> and \<open>live\<close>, against the store, one method call at a time. \<open>Backend_External\<close> adds the branch of the
  other modes. Between two calls anything may happen to the store: \<open>others\<close>
  says what, for the n-th call. The provider of the language model is a parameter, an exchange for each
  number of calls so far, and so is the measured latency.
\<close>

subsection \<open>Parameters\<close>

text \<open>The values of Python, the environment, the provider of the language model and the measured latencies.\<close>

record executor_env =
  xe_python :: python
  xe_getenv :: "string \<Rightarrow> string option"
  xe_exchange :: "nat \<Rightarrow> llm_exchange"
  xe_latency :: "nat \<Rightarrow> int"

definition xe_executor :: "executor_env \<Rightarrow> executor_choice" where
  "xe_executor X = build_executor (xe_python X) (xe_getenv X)"

text \<open>
  The store as the thread leaves it, and the stores its calls met, in their order; the latter are read by the
  properties only, apart from their number.
\<close>

record execution =
  en_store :: run_store
  en_log :: "run_store list"

definition en_tick :: "execution \<Rightarrow> nat" where
  "en_tick st = length (en_log st)"

type_synonym interference = "nat \<Rightarrow> run_store \<Rightarrow> run_store"

definition call_on :: "(run_store \<Rightarrow> 'a \<times> run_store) \<Rightarrow> run_store list \<Rightarrow> run_store \<Rightarrow> 'a \<times> execution" where
  "call_on f met S = (case f S of (a, S') \<Rightarrow> (a, \<lparr>en_store = S', en_log = met @ [S]\<rparr>))"

definition store_call :: "interference \<Rightarrow> (run_store \<Rightarrow> 'a \<times> run_store) \<Rightarrow> execution \<Rightarrow> 'a \<times> execution" where
  "store_call others f st = call_on f (en_log st) (others (en_tick st) (en_store st))"

subsection \<open>One step\<close>

definition join_outputs :: "run_step list \<Rightarrow> string" where
  "join_outputs steps =
     (case filter (\<lambda>s. s \<noteq> []) (map sp_output steps) of
        [] \<Rightarrow> [] | s # ss \<Rightarrow> s @ concat (map (\<lambda>t. [CHR 0x0A, CHR 0x0A] @ t) ss))"

definition complete_step ::
  "executor_env \<Rightarrow> llm_executor option \<Rightarrow> nat \<Rightarrow> string \<Rightarrow> run_step \<Rightarrow> run_step list \<Rightarrow> completed" where
  "complete_step X executor n task step finished =
     (case executor of
        None \<Rightarrow>
          Answer \<lparr>cm_content = ''mock execution completed step '' @ sp_node_id step, cm_input_tokens = 0, cm_output_tokens = 0\<rparr>
      | Some E \<Rightarrow> llm_complete (xe_python X) (xe_exchange X n) E task (sp_node_id step) (join_outputs finished)
             (if sp_model step = [] then None else Some (sp_model step))
             (if sp_max_tokens step = 0 then None else Some (sp_max_tokens step)))"

text \<open>\<open>Stopped\<close> when the thread ends, by returning or by an exception, otherwise the step as the thread goes on with it.\<close>

datatype attempt_result = Stopped | Finished run_step

function attempt_step ::
  "executor_env \<Rightarrow> interference \<Rightarrow> llm_executor option \<Rightarrow> string \<Rightarrow> string \<Rightarrow> string \<Rightarrow> nat \<Rightarrow> run_step \<Rightarrow> run_step list \<Rightarrow> int \<Rightarrow>
   execution \<Rightarrow> attempt_result \<times> execution" where
  "attempt_step X others executor tenant run_id task position step finished attempts st =
     (case store_call others (store_start_step position tenant run_id) st of
        (False, st1) \<Rightarrow> (Stopped, st1)
      | (True, st1) \<Rightarrow>
          (case complete_step X executor (en_tick st1) task step finished of
             Escaped \<Rightarrow> (Stopped, st1)
           | Llm_error error \<Rightarrow>
               let st2 = snd (store_call others (store_fail_step position error tenant run_id) st1) in
               if attempts + 1 \<le> sp_max_retries step then
                 attempt_step X others executor tenant run_id task position step finished (attempts + 1) st2
               else (Stopped, snd (store_call others (store_fail error tenant run_id) st2))
           | Answer c \<Rightarrow>
               (case store_call others (store_succeed_step position (Some (cm_content c)) (max 1 (xe_latency X (en_tick st1)))
                       (cm_input_tokens c) (cm_output_tokens c) tenant run_id) st1 of
                  (False, st2) \<Rightarrow> (Stopped, st2)
                | (True, st2) \<Rightarrow>
                    (Finished (step\<lparr>sp_status := ''succeeded'', sp_attempts := attempts + 1, sp_output := cm_content c\<rparr>), st2))))"
  by pat_completeness auto
termination attempt_step
  by (relation "measure (\<lambda>(X, others, executor, tenant, run_id, task, position, step, finished, attempts, st).
        nat (sp_max_retries step + 1 - attempts))") auto

declare attempt_step.simps [simp del]

subsection \<open>A run\<close>

fun run_order ::
  "executor_env \<Rightarrow> interference \<Rightarrow> llm_executor option \<Rightarrow> string \<Rightarrow> string \<Rightarrow> string \<Rightarrow> run_step list \<Rightarrow> nat list \<Rightarrow> run_step list \<Rightarrow>
   execution \<Rightarrow> execution" where
  "run_order X others executor tenant run_id task steps [] finished st =
     snd (store_call others (store_succeed tenant run_id) st)"
| "run_order X others executor tenant run_id task steps (position # order) finished st =
     (case attempt_step X others executor tenant run_id task position (steps ! position) finished
             (sp_attempts (steps ! position)) st of
        (Stopped, st1) \<Rightarrow> st1
      | (Finished step, st1) \<Rightarrow> run_order X others executor tenant run_id task steps order (finished @ [step]) st1)"

definition step_deps_of :: "run_step list \<Rightarrow> step_deps" where
  "step_deps_of steps = map (\<lambda>s. (sp_node_id s, sp_depends_on s)) steps"

text \<open>What follows the branch of the external modes; \<open>None\<close> means that the thread does not end.\<close>

definition execute_steps ::
  "executor_env \<Rightarrow> interference \<Rightarrow> string \<Rightarrow> string \<Rightarrow> string \<Rightarrow> run_step list \<Rightarrow> execution \<Rightarrow> execution option" where
  "execute_steps X others tenant run_id task steps st =
     (case xe_executor X of
        Misconfigured \<Rightarrow> Some st
      | Not_configured error \<Rightarrow> Some (snd (store_call others (store_fail error tenant run_id) st))
      | Executor executor \<Rightarrow>
          (case topological_order (step_deps_of steps) of
             None \<Rightarrow> None
           | Some None \<Rightarrow>
               Some (snd (store_call others
                 (store_fail ''invalid DAG: duplicate, unknown, or cyclic dependency'' tenant run_id) st))
           | Some (Some order) \<Rightarrow> Some (run_order X others executor tenant run_id task steps order [] st)))"

text \<open>The thread from its start, when the mode is none of the external ones.\<close>

definition execute_run_in_process ::
  "executor_env \<Rightarrow> interference \<Rightarrow> string \<Rightarrow> string \<Rightarrow> string \<Rightarrow> execution \<Rightarrow> execution option" where
  "execute_run_in_process X others tenant run_id task st =
     (case store_call others (store_start tenant run_id) st of
        (False, st1) \<Rightarrow> Some st1
      | (True, st1) \<Rightarrow>
          (case store_call others (\<lambda>S. (store_get tenant run_id S, S)) st1 of
             (None, st2) \<Rightarrow> Some st2
           | (Some run, st2) \<Rightarrow> execute_steps X others tenant run_id task (sn_steps run) st2))"

lemmas in_process_defs = execute_run_in_process_def execute_steps_def

subsection \<open>The thread ends\<close>

text \<open>Store calls an attempt may make: two for each try that is left, and the one that gives up.\<close>

definition attempt_budget :: "run_step \<Rightarrow> int \<Rightarrow> nat" where
  "attempt_budget step attempts = 2 * nat (max 1 (sp_max_retries step + 1 - attempts)) + 1"

lemma store_call_tick [simp]: "en_tick (snd (store_call others f st)) = Suc (en_tick st)"
  by (simp add: store_call_def call_on_def en_tick_def split: prod.split)

lemma store_call_tickD: "store_call others f st = (a, st1) \<Longrightarrow> en_tick st1 = Suc (en_tick st)"
  by (metis snd_conv store_call_tick)

text \<open>A call that meets the store as the thread left it.\<close>

lemma call_update:
  assumes "others (en_tick st) (en_store st) = en_store st" and "ms_runs (en_store st) i = Some r"
    and "rr_tenant_id r = tenant" and "\<not> rr_cancelled r" and "f r = Some r'"
  shows "store_call others (update_live f tenant i) st =
     (True, \<lparr>en_store = (en_store st)\<lparr>ms_runs := (ms_runs (en_store st))(i \<mapsto> r')\<rparr>, en_log = en_log st @ [en_store st]\<rparr>)"
  using assms by (simp add: store_call_def call_on_def update_live_def owned_def)

text \<open>Attempts are counted up to the number of retries.\<close>

lemma attempt_induct:
  assumes "\<And>attempts st. (\<And>st'. attempts + 1 \<le> sp_max_retries step \<Longrightarrow> Q (attempts + 1) st') \<Longrightarrow> Q attempts st"
  shows "Q attempts st"
proof (induction "nat (sp_max_retries step + 1 - attempts)" arbitrary: attempts st rule: less_induct)
  case less
  show ?case by (rule assms) (rule less, simp)
qed

lemma attempt_ticks:
  "en_tick (snd (attempt_step X others executor tenant run_id task position step finished attempts st)) \<le>
     en_tick st + attempt_budget step attempts"
proof (induction attempts st rule: attempt_induct [where step = step])
  case (1 attempts st)
  obtain ok st1 where start: "store_call others (store_start_step position tenant run_id) st = (ok, st1)" by fastforce
  note tick1 = store_call_tickD [OF start]
  show ?case
  proof (cases "ok")
    case False
    then show ?thesis by (subst attempt_step.simps) (simp add: start tick1 attempt_budget_def)
  next
    case True
    show ?thesis
    proof (cases "complete_step X executor (en_tick st1) task step finished")
      case (Llm_error error)
      define st2 where "st2 = snd (store_call others (store_fail_step position error tenant run_id) st1)"
      have tick2: "en_tick st2 = en_tick st + 2" by (simp add: st2_def tick1)
      show ?thesis
      proof (cases "attempts + 1 \<le> sp_max_retries step")
        case more: True
        then have "attempt_budget step (attempts + 1) + 2 = attempt_budget step attempts"
          by (simp add: attempt_budget_def)
        with 1 [OF more, of st2] True Llm_error more tick2 show ?thesis
          by (subst attempt_step.simps) (simp add: start Let_def flip: st2_def)
      next
        case False
        with True Llm_error tick2 show ?thesis
          by (subst attempt_step.simps) (simp add: start Let_def attempt_budget_def flip: st2_def)
      qed
    next
      case (Answer c)
      obtain ok2 st2 where ended: "store_call others (store_succeed_step position (Some (cm_content c))
          (max 1 (xe_latency X (en_tick st1))) (cm_input_tokens c) (cm_output_tokens c) tenant run_id) st1 = (ok2, st2)"
        by fastforce
      with True Answer show ?thesis
        by (subst attempt_step.simps)
           (simp add: start tick1 store_call_tickD [OF ended] attempt_budget_def split: bool.split)
    next
      case Escaped
      with True tick1 show ?thesis by (subst attempt_step.simps) (simp add: start attempt_budget_def)
    qed
  qed
qed

lemma run_order_ticks:
  "en_tick (run_order X others executor tenant run_id task steps order finished st) \<le>
     en_tick st + (\<Sum>p\<leftarrow>order. attempt_budget (steps ! p) (sp_attempts (steps ! p))) + 1"
proof (induction order arbitrary: finished st)
  case (Cons position order)
  obtain res st1 where attempt: "attempt_step X others executor tenant run_id task position (steps ! position) finished
      (sp_attempts (steps ! position)) st = (res, st1)" by fastforce
  with attempt_ticks [of X others executor tenant run_id task position "steps ! position" finished
      "sp_attempts (steps ! position)" st]
  have "en_tick st1 \<le> en_tick st + attempt_budget (steps ! position) (sp_attempts (steps ! position))" by simp
  note st1 = this
  show ?case
  proof (cases res)
    case Stopped
    with attempt st1 show ?thesis by simp
  next
    case (Finished step)
    from Cons [of "finished @ [step]" st1] attempt st1 Finished show ?thesis by simp
  qed
qed simp

text \<open>The steps the thread works on: those of the snapshot it takes after the start.\<close>

definition seen_steps :: "interference \<Rightarrow> string \<Rightarrow> string \<Rightarrow> execution \<Rightarrow> run_step list" where
  "seen_steps others tenant run_id st =
     (case store_call others (\<lambda>S. (store_get tenant run_id S, S)) (snd (store_call others (store_start tenant run_id) st)) of
        (None, _) \<Rightarrow> [] | (Some run, _) \<Rightarrow> sn_steps run)"

lemma order_budget:
  assumes "distinct order" and "set order = {..<length steps}"
  shows "(\<Sum>p\<leftarrow>order. attempt_budget (steps ! p) (sp_attempts (steps ! p))) = (\<Sum>s\<leftarrow>steps. attempt_budget s (sp_attempts s))"
proof -
  have "(\<Sum>p\<leftarrow>order. attempt_budget (steps ! p) (sp_attempts (steps ! p))) =
      (\<Sum>p<length steps. attempt_budget (steps ! p) (sp_attempts (steps ! p)))"
    using assms by (simp add: sum_list_distinct_conv_sum_set)
  also have "\<dots> = (\<Sum>s\<leftarrow>steps. attempt_budget s (sp_attempts s))"
    by (simp add: sum_list_sum_nth atLeast0LessThan)
  finally show ?thesis .
qed

lemma execution_ends:
  "\<exists>st'. execute_run_in_process X others tenant run_id task st = Some st' \<and>
     en_tick st' \<le> en_tick st + 3 + (\<Sum>s\<leftarrow>seen_steps others tenant run_id st. attempt_budget s (sp_attempts s))"
proof -
  obtain ok st1 where start: "store_call others (store_start tenant run_id) st = (ok, st1)" by fastforce
  obtain seen st2 where get: "store_call others (\<lambda>S. (store_get tenant run_id S, S)) st1 = (seen, st2)" by fastforce
  note ticks = store_call_tickD [OF start] store_call_tickD [OF get]
  show ?thesis
  proof (cases ok)
    case False
    with start ticks show ?thesis by (simp add: in_process_defs)
  next
    case started: True
    show ?thesis
    proof (cases seen)
      case None
      with started start get ticks show ?thesis by (simp add: in_process_defs)
    next
      case (Some run)
      have seen: "seen_steps others tenant run_id st = sn_steps run" by (simp add: seen_steps_def start get Some)
      obtain res where res: "topological_order (step_deps_of (sn_steps run)) = Some res"
        using topological_order_returns by blast
      show ?thesis
      proof (cases "xe_executor X")
        case (Not_configured error)
        with started start get Some ticks show ?thesis by (simp add: in_process_defs)
      next
        case Misconfigured
        with started start get Some ticks show ?thesis by (simp add: in_process_defs)
      next
        case (Executor executor)
        show ?thesis
        proof (cases res)
          case None
          with started start get Some ticks Executor res show ?thesis by (simp add: in_process_defs)
        next
          case order: (Some order)
          note run_order_ticks [of X others executor tenant run_id task "sn_steps run" order "[]" st2]
          moreover have "(\<Sum>p\<leftarrow>order. attempt_budget (sn_steps run ! p) (sp_attempts (sn_steps run ! p))) =
              (\<Sum>s\<leftarrow>sn_steps run. attempt_budget s (sp_attempts s))"
            using topological_order_positions [OF res [unfolded order]] by (intro order_budget) (simp_all add: step_deps_of_def)
          ultimately show ?thesis using started start get Some ticks Executor res order seen by (simp add: in_process_defs)
        qed
      qed
    qed
  qed
qed

subsection \<open>The thread only takes steps of the store\<close>

text \<open>
  Steps of a kind \<open>R\<close>: steps of the store, among them all the thread does. Whatever happens between two calls is
  made of such steps, too.
\<close>

definition permits_calls :: "(run_store \<Rightarrow> run_store \<Rightarrow> bool) \<Rightarrow> executor_env \<Rightarrow> bool" where
  "permits_calls R X \<longleftrightarrow> (\<forall>S S'. R S S' \<longrightarrow> store_step S S') \<and> (\<forall>S tenant i. R S (snd (store_start tenant i S))) \<and>
     (\<forall>S p tenant i. R S (snd (store_start_step p tenant i S))) \<and>
     (\<forall>S p error tenant i. R S (snd (store_fail_step p error tenant i S))) \<and>
     (\<forall>S error tenant i. R S (snd (store_fail error tenant i S))) \<and>
     (\<forall>S tenant i. R S (snd (store_succeed tenant i S))) \<and>
     (\<forall>S p answer n inputs outputs tenant i.
        R S (snd (store_succeed_step p answer (max 1 (xe_latency X n)) inputs outputs tenant i S)))"

definition orderly :: "(run_store \<Rightarrow> run_store \<Rightarrow> bool) \<Rightarrow> interference \<Rightarrow> bool" where
  "orderly R others \<longleftrightarrow> (\<forall>n S. store_ok S \<longrightarrow> R\<^sup>*\<^sup>* S (others n S))"

lemma store_step_calls: "permits_calls store_step X"
  by (simp add: permits_calls_def store_step.intros)

lemma executor_step_calls: "(\<And>n. int64_ok (xe_latency X n)) \<Longrightarrow> permits_calls executor_step X"
  by (simp add: permits_calls_def executor_store_step executor_step.intros int64_ok_def int64_min_def int64_max_def)

lemma store_steps_ok: "store_step\<^sup>*\<^sup>* S S' \<Longrightarrow> store_ok S \<Longrightarrow> store_ok S'"
  using memory_ledger.steps_lookup by blast

lemma permitted_steps_ok:
  assumes "permits_calls R X" and "R\<^sup>*\<^sup>* S S'" and "store_ok S"
  shows "store_ok S'"
  using assms(2)
proof (induction rule: rtranclp_induct)
  case (step S1 S2)
  then show ?case using assms(1) store_step_ok by (auto simp: permits_calls_def)
qed (use assms(3) in simp)

text \<open>
  From one state of the thread to a later one: by steps, and so from and to every store that a call met in
  between.
\<close>

definition passes :: "(run_store \<Rightarrow> run_store \<Rightarrow> bool) \<Rightarrow> execution \<Rightarrow> execution \<Rightarrow> bool" where
  "passes R st st' \<longleftrightarrow> store_ok (en_store st') \<and> R\<^sup>*\<^sup>* (en_store st) (en_store st') \<and>
     (\<exists>met. en_log st' = en_log st @ met \<and>
        (\<forall>S \<in> set met. store_ok S \<and> R\<^sup>*\<^sup>* (en_store st) S \<and> R\<^sup>*\<^sup>* S (en_store st')))"

lemma passes_ok: "passes R st st' \<Longrightarrow> store_ok (en_store st')"
  by (simp add: passes_def)

lemma passes_trans:
  assumes "passes R st st1" and "passes R st1 st2"
  shows "passes R st st2"
proof -
  from assms obtain met1 met2 where met: "en_log st1 = en_log st @ met1" "en_log st2 = en_log st @ met1 @ met2"
    and S1: "\<And>S. S \<in> set met1 \<Longrightarrow> store_ok S \<and> R\<^sup>*\<^sup>* (en_store st) S \<and> R\<^sup>*\<^sup>* S (en_store st1)"
    and S2: "\<And>S. S \<in> set met2 \<Longrightarrow> store_ok S \<and> R\<^sup>*\<^sup>* (en_store st1) S \<and> R\<^sup>*\<^sup>* S (en_store st2)"
    by (auto simp: passes_def)
  have steps: "R\<^sup>*\<^sup>* (en_store st) (en_store st1)" "R\<^sup>*\<^sup>* (en_store st1) (en_store st2)" "store_ok (en_store st2)"
    using assms by (simp_all add: passes_def)
  have "store_ok S \<and> R\<^sup>*\<^sup>* (en_store st) S \<and> R\<^sup>*\<^sup>* S (en_store st2)" if "S \<in> set (met1 @ met2)" for S
    using that S1 [of S] S2 [of S] steps by (auto intro: rtranclp_trans)
  with met(2) steps show ?thesis
    unfolding passes_def by (intro conjI exI [of _ "met1 @ met2"]) (auto intro: rtranclp_trans)
qed

lemma store_call_steps:
  assumes "permits_calls R X" and "orderly R others" and "store_ok (en_store st)"
    and "\<And>S. snd (f S) = S \<or> R S (snd (f S))" and "store_call others f st = (a, st1)"
  shows "passes R st st1"
proof -
  let ?S = "others (en_tick st) (en_store st)"
  have S: "R\<^sup>*\<^sup>* (en_store st) ?S" using assms(2,3) by (simp add: orderly_def)
  have st1: "en_store st1 = snd (f ?S)" "en_log st1 = en_log st @ [?S]"
    using assms(5) by (auto simp: store_call_def call_on_def split: prod.splits)
  have call: "R\<^sup>*\<^sup>* ?S (en_store st1)" using assms(4) [of ?S] by (auto simp: st1(1))
  from permitted_steps_ok [OF assms(1) S assms(3)] have "store_ok ?S" .
  with permitted_steps_ok [OF assms(1) call] S call st1(2) show ?thesis by (simp add: passes_def)
qed

lemma method_steps:
  assumes "permits_calls R X"
  shows "snd (store_start tenant i S) = S \<or> R S (snd (store_start tenant i S))"
    and "snd (store_start_step p tenant i S) = S \<or> R S (snd (store_start_step p tenant i S))"
    and "snd (store_fail_step p error tenant i S) = S \<or> R S (snd (store_fail_step p error tenant i S))"
    and "snd (store_fail error tenant i S) = S \<or> R S (snd (store_fail error tenant i S))"
    and "snd (store_succeed tenant i S) = S \<or> R S (snd (store_succeed tenant i S))"
    and "snd (store_succeed_step p answer (max 1 (xe_latency X n)) inputs outputs tenant i S) = S \<or>
      R S (snd (store_succeed_step p answer (max 1 (xe_latency X n)) inputs outputs tenant i S))"
    and "snd (store_get tenant i S, S) = S \<or> R S (snd (store_get tenant i S, S))"
  using assms by (simp_all add: permits_calls_def)

lemma attempt_steps:
  assumes "permits_calls R X" and "orderly R others"
  shows "store_ok (en_store st) \<Longrightarrow> attempt_step X others executor tenant run_id task position step finished attempts st = (res, st') \<Longrightarrow>
     passes R st st'"
proof (induction attempts st arbitrary: res st' rule: attempt_induct [where step = step])
  case (1 attempts st)
  note calls = store_call_steps [OF assms _ method_steps(2) [OF assms(1)]] store_call_steps [OF assms _ method_steps(3) [OF assms(1)]]
    store_call_steps [OF assms _ method_steps(4) [OF assms(1)]] store_call_steps [OF assms _ method_steps(6) [OF assms(1)]]
  obtain ok st1 where start: "store_call others (store_start_step position tenant run_id) st = (ok, st1)" by fastforce
  note st1 = calls(1) [OF 1(2) start]
  show ?case
  proof (cases ok)
    case False
    with 1(3) start st1 show ?thesis by (subst (asm) attempt_step.simps) simp
  next
    case started: True
    show ?thesis
    proof (cases "complete_step X executor (en_tick st1) task step finished")
      case (Llm_error error)
      obtain b st2 where failed: "store_call others (store_fail_step position error tenant run_id) st1 = (b, st2)" by fastforce
      note st2 = passes_trans [OF st1 calls(2) [OF passes_ok [OF st1] failed]]
      show ?thesis
      proof (cases "attempts + 1 \<le> sp_max_retries step")
        case True
        with 1(3) start started Llm_error failed
        have "attempt_step X others executor tenant run_id task position step finished (attempts + 1) st2 = (res, st')"
          by (subst (asm) attempt_step.simps) simp
        from passes_trans [OF st2 1(1) [OF True passes_ok [OF st2] this]] show ?thesis .
      next
        case False
        obtain b' st3 where gave_up: "store_call others (store_fail error tenant run_id) st2 = (b', st3)" by fastforce
        with 1(3) start started Llm_error failed False have "st' = st3"
          by (subst (asm) attempt_step.simps) simp
        with passes_trans [OF st2 calls(3) [OF passes_ok [OF st2] gave_up]] show ?thesis by simp
      qed
    next
      case (Answer c)
      obtain b st2 where ended: "store_call others (store_succeed_step position (Some (cm_content c))
          (max 1 (xe_latency X (en_tick st1))) (cm_input_tokens c) (cm_output_tokens c) tenant run_id) st1 = (b, st2)"
        by fastforce
      with 1(3) start started Answer have "st' = st2"
        by (subst (asm) attempt_step.simps) (simp split: bool.splits)
      with passes_trans [OF st1 calls(4) [OF passes_ok [OF st1] ended]] show ?thesis by simp
    next
      case Escaped
      with 1(3) start started st1 show ?thesis by (subst (asm) attempt_step.simps) simp
    qed
  qed
qed

lemma run_order_steps:
  assumes "permits_calls R X" and "orderly R others"
  shows "store_ok (en_store st) \<Longrightarrow> passes R st (run_order X others executor tenant run_id task steps order finished st)"
proof (induction order arbitrary: finished st)
  case Nil
  obtain b st1 where "store_call others (store_succeed tenant run_id) st = (b, st1)" by fastforce
  with store_call_steps [OF assms Nil method_steps(5) [OF assms(1)] this] show ?case by simp
next
  case (Cons position order)
  obtain res st1 where attempt: "attempt_step X others executor tenant run_id task position (steps ! position) finished
      (sp_attempts (steps ! position)) st = (res, st1)" by fastforce
  note st1 = attempt_steps [OF assms Cons.prems attempt]
  from st1 passes_trans [OF st1 Cons.IH [OF passes_ok [OF st1]]] attempt show ?case by (cases res) simp_all
qed

lemma execution_steps:
  assumes "permits_calls R X" and "orderly R others" and "store_ok (en_store st)"
    and "execute_run_in_process X others tenant run_id task st = Some st'"
  shows "passes R st st'"
proof -
  note calls = store_call_steps [OF assms(1,2) _ method_steps(1) [OF assms(1)]]
    store_call_steps [OF assms(1,2) _ method_steps(7) [OF assms(1)]] store_call_steps [OF assms(1,2) _ method_steps(4) [OF assms(1)]]
  obtain ok st1 where start: "store_call others (store_start tenant run_id) st = (ok, st1)" by fastforce
  obtain seen st2 where get: "store_call others (\<lambda>S. (store_get tenant run_id S, S)) st1 = (seen, st2)" by fastforce
  note st1 = calls(1) [OF assms(3) start]
  note st2 = passes_trans [OF st1 calls(2) [OF passes_ok [OF st1] get]]
  have failed: "passes R st (snd (store_call others (store_fail error tenant run_id) st2))" for error
  proof -
    obtain b st3 where gave_up: "store_call others (store_fail error tenant run_id) st2 = (b, st3)" by fastforce
    from passes_trans [OF st2 calls(3) [OF passes_ok [OF st2] gave_up]] show ?thesis by (simp add: gave_up)
  qed
  from assms(4) start get st1 st2 failed passes_trans [OF st2 run_order_steps [OF assms(1,2) passes_ok [OF st2]]]
  show ?thesis
    by (auto simp: in_process_defs split: bool.splits option.splits executor_choice.splits)
qed

text \<open>A run of one step, cancelled while the step is executed.\<close>

definition short_run :: run_record where
  "short_run = new_record ''u'' ''t1'' ''report'' None
     [\<lparr>sx_node_id = ''draft'', sx_prompt = None, sx_role = None, sx_depends_on = [], sx_max_retries = 0, sx_model = None,
       sx_max_tokens = None\<rparr>]"

definition short_execution :: execution where
  "short_execution = \<lparr>en_store = \<lparr>ms_runs = [''u'' \<mapsto> short_run], ms_idempotency = [(''t1'', ''k1'') \<mapsto> ''u'']\<rparr>, en_log = []\<rparr>"

definition no_provider :: llm_exchange where
  "no_provider = \<lparr>lx_do = (\<lambda>_ _. Unavailable), lx_parse = (\<lambda>_. None)\<rparr>"

definition mock_env :: executor_env where
  "mock_env = \<lparr>xe_python = plain_python, xe_getenv = Map.empty, xe_exchange = (\<lambda>_. no_provider), xe_latency = (\<lambda>_. 20)\<rparr>"

definition cancel_before :: "nat \<Rightarrow> interference" where
  "cancel_before k n S = (if n = k then snd (store_cancel ''t1'' ''u'' S) else S)"

lemma short_execution_ok: "store_ok (en_store short_execution)"
  by (rule store_okI)
     (auto simp: short_execution_def short_run_def new_record_def new_step_def record_ok_def status_word_def split: if_splits)

lemma cancel_before_orderly: "orderly store_step (cancel_before k)"
  by (simp add: orderly_def cancel_before_def r_into_rtranclp store_step.cancel)

definition cancelled_execution :: execution where
  "cancelled_execution = the (execute_run_in_process mock_env (cancel_before 3) ''t1'' ''u'' ''report'' short_execution)"

lemma short_order: "topological_order [(''draft'', [])] = Some (Some [0])"
  by code_simp

lemma cancelled_execution_met:
  "\<exists>S0 S1 S2 S r. en_log cancelled_execution = [S0, S1, S2, S] \<and> ms_runs S ''u'' = Some r \<and> rr_cancelled r \<and>
     rr_status r = ''cancelled'' \<and> map sp_status (rr_steps r) = [''cancelled'']"
proof -
  let ?store = "\<lambda>r. (en_store short_execution)\<lparr>ms_runs := [''u'' \<mapsto> r]\<rparr>"
  define r1 where "r1 = short_run\<lparr>rr_status := ''running'', rr_summary := ''execution running''\<rparr>"
  define s0 where "s0 = hd (rr_steps short_run)"
  define s where "s = s0\<lparr>sp_status := ''running'', sp_attempts := 1, sp_error := []\<rparr>"
  define r2 where "r2 = r1\<lparr>rr_steps := [s]\<rparr>"
  have tenant: "rr_tenant_id short_run = ''t1''" "\<not> rr_cancelled short_run" "rr_steps short_run = [s0]" "sp_status s0 = ''queued''"
    "sp_attempts s0 = 0" "step_deps_of [s0] = [(''draft'', [])]"
    by (simp_all add: s0_def short_run_def new_record_def new_step_def step_deps_of_def)
  have stores: "en_store short_execution = ?store short_run" "en_log short_execution = []"
    by (simp_all add: short_execution_def)
  have start: "store_call (cancel_before 3) (store_start ''t1'' ''u'') short_execution =
      (True, \<lparr>en_store = ?store r1, en_log = [?store short_run]\<rparr>)"
    unfolding store_start_def
    by (subst call_update [where r = short_run and r' = r1])
       (simp_all add: tenant stores r1_def cancel_before_def en_tick_def short_execution_def)
  have get: "store_call (cancel_before 3) (\<lambda>S. (store_get ''t1'' ''u'' S, S)) \<lparr>en_store = ?store r1, en_log = [?store short_run]\<rparr> =
      (Some (snapshot r1), \<lparr>en_store = ?store r1, en_log = [?store short_run, ?store r1]\<rparr>)"
    by (simp add: store_call_def call_on_def cancel_before_def en_tick_def store_get_def owned_def r1_def tenant)
  have start_step: "store_call (cancel_before 3) (store_start_step 0 ''t1'' ''u'')
        \<lparr>en_store = ?store r1, en_log = [?store short_run, ?store r1]\<rparr> =
      (True, \<lparr>en_store = ?store r2, en_log = [?store short_run, ?store r1, ?store r1]\<rparr>)"
    unfolding store_start_step_def
    by (subst call_update [where r = r1 and r' = r2])
       (simp_all add: r2_def s_def r1_def tenant cancel_before_def en_tick_def Let_def list_update_nonempty)
  have lost: "store_call (cancel_before 3) (store_succeed_step 0 answer n a b ''t1'' ''u'')
        \<lparr>en_store = ?store r2, en_log = [?store short_run, ?store r1, ?store r1]\<rparr> =
      (False, \<lparr>en_store = ?store (cancelled_record r2), en_log = [?store short_run, ?store r1, ?store r1, ?store (cancelled_record r2)]\<rparr>)"
    for answer n a b
    by (simp add: store_call_def call_on_def cancel_before_def en_tick_def store_succeed_step_def update_live_def owned_def
        store_cancel_def cancelled_record_def terminal_status_def r2_def r1_def tenant)
  have mock: "xe_executor mock_env = Executor None" "sn_steps (snapshot r1) = [s0]"
    by (simp_all add: mock_env_def xe_executor_def build_executor_def execution_mode_def snapshot_def r1_def tenant(3))
  have "cancelled_execution = run_order mock_env (cancel_before 3) None ''t1'' ''u'' ''report'' [s0] [0] []
      \<lparr>en_store = ?store r1, en_log = [?store short_run, ?store r1]\<rparr>"
    by (simp only: cancelled_execution_def in_process_defs start get mock tenant(6) short_order bool.case prod.case
        option.case executor_choice.case option.sel)
  also have "\<dots> = \<lparr>en_store = ?store (cancelled_record r2),
      en_log = [?store short_run, ?store r1, ?store r1, ?store (cancelled_record r2)]\<rparr>"
    by (subst run_order.simps, subst attempt_step.simps)
       (simp only: start_step lost complete_step_def prod.case bool.case option.case completed.case
         attempt_result.case nth_Cons_0)
  finally have eq: "cancelled_execution = \<lparr>en_store = ?store (cancelled_record r2),
      en_log = [?store short_run, ?store r1, ?store r1, ?store (cancelled_record r2)]\<rparr>" .
  have "en_log cancelled_execution = [?store short_run, ?store r1, ?store r1, ?store (cancelled_record r2)]"
    by (simp add: eq)
  moreover have "rr_cancelled (cancelled_record r2)" "rr_status (cancelled_record r2) = ''cancelled''"
    "map sp_status (rr_steps (cancelled_record r2)) = [''cancelled'']" "ms_runs (?store r) ''u'' = Some r" for r
    by (simp_all add: cancelled_record_def terminal_status_def r2_def r1_def s_def)
  ultimately show ?thesis by (intro exI conjI)
qed

subsection \<open>A run that is left alone succeeds\<close>

definition alone :: interference where
  "alone n S = S"

lemma alone_orderly: "orderly R alone"
  by (simp add: orderly_def alone_def)

lemma call_alone:
  assumes "ms_runs (en_store st) i = Some r" and "rr_tenant_id r = tenant" and "\<not> rr_cancelled r" and "f r = Some r'"
  shows "\<exists>st1. store_call alone (update_live f tenant i) st = (True, st1) \<and> ms_runs (en_store st1) i = Some r'"
  by (simp add: call_update [where others = alone and f = f, OF _ assms] alone_def)

text \<open>What the thread does not touch.\<close>

definition same_run :: "run_record \<Rightarrow> run_record \<Rightarrow> bool" where
  "same_run r r' \<longleftrightarrow> rr_id r' = rr_id r \<and> rr_tenant_id r' = rr_tenant_id r \<and> rr_cancelled r' = rr_cancelled r \<and>
     map sp_node_id (rr_steps r') = map sp_node_id (rr_steps r)"

lemma attempt_alone:
  assumes "ms_runs (en_store st) i = Some r" and "rr_tenant_id r = tenant" and "\<not> rr_cancelled r"
    and "position < length (rr_steps r)" and "sp_status (rr_steps r ! position) = ''queued''"
    and "\<And>n. \<exists>c. complete_step X executor n task step finished = Answer c"
  shows "\<exists>step' st' r' s. attempt_step X alone executor tenant i task position step finished attempts st = (Finished step', st') \<and>
     ms_runs (en_store st') i = Some r' \<and> same_run r r' \<and> rr_steps r' = (rr_steps r)[position := s] \<and>
     sp_status s = ''succeeded''"
proof -
  let ?s = "(rr_steps r ! position)\<lparr>sp_status := ''running'', sp_attempts := sp_attempts (rr_steps r ! position) + 1, sp_error := []\<rparr>"
  let ?r = "r\<lparr>rr_steps := (rr_steps r)[position := ?s]\<rparr>"
  have "\<exists>st1. store_call alone (store_start_step position tenant i) st = (True, st1) \<and> ms_runs (en_store st1) i = Some ?r"
    unfolding store_start_step_def by (rule call_alone [OF assms(1-3)]) (simp add: assms(5) Let_def)
  then obtain st1 where
    start: "store_call alone (store_start_step position tenant i) st = (True, st1)" "ms_runs (en_store st1) i = Some ?r" by blast
  obtain c where c: "complete_step X executor (en_tick st1) task step finished = Answer c" using assms(6) by blast
  define s where "s = ?s\<lparr>sp_status := ''succeeded'',
      sp_output := (if cm_content c = [] then ''mock execution completed step '' @ sp_node_id ?s else cm_content c),
      sp_latency_ms := max 1 (xe_latency X (en_tick st1)), sp_input_tokens := cm_input_tokens c,
      sp_output_tokens := cm_output_tokens c\<rparr>"
  have "\<exists>st2. store_call alone (store_succeed_step position (Some (cm_content c)) (max 1 (xe_latency X (en_tick st1)))
      (cm_input_tokens c) (cm_output_tokens c) tenant i) st1 = (True, st2) \<and>
      ms_runs (en_store st2) i = Some (?r\<lparr>rr_steps := (rr_steps r)[position := s]\<rparr>)"
    unfolding store_succeed_step_def
    by (rule call_alone [OF start(2)]) (use assms(2-4) in \<open>simp_all add: s_def or_empty_def\<close>)
  then obtain st2 where ended: "store_call alone (store_succeed_step position (Some (cm_content c))
      (max 1 (xe_latency X (en_tick st1))) (cm_input_tokens c) (cm_output_tokens c) tenant i) st1 = (True, st2)"
    "ms_runs (en_store st2) i = Some (?r\<lparr>rr_steps := (rr_steps r)[position := s]\<rparr>)" by blast
  have "map sp_node_id ((rr_steps r)[position := s]) = map sp_node_id (rr_steps r)"
    using assms(4) by (simp add: map_update s_def list_update_same_conv)
  moreover have "attempt_step X alone executor tenant i task position step finished attempts st =
      (Finished (step\<lparr>sp_status := ''succeeded'', sp_attempts := attempts + 1, sp_output := cm_content c\<rparr>), st2)"
    using start(1) c ended(1) by (subst attempt_step.simps) simp
  moreover have "sp_status s = ''succeeded''" by (simp add: s_def)
  ultimately show ?thesis
    using ended(2)
    by (intro exI [of _ "step\<lparr>sp_status := ''succeeded'', sp_attempts := attempts + 1, sp_output := cm_content c\<rparr>"]
        exI [of _ st2] exI [of _ "?r\<lparr>rr_steps := (rr_steps r)[position := s]\<rparr>"] exI [of _ s])
       (simp add: same_run_def)
qed

text \<open>Between two steps: those still in the order are queued, the others have succeeded.\<close>

definition progress :: "run_record \<Rightarrow> nat list \<Rightarrow> bool" where
  "progress r order \<longleftrightarrow> distinct order \<and> set order \<subseteq> {..<length (rr_steps r)} \<and>
     (\<forall>p < length (rr_steps r). sp_status (rr_steps r ! p) = (if p \<in> set order then ''queued'' else ''succeeded''))"

lemma progress_step:
  assumes "progress r (position # order)" and "rr_steps r' = (rr_steps r)[position := s]" and "sp_status s = ''succeeded''"
  shows "progress r' order"
  using assms by (auto simp: progress_def nth_list_update)

lemma run_order_alone:
  assumes "\<And>n step finished. \<exists>c. complete_step X executor n task step finished = Answer c"
  shows "ms_runs (en_store st) i = Some r \<Longrightarrow> rr_tenant_id r = tenant \<Longrightarrow> \<not> rr_cancelled r \<Longrightarrow> progress r order \<Longrightarrow>
     \<exists>r'. ms_runs (en_store (run_order X alone executor tenant i task steps order finished st)) i = Some r' \<and> same_run r r' \<and>
       rr_status r' = ''succeeded'' \<and> (\<forall>s \<in> set (rr_steps r'). sp_status s = ''succeeded'')"
proof (induction order arbitrary: st r finished)
  case Nil
  have "\<exists>st1. store_call alone (store_succeed tenant i) st = (True, st1) \<and> ms_runs (en_store st1) i =
      Some (r\<lparr>rr_status := ''succeeded'', rr_summary := ''execution completed''\<rparr>)"
    unfolding store_succeed_def by (rule call_alone [OF Nil(1-3)]) simp
  moreover have "\<forall>s \<in> set (rr_steps r). sp_status s = ''succeeded''"
    using Nil(4) by (auto simp: progress_def in_set_conv_nth)
  ultimately show ?case by (auto simp: same_run_def)
next
  case (Cons position order)
  have "position < length (rr_steps r)" "sp_status (rr_steps r ! position) = ''queued''"
    using Cons.prems(4) by (auto simp: progress_def)
  from attempt_alone [OF Cons.prems(1-3) this assms, of "steps ! position" finished "sp_attempts (steps ! position)"]
  obtain step st1 r1 s where
    attempt: "attempt_step X alone executor tenant i task position (steps ! position) finished (sp_attempts (steps ! position)) st =
      (Finished step, st1)" and
    r1: "ms_runs (en_store st1) i = Some r1" "same_run r r1" "rr_steps r1 = (rr_steps r)[position := s]"
      "sp_status s = ''succeeded''" by blast
  from Cons.IH [OF r1(1) _ _ progress_step [OF Cons.prems(4) r1(3,4)], of "finished @ [step]"] r1(2) Cons.prems(2,3)
  obtain r' where "ms_runs (en_store (run_order X alone executor tenant i task steps order (finished @ [step]) st1)) i = Some r'"
    "same_run r1 r'" "rr_status r' = ''succeeded''" "\<forall>s \<in> set (rr_steps r'). sp_status s = ''succeeded''"
    by (auto simp: same_run_def)
  with r1(2) attempt show ?case by (auto simp: same_run_def)
qed

lemma execution_alone:
  assumes "ms_runs (en_store st) i = Some r" and "rr_tenant_id r = tenant" and "\<not> rr_cancelled r"
    and "\<forall>s \<in> set (rr_steps r). sp_status s = ''queued''"
    and "topological_order (step_deps_of (rr_steps r)) = Some (Some order)"
    and "xe_executor X = Executor executor" and "\<And>n step finished. \<exists>c. complete_step X executor n task step finished = Answer c"
  shows "\<exists>st' r'. execute_run_in_process X alone tenant i task st = Some st' \<and> ms_runs (en_store st') i = Some r' \<and> same_run r r' \<and>
     rr_status r' = ''succeeded'' \<and> (\<forall>s \<in> set (rr_steps r'). sp_status s = ''succeeded'')"
proof -
  let ?r = "r\<lparr>rr_status := ''running'', rr_summary := ''execution running''\<rparr>"
  have "\<exists>st1. store_call alone (store_start tenant i) st = (True, st1) \<and> ms_runs (en_store st1) i = Some ?r"
    unfolding store_start_def by (rule call_alone [OF assms(1-3)]) simp
  then obtain st1 where start: "store_call alone (store_start tenant i) st = (True, st1)" "ms_runs (en_store st1) i = Some ?r"
    by blast
  define st2 where "st2 = \<lparr>en_store = en_store st1, en_log = en_log st1 @ [en_store st1]\<rparr>"
  have get: "store_call alone (\<lambda>S. (store_get tenant i S, S)) st1 = (Some (snapshot ?r), st2)"
    using start(2) assms(2) by (simp add: store_call_def call_on_def alone_def store_get_def owned_def st2_def)
  have "progress ?r order"
    using topological_order_positions [OF assms(5)] assms(4) by (auto simp: progress_def step_deps_of_def)
  from run_order_alone [OF assms(7), of st2 i ?r tenant order "rr_steps r" "[]"] this start(2) assms(2,3)
  obtain r' where "ms_runs (en_store (run_order X alone executor tenant i task (rr_steps r) order [] st2)) i = Some r'"
    "same_run ?r r'" "rr_status r' = ''succeeded''" "\<forall>s \<in> set (rr_steps r'). sp_status s = ''succeeded''"
    by (auto simp: st2_def)
  then show ?thesis
    using start(1) get assms(5,6) by (auto simp: in_process_defs snapshot_def same_run_def)
qed

end
