(* ===== verification/Backend_External.thy ===== *)
theory Backend_External
  imports Backend_Executor Runtime_Client
begin

text \<open>
  \<open>_execute_external_run\<close> of src/backend/app/main.py, for the modes \<open>equaxis\<close> and \<open>agent_http\<close>: the thread hands the
  run to an external agent runtime, polls it and copies what it reports into the store, and \<open>cancel_run\<close> forwards a
  cancellation; then \<open>execute_run\<close>, which chooses between it and \<open>execute_steps\<close>. As in \<open>Backend_Executor\<close> anything may happen to the store between two calls. The runtime and
  its network are a state of their own.
\<close>

subsection \<open>Parameters\<close>

text \<open>
  The parameters of the in-process part, among them the values of Python and the environment, the exchange with
  the runtime, and the monotonic clock, read after so many calls of the store.
\<close>

record 'e runtime_env =
  re_host :: executor_env
  re_exchange :: "'e exchange"
  re_now :: "nat \<Rightarrow> rat"

abbreviation re_python :: "'e runtime_env \<Rightarrow> python" where
  "re_python X \<equiv> xe_python (re_host X)"

abbreviation re_getenv :: "'e runtime_env \<Rightarrow> string \<Rightarrow> string option" where
  "re_getenv X \<equiv> xe_getenv (re_host X)"

definition external_mode :: "(string \<Rightarrow> string option) \<Rightarrow> bool" where
  "external_mode getenv \<longleftrightarrow> execution_mode getenv \<in> {''equaxis'', ''agent_http''}"

definition build_runtime_client :: "python \<Rightarrow> (string \<Rightarrow> string option) \<Rightarrow> (string, runtime_client option) result" where
  "build_runtime_client P getenv =
     (if execution_mode getenv = ''equaxis'' then map_sum id Some (equaxis_from_env P getenv)
      else if execution_mode getenv = ''agent_http'' then map_sum id Some (agent_from_env P getenv)
      else Inr None)"

definition runtime_float :: "python \<Rightarrow> (string \<Rightarrow> string option) \<Rightarrow> string \<Rightarrow> rat \<Rightarrow> rat" where
  "runtime_float P getenv name fallback =
     (case getenv name of
        None \<Rightarrow> max (1 / 100) fallback
      | Some s \<Rightarrow> (case py_float P s of None \<Rightarrow> fallback | Some v \<Rightarrow> max (1 / 100) v))"

subsection \<open>Reading a report\<close>

text \<open>
  \<open>_normalize_runtime_status\<close>. The result is only compared with ASCII words, and no character outside ASCII is
  lowered to a letter of one.
\<close>

definition normalize_runtime_status :: "python \<Rightarrow> (string \<times> json) list \<Rightarrow> string" where
  "normalize_runtime_status P ms =
     (let status = map lower_byte (text_of P (get_or P ms ''status'' (JStr ''queued'')))
      in if status \<in> {''done'', ''success'', ''successful'', ''complete'', ''completed''} then ''succeeded''
         else if status = ''error'' then ''failed'' else status)"

text \<open>
  The position of the step a report is about; the inner \<open>None\<close> when there is none, the outer one when the name is a
  list or a dictionary, which no dictionary takes for a key.
\<close>

definition reported_position :: "python \<Rightarrow> run_step list \<Rightarrow> (string \<times> json) list \<Rightarrow> nat option option" where
  "reported_position P steps ms =
     (case get_or P ms ''node_id'' (case member ms ''name'' of None \<Rightarrow> JNull | Some j \<Rightarrow> j) of
        JStr name \<Rightarrow> Some (map_of (rev (zip (map sp_node_id steps) [0..<length steps])) name)
      | JArr _ \<Rightarrow> None
      | JObj _ \<Rightarrow> None
      | _ \<Rightarrow> Some None)"

definition count_of :: "python \<Rightarrow> (string \<times> json) list \<Rightarrow> string \<Rightarrow> int option" where
  "count_of P ms name = (case get_or P ms name (JInt 0) of JInt n \<Rightarrow> Some n | j \<Rightarrow> py_number P j)"

text \<open>
  The arguments of \<open>succeed_step\<close>; \<open>None\<close> when a number cannot be read, or the output is no text, which the column
  of the production store refuses.
\<close>

definition reported_result :: "python \<Rightarrow> (string \<times> json) list \<Rightarrow> (string \<times> int \<times> int \<times> int) option" where
  "reported_result P ms =
     (case (get_or P ms ''output'' (get_or P ms ''result'' (JStr [])), count_of P ms ''latency_ms'',
            count_of P ms ''input_tokens'', count_of P ms ''output_tokens'') of
        (JStr out, Some latency, Some inputs, Some outputs) \<Rightarrow> Some (out, latency, inputs, outputs)
      | _ \<Rightarrow> None)"

subsection \<open>Copying the steps\<close>

text \<open>\<open>False\<close> when an exception leaves the thread.\<close>

definition sync_step ::
  "python \<Rightarrow> interference \<Rightarrow> string \<Rightarrow> string \<Rightarrow> run_step list \<Rightarrow> (string \<times> json) list \<Rightarrow> execution \<Rightarrow> bool \<times> execution" where
  "sync_step P others tenant run_id steps ms st =
     (case reported_position P steps ms of
        None \<Rightarrow> (False, st)
      | Some None \<Rightarrow> (True, st)
      | Some (Some position) \<Rightarrow>
          let status = normalize_runtime_status P ms in
          (case (if status \<in> {''running'', ''succeeded'', ''failed''} \<and> sp_status (steps ! position) = ''queued''
                 then store_call others (store_start_step position tenant run_id) st else (True, st)) of
             (False, st1) \<Rightarrow> (True, st1)
           | (True, st1) \<Rightarrow>
               if status = ''succeeded'' then
                 (case reported_result P ms of
                    None \<Rightarrow> (False, st1)
                  | Some (out, latency, inputs, outputs) \<Rightarrow>
                      (True, snd (store_call others (store_succeed_step position (Some out) latency inputs outputs tenant run_id) st1)))
               else if status = ''failed'' then
                 (True, snd (store_call others (store_fail_step position
                    (text_of P (get_or P ms ''error'' (JStr ''external agent runtime step failed''))) tenant run_id) st1))
               else (True, st1)))"

fun sync_steps ::
  "python \<Rightarrow> interference \<Rightarrow> string \<Rightarrow> string \<Rightarrow> run_step list \<Rightarrow> json list \<Rightarrow> execution \<Rightarrow> bool \<times> execution" where
  "sync_steps P others tenant run_id steps [] st = (True, st)"
| "sync_steps P others tenant run_id steps (JObj ms # reports) st =
     (case sync_step P others tenant run_id steps ms st of
        (False, st1) \<Rightarrow> (False, st1)
      | (True, st1) \<Rightarrow> sync_steps P others tenant run_id steps reports st1)"
| "sync_steps P others tenant run_id steps (_ # reports) st = sync_steps P others tenant run_id steps reports st"

text \<open>A text or a dictionary in place of the list yields no dictionaries; other values cannot be iterated.\<close>

definition sync_external_steps ::
  "python \<Rightarrow> interference \<Rightarrow> string \<Rightarrow> string \<Rightarrow> (string \<times> json) list \<Rightarrow> execution \<Rightarrow> bool \<times> execution" where
  "sync_external_steps P others tenant run_id report st =
     (case store_call others (\<lambda>S. (store_get tenant run_id S, S)) st of
        (None, st1) \<Rightarrow> (True, st1)
      | (Some run, st1) \<Rightarrow>
          (case member report ''steps'' of
             None \<Rightarrow> (True, st1)
           | Some (JArr reports) \<Rightarrow> sync_steps P others tenant run_id (sn_steps run) reports st1
           | Some (JStr _) \<Rightarrow> (True, st1)
           | Some (JObj _) \<Rightarrow> (True, st1)
           | Some _ \<Rightarrow> (False, st1)))"

subsection \<open>Polling\<close>

text \<open>How the thread ends: it returns, or an exception nobody catches ends it.\<close>

datatype thread_end = Returned | Died

definition return_after :: "interference \<Rightarrow> (run_store \<Rightarrow> 'a \<times> run_store) \<Rightarrow> execution \<Rightarrow> 'e \<Rightarrow> thread_end \<times> execution \<times> 'e" where
  "return_after others f st e = (Returned, snd (store_call others f st), e)"

text \<open>One round of the loop: how the thread ends in it, or the next report with which it goes on.\<close>

definition poll_once ::
  "'e runtime_env \<Rightarrow> interference \<Rightarrow> runtime_client \<Rightarrow> string \<Rightarrow> string \<Rightarrow> string option \<Rightarrow> string \<Rightarrow> rat \<Rightarrow>
   (string \<times> json) list \<Rightarrow> execution \<Rightarrow> 'e \<Rightarrow> thread_end \<times> execution \<times> 'e + (string \<times> json) list \<times> execution \<times> 'e" where
  "poll_once X others C tenant run_id project external_id deadline report st e =
     (let P = re_python X; status = normalize_runtime_status P report in
      case sync_external_steps P others tenant run_id report st of
        (False, st1) \<Rightarrow> Inl (Died, st1, e)
      | (True, st1) \<Rightarrow>
          if status = ''succeeded'' then Inl (return_after others (store_succeed tenant run_id) st1 e)
          else if status = ''cancelled'' then Inl (return_after others (store_cancel tenant run_id) st1 e)
          else if status = ''failed'' then
            Inl (return_after others (store_fail
              (text_of P (get_or P report ''summary'' (JStr ''external agent runtime failed''))) tenant run_id) st1 e)
          else if deadline \<le> re_now X (en_tick st1) then
            (case runtime_cancel (re_exchange X) C tenant project external_id e of
               (Raised, e1) \<Rightarrow> Inl (Died, st1, e1)
             | (_, e1) \<Rightarrow> Inl (return_after others (store_fail ''external agent runtime polling timed out'' tenant run_id) st1 e1))
          else
            (case runtime_get (re_exchange X) C tenant project external_id e of
               (Replied report1, e1) \<Rightarrow> Inr (report1, st1, e1)
             | (Client_error error, e1) \<Rightarrow> Inl (return_after others (store_fail error tenant run_id) st1 e1)
             | (Raised, e1) \<Rightarrow> Inl (Died, st1, e1)))"

text \<open>The loop; \<open>None\<close> means that it does not end.\<close>

partial_function (option) poll_external ::
  "'e runtime_env \<Rightarrow> interference \<Rightarrow> runtime_client \<Rightarrow> string \<Rightarrow> string \<Rightarrow> string option \<Rightarrow> string \<Rightarrow> rat \<Rightarrow>
   (string \<times> json) list \<Rightarrow> execution \<Rightarrow> 'e \<Rightarrow> (thread_end \<times> execution \<times> 'e) option" where
  "poll_external X others C tenant run_id project external_id deadline report st e =
     (case poll_once X others C tenant run_id project external_id deadline report st e of
        Inl ended \<Rightarrow> Some ended
      | Inr (report1, st1, e1) \<Rightarrow> poll_external X others C tenant run_id project external_id deadline report1 st1 e1)"

declare poll_external.simps [code]

subsection \<open>A run\<close>

text \<open>Until the loop: how the thread ends before it, or the client, the id of the run at the runtime and its first report.\<close>

definition hand_over ::
  "'e runtime_env \<Rightarrow> interference \<Rightarrow> string \<Rightarrow> string \<Rightarrow> string \<Rightarrow> string option \<Rightarrow> string \<Rightarrow> run_step list \<Rightarrow> execution \<Rightarrow> 'e \<Rightarrow>
   thread_end \<times> execution \<times> 'e + runtime_client \<times> string \<times> (string \<times> json) list \<times> execution \<times> 'e" where
  "hand_over X others tenant run_id task project key steps st e =
     (case build_runtime_client (re_python X) (re_getenv X) of
        Inl error \<Rightarrow> Inl (return_after others (store_fail error tenant run_id) st e)
      | Inr None \<Rightarrow>
          Inl (return_after others (store_fail ''external agent runtime adapter is not configured'' tenant run_id) st e)
      | Inr (Some C) \<Rightarrow>
          (case runtime_submit (re_exchange X) C tenant project task steps key e of
             (Client_error error, e1) \<Rightarrow> Inl (return_after others (store_fail error tenant run_id) st e1)
           | (Raised, e1) \<Rightarrow> Inl (Died, st, e1)
           | (Replied external, e1) \<Rightarrow>
               let external_id = text_of (re_python X) (get_or (re_python X) external ''id'' (JStr [])) in
               if external_id = [] then
                 Inl (return_after others
                   (store_fail ''external agent runtime response did not include a run id'' tenant run_id) st e1)
               else
                 (case store_call others (store_set_runtime_run_id external_id tenant run_id) st of
                    (False, st1) \<Rightarrow> Inl (Returned, st1, e1)
                  | (True, st1) \<Rightarrow> Inr (C, external_id, external, st1, e1))))"

definition run_timeout :: "'e runtime_env \<Rightarrow> rat" where
  "run_timeout X =
     runtime_float (re_python X) (re_getenv X)
       ((if execution_mode (re_getenv X) = ''equaxis'' then ''EQUAXIS'' else ''AGENT_RUNTIME'') @ ''_RUN_TIMEOUT_SECONDS'') 3600"

definition execute_external_run ::
  "'e runtime_env \<Rightarrow> interference \<Rightarrow> string \<Rightarrow> string \<Rightarrow> string \<Rightarrow> string option \<Rightarrow> string \<Rightarrow> run_step list \<Rightarrow> execution \<Rightarrow> 'e \<Rightarrow>
   (thread_end \<times> execution \<times> 'e) option" where
  "execute_external_run X others tenant run_id task project key steps st e =
     (case hand_over X others tenant run_id task project key steps st e of
        Inl ended \<Rightarrow> Some ended
      | Inr (C, external_id, external, st1, e1) \<Rightarrow>
          poll_external X others C tenant run_id project external_id (re_now X (en_tick st1) + run_timeout X) external st1 e1)"

text \<open>The thread from its start, when the mode is an external one.\<close>

definition execute_run_externally ::
  "'e runtime_env \<Rightarrow> interference \<Rightarrow> string \<Rightarrow> string \<Rightarrow> string \<Rightarrow> string option \<Rightarrow> string option \<Rightarrow> execution \<Rightarrow> 'e \<Rightarrow>
   (thread_end \<times> execution \<times> 'e) option" where
  "execute_run_externally X others tenant run_id task project key st e =
     (case store_call others (store_start tenant run_id) st of
        (False, st1) \<Rightarrow> Some (Returned, st1, e)
      | (True, st1) \<Rightarrow>
          (case store_call others (\<lambda>S. (store_get tenant run_id S, S)) st1 of
             (None, st2) \<Rightarrow> Some (Returned, st2, e)
           | (Some run, st2) \<Rightarrow>
               execute_external_run X others tenant run_id task project (if or_empty key \<noteq> [] then or_empty key else run_id)
                 (sn_steps run) st2 e))"

text \<open>
  The thread. The result is the store it leaves and the runtime; \<open>None\<close> means that it does not end, and how it
  ended is left out.
\<close>

definition execute_run ::
  "'e runtime_env \<Rightarrow> interference \<Rightarrow> string \<Rightarrow> string \<Rightarrow> string \<Rightarrow> string option \<Rightarrow> string option \<Rightarrow> execution \<Rightarrow> 'e \<Rightarrow>
   (execution \<times> 'e) option" where
  "execute_run X others tenant run_id task project key st e =
     (case store_call others (store_start tenant run_id) st of
        (False, st1) \<Rightarrow> Some (st1, e)
      | (True, st1) \<Rightarrow>
          (case store_call others (\<lambda>S. (store_get tenant run_id S, S)) st1 of
             (None, st2) \<Rightarrow> Some (st2, e)
           | (Some run, st2) \<Rightarrow>
               if external_mode (re_getenv X) then
                 map_option snd (execute_external_run X others tenant run_id task project
                   (if or_empty key \<noteq> [] then or_empty key else run_id) (sn_steps run) st2 e)
               else map_option (\<lambda>st3. (st3, e)) (execute_steps (re_host X) others tenant run_id task (sn_steps run) st2)))"

lemma execute_run_external:
  "external_mode (re_getenv X) \<Longrightarrow> execute_run X others tenant run_id task project key st e =
     map_option snd (execute_run_externally X others tenant run_id task project key st e)"
  by (simp add: execute_run_def execute_run_externally_def split: prod.split bool.split option.split)

lemma execute_run_internal:
  "\<not> external_mode (re_getenv X) \<Longrightarrow> execute_run X others tenant run_id task project key st e =
     map_option (\<lambda>st'. (st', e)) (execute_run_in_process (re_host X) others tenant run_id task st)"
  by (simp add: execute_run_def execute_run_in_process_def split: prod.split bool.split option.split)

text \<open>\<open>cancel_run\<close> in these modes: the run is cancelled here first, then at the runtime if its id is known.\<close>

definition cancel_run_externally ::
  "'e runtime_env \<Rightarrow> string \<Rightarrow> string option \<Rightarrow> backend \<Rightarrow> 'e \<Rightarrow> reply \<times> backend \<times> 'e" where
  "cancel_run_externally X run_id tenant_id B e =
     (case require_tenant tenant_id of
        Inl refusal \<Rightarrow> (refusal, B, e)
      | Inr tenant \<Rightarrow>
          let runtime_run_id = or_empty (store_runtime_run_id tenant run_id (be_store B));
              project = store_project_id tenant run_id (be_store B) in
          (case store_cancel tenant run_id (be_store B) of
             (None, S) \<Rightarrow> ((404, detail ''run not found''), B\<lparr>be_store := S\<rparr>, e)
           | (Some run, S) \<Rightarrow>
               if runtime_run_id \<noteq> [] \<and> external_mode (re_getenv X) then
                 (case build_runtime_client (re_python X) (re_getenv X) of
                    Inr (Some C) \<Rightarrow>
                      (case runtime_cancel (re_exchange X) C tenant project runtime_run_id e of
                         (Raised, e1) \<Rightarrow> ((500, detail ''Internal Server Error''), B\<lparr>be_store := S\<rparr>, e1)
                       | (_, e1) \<Rightarrow> ((200, enc_run run), B\<lparr>be_store := S\<rparr>, e1))
                  | _ \<Rightarrow> ((200, enc_run run), B\<lparr>be_store := S\<rparr>, e))
               else ((200, enc_run run), B\<lparr>be_store := S\<rparr>, e)))"

subsection \<open>An environment without a runtime\<close>

definition mock_runtime :: "unit runtime_env" where
  "mock_runtime =
     \<lparr>re_host = mock_env, re_exchange = \<lparr>xc_do = (\<lambda>_ _ e. (Unavailable, e)), xc_parse = (\<lambda>_. None)\<rparr>, re_now = (\<lambda>_. 0)\<rparr>"

lemma mock_runtime_simps [simp]: "re_host mock_runtime = mock_env" "\<not> external_mode (xe_getenv mock_env)"
  by (simp_all add: mock_runtime_def mock_env_def external_mode_def execution_mode_def)

end
