(* ===== verification/Run_End_To_End.thy ===== *)
theory Run_End_To_End
  imports Backend_External Api_Schema
begin

text \<open>
  Operator and backend together: what a submission leads to when the backend executes it, as the status of
  the AgentRun shows it.
\<close>

lemma executor_backend_steps:
  assumes "executor_step\<^sup>*\<^sup>* (be_store B) S"
  shows "(backend_step E)\<^sup>*\<^sup>* B (B\<lparr>be_store := S\<rparr>)"
  using assms
proof (induction rule: rtranclp_induct)
  case (step S1 S2)
  have "backend_step E (B\<lparr>be_store := S1\<rparr>) (B\<lparr>be_store := S1, be_store := S2\<rparr>)"
    by (rule backend_step.execute) (simp add: step(2))
  with step(3) show ?case by (simp add: rtranclp.rtrancl_into_rtrancl)
qed simp

lemma created_record:
  assumes "file_request (store_request_of E s B) S = (Some (i, True), S')"
  shows "ms_runs S' i = Some (new_record i (rs_TenantID s) (rs_Task s)
     (if rs_ProjectID s = [] then None else Some (rs_ProjectID s)) (submission_specs s))"
  using assms by (auto simp: file_request_def store_request_of_def store_submit_def Let_def snapshot_def new_record_def
      split: if_splits)

lemma new_record_simps [simp]:
  "rr_id (new_record i tenant task project specs) = i" "rr_tenant_id (new_record i tenant task project specs) = tenant"
  "\<not> rr_cancelled (new_record i tenant task project specs)"
  "rr_steps (new_record i tenant task project specs) = map new_step specs"
  by (simp_all add: new_record_def)

lemma new_steps:
  "step_deps_of (map new_step specs) = spec_deps specs"
  "map sp_node_id (map new_step specs) = map sx_node_id specs"
  "s \<in> set (map new_step specs) \<Longrightarrow> sp_status s = ''queued''"
  by (auto simp: step_deps_of_def spec_deps_def new_step_def)

lemma submission_spec_names: "rs_Nodes s \<noteq> [] \<Longrightarrow> map sx_node_id (submission_specs s) = map rn_Name (rs_Nodes s)"
  by (simp add: submission_specs_def step_specs_of_def received_def body_of_def spec_of_node_def received_node_def)

lemma control_of_steps:
  "map cps_Name (cpr_Steps (control_of r)) = map sp_node_id (rr_steps r)"
  "cps_Status ` set (cpr_Steps (control_of r)) = sp_status ` set (rr_steps r)"
  by (auto simp: control_of_def projectRun_def backend_run_of_def snapshot_def backend_step_of_def image_image comp_def)

lemma succeeded_phase: "projectPhase ''succeeded'' = AgentRunSucceeded"
  by code_simp

text \<open>The execution of the run a submission started, by the thread of the backend, left alone.\<close>

definition executed :: "'e runtime_env \<Rightarrow> 'e \<Rightarrow> run_submission \<Rightarrow> control_plane_run \<Rightarrow> backend \<Rightarrow> execution option" where
  "executed X e s c B =
     map_option fst (execute_run X alone (rs_TenantID s) (cpr_ID c) (rs_Task s)
       (if rs_ProjectID s = [] then None else Some (rs_ProjectID s)) (Some (rs_IdempotencyKey s))
       \<lparr>en_store = be_store B, en_log = []\<rparr> e)"

lemma executed_in_process:
  assumes "\<not> external_mode (re_getenv X)"
  shows "executed X e s c B = execute_run_in_process (re_host X) alone (rs_TenantID s) (cpr_ID c) (rs_Task s)
     \<lparr>en_store = be_store B, en_log = []\<rparr>"
  by (simp add: executed_def execute_run_internal [OF assms] option.map_comp comp_def option.map_ident)

lemma executed_submission:
  assumes "env_law E parse" and "hg_baseURL g \<noteq> []" and "backend_ok E B" and "submit_fits E s B" and "rs_TenantID s \<noteq> []"
    and "httpSubmit (backend_net E (hg_baseURL g) parse ptime) g s B = (Inr c, B1)"
    and "be_threads B1 = be_threads B @ [(rs_TenantID s, cpr_ID c)]" and "rs_Nodes s \<noteq> []"
    and "xe_executor (re_host X) = Executor executor" and "\<And>n step finished. \<exists>answer. complete_step (re_host X) executor n (rs_Task s) step finished = Answer answer"
    and "\<And>n. int64_ok (xe_latency (re_host X) n)" and "\<not> external_mode (re_getenv X)"
  shows "\<exists>st' r. executed X e s c B1 = Some st' \<and> ms_runs (en_store st') (cpr_ID c) = Some r \<and>
     backend_ok E (B1\<lparr>be_store := en_store st'\<rparr>) \<and> rr_id r = cpr_ID c \<and> rr_tenant_id r = rs_TenantID s \<and>
     rr_status r = ''succeeded'' \<and> (\<forall>s \<in> set (rr_steps r). sp_status s = ''succeeded'') \<and>
     map sp_node_id (rr_steps r) = map rn_Name (rs_Nodes s)"
proof -
  have s: "submittable s"
    using refused_submission [OF assms(1,2,5,4)] assms(6) by (cases "submittable s") auto
  from filed_submission [OF assms(1,2,5,4,3) s, of ptime] assms(6) obtain created where
    filed: "file_request (store_request_of E s B) (be_store B) = (Some (cpr_ID c, created), be_store B1)" and
    step: "backend_step E B B1" and created: "created \<or> B1 = B"
    by (auto split: if_splits)
  have created by (rule ccontr) (use created assms(7) in simp)
  with filed have r: "ms_runs (be_store B1) (cpr_ID c) = Some (new_record (cpr_ID c) (rs_TenantID s) (rs_Task s)
      (if rs_ProjectID s = [] then None else Some (rs_ProjectID s)) (submission_specs s))" (is "_ = Some ?r")
    using created_record by simp
  obtain order where order: "topological_order (step_deps_of (rr_steps ?r)) = Some (Some order)"
    using s by (auto simp: submittable_def new_steps(1) split: option.splits)
  have "\<exists>st' r'. executed X e s c B1 = Some st' \<and> ms_runs (en_store st') (cpr_ID c) = Some r' \<and> same_run ?r r' \<and>
      rr_status r' = ''succeeded'' \<and> (\<forall>s \<in> set (rr_steps r'). sp_status s = ''succeeded'')"
    unfolding executed_in_process [OF assms(12)]
    by (rule execution_alone [OF _ _ _ _ order assms(9,10)]) (use r new_steps(3) in simp_all)
  then obtain st' r' where run: "executed X e s c B1 = Some st'" "ms_runs (en_store st') (cpr_ID c) = Some r'"
    "same_run ?r r'" "rr_status r' = ''succeeded''" "\<forall>s \<in> set (rr_steps r'). sp_status s = ''succeeded''" by blast
  have ok1: "backend_ok E B1" using backend_step_keeps [OF step assms(1,3)] by simp
  then have "store_ok (be_store B1)" by (simp add: backend_ok_parts)
  with execution_steps [OF executor_step_calls [OF assms(11)] alone_orderly _ run(1) [unfolded executed_in_process [OF assms(12)]]]
  have "executor_step\<^sup>*\<^sup>* (be_store B1) (en_store st')" by (simp add: passes_def)
  from backend_steps_keep [OF executor_backend_steps [OF this] assms(1) ok1]
  have "backend_ok E (B1\<lparr>be_store := en_store st'\<rparr>)" by simp
  moreover have "map sp_node_id (rr_steps r') = map rn_Name (rs_Nodes s)"
    using run(3) new_steps(2) [of "submission_specs s"] submission_spec_names [OF assms(8)] by (simp add: same_run_def)
  ultimately show ?thesis using run by (auto simp: same_run_def)
qed

text \<open>What the poll after it shows.\<close>

lemma executed_shown:
  assumes "env_law E parse" and "hg_baseURL g \<noteq> []" and "rs_TenantID s \<noteq> []" and "rs_Nodes s \<noteq> []"
    and "backend_ok E B" and "ms_runs (be_store B) (cpr_ID c) = Some r" and "rr_id r = cpr_ID c"
    and "rr_tenant_id r = rs_TenantID s" and "rr_status r = ''succeeded''"
    and "\<forall>s \<in> set (rr_steps r). sp_status s = ''succeeded''" and "map sp_node_id (rr_steps r) = map rn_Name (rs_Nodes s)"
    and "answer_fits E (enc_run (snapshot r))"
  shows "\<exists>c'. httpGet (backend_net E (hg_baseURL g) parse ptime) g (rs_TenantID s) (cpr_ID c) B = (Inr c', B) \<and>
     cpr_Status c' = ''succeeded'' \<and>
     (\<forall>run. let u = run_Status (polled_run P T run c') in
        st_Phase u = AgentRunSucceeded \<and> st_ResultRef u = run_ref (cpr_ID c) \<and>
        map (\<lambda>n. (ns_Name n, ns_Phase n)) (the (st_NodeStates u)) =
          map (\<lambda>n. (rn_Name n, AgentRunSucceeded)) (rs_Nodes s))"
proof -
  have get: "httpGet (backend_net E (hg_baseURL g) parse ptime) g (rs_TenantID s) (cpr_ID c) B = (Inr (control_of r), B)"
    using httpGet_backend [OF assms(1,5,2,3), of "cpr_ID c" r ptime] assms(6,8,12) by simp
  have id: "cpr_ID c \<noteq> []" using stored_id [OF assms(1,5), of "cpr_ID c" r] assms(6) by simp
  have "\<forall>s \<in> set (cpr_Steps (control_of r)). cps_Status s = ''succeeded''"
    using control_of_steps(2) [of r] assms(10) by (auto dest: equalityD1 [THEN subsetD])
  then have nodes: "map (\<lambda>n. (ns_Name n, ns_Phase n)) (map (node_state_of i) (cpr_Steps (control_of r))) =
      map (\<lambda>name. (name, AgentRunSucceeded)) (map cps_Name (cpr_Steps (control_of r)))" for i
    by (simp add: node_state_of_def Let_def succeeded_phase)
  have "st_Phase (run_Status (polled_run P T run (control_of r))) = AgentRunSucceeded"
    "st_ResultRef (run_Status (polled_run P T run (control_of r))) = run_ref (cpr_ID c)"
    "st_NodeStates (run_Status (polled_run P T run (control_of r))) =
       Some (map (node_state_of (cpr_ID c)) (cpr_Steps (control_of r)))" for run
    using assms(7,9) id
    by (simp_all add: polled_run_eq markControlPlaneReady_def apply_status_refs projected_id_def succeeded_phase)
  with nodes control_of_steps(1) [of r] assms(9,11) get show ?thesis
    by (intro exI [of _ "control_of r"]) (simp add: Let_def comp_def)
qed

text \<open>
  From the submission to the final status: a submission that starts a run at the backend, whose language
  model answers and which nobody disturbs, is executed to the end, and the next poll of the operator shows
  the AgentRun as succeeded, with a result, and every node of the submission, in order, as succeeded.
\<close>

lemma submitted_run_shown_succeeded:
  assumes "env_law E parse" and "hg_baseURL g \<noteq> []" and "backend_ok E B" and "submit_fits E s B" and "rs_TenantID s \<noteq> []"
    and "httpSubmit (backend_net E (hg_baseURL g) parse ptime) g s B = (Inr c, B1)"
    and "be_threads B1 = be_threads B @ [(rs_TenantID s, cpr_ID c)]" and "rs_Nodes s \<noteq> []"
    and "xe_executor (re_host X) = Executor executor" and "\<And>n step finished. \<exists>answer. complete_step (re_host X) executor n (rs_Task s) step finished = Answer answer"
    and "\<And>n. int64_ok (xe_latency (re_host X) n)"
    and "\<And>st' r. executed X e s c B1 = Some st' \<Longrightarrow> ms_runs (en_store st') (cpr_ID c) = Some r \<Longrightarrow>
      answer_fits E (enc_run (snapshot r))" and "\<not> external_mode (re_getenv X)"
  shows "\<exists>st' c'. executed X e s c B1 = Some st' \<and>
     httpGet (backend_net E (hg_baseURL g) parse ptime) g (rs_TenantID s) (cpr_ID c) (B1\<lparr>be_store := en_store st'\<rparr>) =
       (Inr c', B1\<lparr>be_store := en_store st'\<rparr>) \<and>
     (let u = run_Status (polled_run P T run c') in
        st_Phase u = AgentRunSucceeded \<and> st_ResultRef u = run_ref (cpr_ID c) \<and>
        map (\<lambda>n. (ns_Name n, ns_Phase n)) (the (st_NodeStates u)) =
          map (\<lambda>n. (rn_Name n, AgentRunSucceeded)) (rs_Nodes s))"
proof -
  from executed_submission [OF assms(1-11,13)] obtain st' r where
    run: "executed X e s c B1 = Some st'" "ms_runs (en_store st') (cpr_ID c) = Some r"
      "backend_ok E (B1\<lparr>be_store := en_store st'\<rparr>)" "rr_id r = cpr_ID c" "rr_tenant_id r = rs_TenantID s"
      "rr_status r = ''succeeded''" "\<forall>s \<in> set (rr_steps r). sp_status s = ''succeeded''"
      "map sp_node_id (rr_steps r) = map rn_Name (rs_Nodes s)" by blast
  from executed_shown [OF assms(1,2,5,8) run(3) _ run(4-8), of ptime P T] run(2) assms(12) [OF run(1,2)] obtain c' where
    "httpGet (backend_net E (hg_baseURL g) parse ptime) g (rs_TenantID s) (cpr_ID c) (B1\<lparr>be_store := en_store st'\<rparr>) =
       (Inr c', B1\<lparr>be_store := en_store st'\<rparr>)" and
    "\<And>run. let u = run_Status (polled_run P T run c') in
        st_Phase u = AgentRunSucceeded \<and> st_ResultRef u = run_ref (cpr_ID c) \<and>
        map (\<lambda>n. (ns_Name n, ns_Phase n)) (the (st_NodeStates u)) =
          map (\<lambda>n. (rn_Name n, AgentRunSucceeded)) (rs_Nodes s)"
    by auto
  with run(1) show ?thesis by blast
qed

lemma sample_executed:
  "case executed mock_runtime () two_step_submission (control_of filed_record) filed_backend of
     None \<Rightarrow> False
   | Some st' \<Rightarrow>
       (case ms_runs (en_store st') ''u'' of
          None \<Rightarrow> False | Some r \<Rightarrow> length (ev_render sample_env (enc_run (snapshot r))) \<le> 2000)"
proof -
  have "case execute_run_in_process mock_env alone ''t1'' ''u'' (rs_Task two_step_submission) \<lparr>en_store = be_store filed_backend, en_log = []\<rparr> of
     None \<Rightarrow> False
   | Some st' \<Rightarrow>
       (case ms_runs (en_store st') ''u'' of
          None \<Rightarrow> False | Some r \<Rightarrow> length (ev_render sample_env (enc_run (snapshot r))) \<le> 2000)"
    by code_simp
  then show ?thesis
    by (simp add: executed_in_process) (simp add: two_step_submission_def filed_record_def new_record_def)
qed

theorem submitted_run_shown_succeeded_witness:
  "\<exists>st' c'. executed mock_runtime () two_step_submission (control_of filed_record) filed_backend = Some st' \<and>
     httpGet sample_backend_net local_gateway ''t1'' ''u'' (filed_backend\<lparr>be_store := en_store st'\<rparr>) =
       (Inr c', filed_backend\<lparr>be_store := en_store st'\<rparr>) \<and>
     (let u = run_Status (polled_run sample_platform sample_clock sample_run c') in
        st_Phase u = AgentRunSucceeded \<and>
        map (\<lambda>n. (ns_Name n, ns_Phase n)) (the (st_NodeStates u)) =
          [(''draft'', AgentRunSucceeded), (''review'', AgentRunSucceeded)])"
proof -
  have parts: "rs_TenantID two_step_submission = ''t1''" "rr_id filed_record = ''u''"
      "map (\<lambda>n. (rn_Name n, AgentRunSucceeded)) (rs_Nodes two_step_submission) =
         [(''draft'', AgentRunSucceeded), (''review'', AgentRunSucceeded)]"
      "rs_TenantID two_step_submission \<noteq> []" "rs_Nodes two_step_submission \<noteq> []"
    by (simp_all add: two_step_submission_def filed_record_def new_record_def)
  have started: "be_threads filed_backend = be_threads empty_backend @
      [(rs_TenantID two_step_submission, cpr_ID (control_of filed_record))]"
    by (simp add: parts filed_backend_def empty_backend_def)
  have model: "xe_executor (re_host mock_runtime) = Executor None" "\<not> external_mode (re_getenv mock_runtime)" "int64_ok (xe_latency (re_host mock_runtime) n)" for n
    by (simp_all add: mock_env_def xe_executor_def build_executor_def execution_mode_def external_mode_def int64_ok_def int64_min_def int64_max_def)
  have answers: "\<exists>answer. complete_step (re_host mock_runtime) None n task step finished = Answer answer" for n task step finished
    by (simp add: complete_step_def)
  have fits: "answer_fits sample_env (enc_run (snapshot r))"
    if "executed mock_runtime () two_step_submission (control_of filed_record) filed_backend = Some st'"
      "ms_runs (en_store st') (cpr_ID (control_of filed_record)) = Some r" for st' r
    using sample_executed that by (intro answer_fits_short) (simp add: parts)
  have "\<exists>st' c'. executed mock_runtime () two_step_submission (control_of filed_record) filed_backend = Some st' \<and>
      httpGet sample_backend_net local_gateway (rs_TenantID two_step_submission) (cpr_ID (control_of filed_record))
        (filed_backend\<lparr>be_store := en_store st'\<rparr>) = (Inr c', filed_backend\<lparr>be_store := en_store st'\<rparr>) \<and>
      (let u = run_Status (polled_run sample_platform sample_clock sample_run c') in
         st_Phase u = AgentRunSucceeded \<and> st_ResultRef u = run_ref (cpr_ID (control_of filed_record)) \<and>
         map (\<lambda>n. (ns_Name n, ns_Phase n)) (the (st_NodeStates u)) =
           map (\<lambda>n. (rn_Name n, AgentRunSucceeded)) (rs_Nodes two_step_submission))"
    by (rule submitted_run_shown_succeeded [OF sample_env_law local_gateway_url empty_backend_ok sample_fits parts(4)
          sample_filed started parts(5) model(1) answers model(3) _ model(2)]) (rule fits)
  then show ?thesis by (auto simp: Let_def parts)
qed

end
