(* ===== verification/Closed_Loop.thy ===== *)
theory Closed_Loop
  imports Run_End_To_End Run_Convergence
begin

text \<open>
  Operator, adapter, backend and thread as one system: a new AgentRun is adopted, submitted, executed and polled,
  and its stored status ends in success. The world holds the stored object and the backend; the API server
  leaves the backend alone and the gateway leaves the object alone.
\<close>

subsection \<open>The cluster and the gateway\<close>

text \<open>
  The cluster hosts the run \<open>stored\<close>: it can be read and written, its references are valid, and its submission is
  \<open>s\<close>, as its identity and spec stay.
\<close>

definition hosts ::
  "platform \<Rightarrow> 'w kube \<Rightarrow> object_key \<Rightarrow> ('w \<Rightarrow> agent_run) \<Rightarrow> ('w \<Rightarrow> backend) \<Rightarrow> string \<Rightarrow> agent \<Rightarrow> run_submission \<Rightarrow> bool" where
  "hosts P K request stored kept tenant agent s \<longleftrightarrow>
     (\<forall>w. kGetAgentRun K request w = (Inr (stored w), w)) \<and>
     (\<forall>w. validateReferences P K (stored w) w = (Inr (tenant, agent), w)) \<and>
     (\<forall>w. submission_of (stored w) tenant agent = s) \<and>
     stores_object K stored kept \<and> stores_status K stored kept"

text \<open>The gateway is the HTTP adapter \<open>g\<close> in front of the backend at the network \<open>N\<close>.\<close>

definition reaches :: "backend net \<Rightarrow> http_run_gateway \<Rightarrow> 'w gateway \<Rightarrow> ('w \<Rightarrow> agent_run) \<Rightarrow> ('w \<Rightarrow> backend) \<Rightarrow> bool" where
  "reaches N g G stored kept \<longleftrightarrow>
     (\<forall>s w r B. httpSubmit N g s (kept w) = (r, B) \<longrightarrow>
        (\<exists>w'. gwSubmit G s w = (r, w') \<and> kept w' = B \<and> stored w' = stored w)) \<and>
     (\<forall>t i w r B. httpGet N g t i (kept w) = (r, B) \<longrightarrow>
        (\<exists>w'. gwGet G t i w = (r, w') \<and> kept w' = B \<and> stored w' = stored w))"

text \<open>\<open>work i\<close> is what happens when the thread of the run \<open>i\<close> has its turn, undisturbed.\<close>

definition lets_work ::
  "'e runtime_env \<Rightarrow> 'e \<Rightarrow> run_submission \<Rightarrow> (string \<Rightarrow> 'w \<Rightarrow> 'w) \<Rightarrow> ('w \<Rightarrow> agent_run) \<Rightarrow> ('w \<Rightarrow> backend) \<Rightarrow> bool" where
  "lets_work X e s work stored kept \<longleftrightarrow>
     (\<forall>w c st'. executed X e s c (kept w) = Some st' \<longrightarrow>
        stored (work (cpr_ID c) w) = stored w \<and> kept (work (cpr_ID c) w) = (kept w)\<lparr>be_store := en_store st'\<rparr>)"

subsection \<open>Three passes\<close>

lemma adopting:
  assumes "hosts P K request stored kept tenant agent s" and "finalizer_law P" and "under_way (stored w)"
    and "\<not> contains_finalizer P (om_Finalizers (run_Meta (stored w))) runFinalizer"
  shows "\<exists>w'. snd (Reconcile P K G T request w) = w' \<and> kept w' = kept w \<and> under_way (stored w') \<and>
     run_Status (stored w') = run_Status (stored w) \<and>
     contains_finalizer P (om_Finalizers (run_Meta (stored w'))) runFinalizer"
proof -
  let ?u = "with_finalizer P (stored w)"
  from assms(1) have "stores_object K stored kept" by (simp add: hosts_def)
  then obtain w1 where w1: "kUpdateAgentRun K ?u w = (Inr (stored w1), w1)" "kept w1 = kept w"
    "om_Finalizers (run_Meta (stored w1)) = om_Finalizers (run_Meta ?u)"
    "om_DeletionTimestamp (run_Meta (stored w1)) = om_DeletionTimestamp (run_Meta (stored w))"
    "run_Spec (stored w1) = run_Spec (stored w)" "run_Status (stored w1) = run_Status (stored w)"
    unfolding stores_object_def by (metis with_finalizer_spec)
  have "snd (Reconcile P K G T request w) = w1"
    using assms(1,3,4) by (simp add: Reconcile_def hosts_def w1(1) under_way_def)
  moreover have "contains_finalizer P (om_Finalizers (run_Meta (stored w1))) runFinalizer"
    using assms(2) by (simp add: w1(3) with_finalizer_def finalizer_law_def)
  ultimately show ?thesis using w1 assms(3) by (simp add: under_way_def)
qed

lemma hosted_pass:
  assumes "hosts P K request stored kept tenant agent s" and "under_way (stored w)"
    and "contains_finalizer P (om_Finalizers (run_Meta (stored w))) runFinalizer"
  shows "Reconcile P K G T request w = dispatch P K G T (stored w) tenant agent w"
  using assms by (simp add: Reconcile_def hosts_def under_way_def)

lemma submitting:
  assumes "hosts P K request stored kept tenant agent s" and "reaches N g G stored kept" and "under_way (stored w)"
    and "contains_finalizer P (om_Finalizers (run_Meta (stored w))) runFinalizer"
    and "st_BackendRunID (run_Status (stored w)) = []"
    and "httpSubmit N g s (kept w) = (Inr c, B)" and "cpr_ID c \<noteq> []"
  shows "\<exists>w'. snd (Reconcile P K G T request w) = w' \<and> kept w' = B \<and> under_way (stored w') \<and>
     st_BackendRunID (run_Status (stored w')) = cpr_ID c \<and> st_Phase (run_Status (stored w')) = projectPhase (cpr_Status c) \<and>
     contains_finalizer P (om_Finalizers (run_Meta (stored w'))) runFinalizer"
proof -
  from assms(1) have status: "stores_status K stored kept" and s: "submission_of (stored w) tenant agent = s"
    by (simp_all add: hosts_def)
  from assms(2,6) obtain w1 where w1: "gwSubmit G s w = (Inr c, w1)" "kept w1 = B" "stored w1 = stored w"
    unfolding reaches_def by blast
  let ?u = "accepted_run P T (stored w) c"
  obtain w' where w': "kUpdateAgentRunStatus K ?u w1 = (Inr (stored w'), w')" "kept w' = kept w1"
    "run_Spec (stored w') = run_Spec (stored w1)"
    "st_Phase (run_Status (stored w')) = st_Phase (run_Status ?u)"
    "st_BackendRunID (run_Status (stored w')) = st_BackendRunID (run_Status ?u)"
    "om_Finalizers (run_Meta (stored w')) = om_Finalizers (run_Meta (stored w1))"
    "om_DeletionTimestamp (run_Meta (stored w')) = om_DeletionTimestamp (run_Meta (stored w1))"
    by (rule status_write [OF status])
  have "snd (Reconcile P K G T request w) = w'"
    using assms(3,5) by (simp add: hosted_pass [OF assms(1,3,4)] dispatch_def under_way_def reconcileSubmit_def s w1(1)
        update_status_then_def w'(1))
  moreover have "st_BackendRunID (run_Status ?u) = cpr_ID c" using assms(7) by (simp add: accepted_backend_id projected_id_def)
  moreover have "st_Phase (run_Status ?u) = projectPhase (cpr_Status c)" by (simp add: accepted_run_def Let_def)
  ultimately show ?thesis using w' w1 assms(3,4,7) by (simp add: under_way_def)
qed

lemma polling:
  assumes "hosts P K request stored kept tenant agent s" and "reaches N g G stored kept" and "under_way (stored w)"
    and "contains_finalizer P (om_Finalizers (run_Meta (stored w))) runFinalizer"
    and "st_BackendRunID (run_Status (stored w)) = i" and "i \<noteq> []" and "\<not> isTerminal (st_Phase (run_Status (stored w)))"
    and "httpGet N g tenant i (kept w) = (Inr c, B)"
  shows "\<exists>w'. snd (Reconcile P K G T request w) = w' \<and> kept w' = B \<and>
     st_Phase (run_Status (stored w')) = projectPhase (cpr_Status c)"
proof -
  from assms(1) have status: "stores_status K stored kept" by (simp add: hosts_def)
  from assms(2,8) obtain w1 where w1: "gwGet G tenant i w = (Inr c, w1)" "kept w1 = B" "stored w1 = stored w"
    unfolding reaches_def by blast
  let ?u = "polled_run P T (stored w) c"
  obtain w' where w': "kUpdateAgentRunStatus K ?u w1 = (Inr (stored w'), w')" "kept w' = kept w1"
    "run_Spec (stored w') = run_Spec (stored w1)" "st_Phase (run_Status (stored w')) = st_Phase (run_Status ?u)"
    by (rule status_write [OF status])
  have pass: "Reconcile P K G T request w = reconcilePoll P K G T (stored w) tenant w"
    using assms(3,5-7) by (simp add: hosted_pass [OF assms(1,3,4)] dispatch_def under_way_def)
  have ttl: "ars_TTLSecondsAfterFinished (run_Spec (stored w)) = 0" using assms(3) by (simp add: under_way_def)
  show ?thesis
  proof (cases "run_Status (stored w) = run_Status ?u")
    case True
    then have "st_Phase (run_Status (stored w)) = projectPhase (cpr_Status c)" by (metis polled_fields(1))
    moreover have "snd (Reconcile P K G T request w) = w1"
      using assms(7)
      by (simp add: pass reconcilePoll_def assms(5) w1(1) True [symmetric] finish_or_poll_def)
    ultimately show ?thesis using w1 by simp
  next
    case False
    then have "snd (Reconcile P K G T request w) = w'"
      by (simp add: pass reconcilePoll_def assms(5) w1 Let_def w'(1,3) finish_or_poll_def expiry_without_ttl ttl)
    with w' w1 show ?thesis by simp
  qed
qed

lemma submission_nonempty: "rs_Nodes (submission_of run tenant agent) \<noteq> []" "rs_TenantID (submission_of run tenant agent) = tenant"
  by (simp_all add: submission_of_def Let_def)

lemma new_record_status: "rr_status (new_record i tenant task project specs) = ''queued''"
  by (simp add: new_record_def)

text \<open>A submission under a new key starts a run.\<close>

lemma new_submission:
  assumes "env_law E parse" and "hg_baseURL g \<noteq> []" and "rs_TenantID s \<noteq> []" and "submit_fits E s B" and "backend_ok E B"
    and "submittable s" and "ms_idempotency (be_store B) (rs_TenantID s, rs_IdempotencyKey s) = None"
  shows "\<exists>c B1. httpSubmit (backend_net E (hg_baseURL g) parse ptime) g s B = (Inr c, B1) \<and>
     be_threads B1 = be_threads B @ [(rs_TenantID s, cpr_ID c)] \<and> cpr_ID c \<noteq> [] \<and> cpr_Status c = ''queued''"
proof -
  from filed_submission [OF assms(1-6), of ptime] obtain r created B1 where
    filed: "httpSubmit (backend_net E (hg_baseURL g) parse ptime) g s B = (Inr (control_of r), B1)"
      "file_request (store_request_of E s B) (be_store B) = (Some (rr_id r, created), be_store B1)"
      "ms_runs (be_store B1) (rr_id r) = Some r" "backend_step E B B1"
      "if created then be_threads B1 = be_threads B @ [(rs_TenantID s, rr_id r)] else B1 = B" by blast
  have created using filed(2) assms(7)
    by (auto simp: file_request_def store_request_of_def store_submit_def Let_def or_empty_def)
  then have "file_request (store_request_of E s B) (be_store B) = (Some (rr_id r, True), be_store B1)" using filed(2) by simp
  from created_record [OF this] filed(3) have "rr_status r = ''queued''" by (metis new_record_status option.inject)
  moreover have "backend_ok E B1" using backend_step_keeps [OF filed(4) assms(1,5)] by simp
  then have "rr_id r \<noteq> []" using stored_id [OF assms(1), of B1 "rr_id r" r] filed(3) by simp
  ultimately show ?thesis using filed(1,5) \<open>created\<close> by auto
qed

lemma queued_phase: "\<not> isTerminal (projectPhase ''queued'')" "projectPhase ''queued'' \<noteq> AgentRunSucceeded"
  by code_simp+

subsection \<open>From a new AgentRun to success\<close>

text \<open>
  C5. A new AgentRun succeeds. In a cluster that hosts it with valid references, with a submission the backend
  accepts under a key it has not seen, three passes of the operator and one turn of the thread the backend
  started, in mode \<open>mock\<close> or \<open>live\<close> with a model that answers, bring the stored status from nothing to succeeded.
\<close>

theorem new_run_succeeds:
  assumes "hosts P K request stored kept tenant agent s"
    and "reaches (backend_net E (hg_baseURL g) parse ptime) g G stored kept" and "lets_work X e s work stored kept"
    and "finalizer_law P" and "env_law E parse" and "hg_baseURL g \<noteq> []" and "tenant \<noteq> []"
    and "under_way (stored w)" and "st_BackendRunID (run_Status (stored w)) = []"
    and "\<not> contains_finalizer P (om_Finalizers (run_Meta (stored w))) runFinalizer"
    and "backend_ok E (kept w)" and "submittable s" and "submit_fits E s (kept w)"
    and "ms_idempotency (be_store (kept w)) (tenant, rs_IdempotencyKey s) = None"
    and "xe_executor (re_host X) = Executor executor"
    and "\<And>n step finished. \<exists>answer. complete_step (re_host X) executor n (rs_Task s) step finished = Answer answer"
    and "\<And>n. int64_ok (xe_latency (re_host X) n)"
    and "\<And>c B1 st' r. httpSubmit (backend_net E (hg_baseURL g) parse ptime) g s (kept w) = (Inr c, B1) \<Longrightarrow>
      executed X e s c B1 = Some st' \<Longrightarrow> ms_runs (en_store st') (cpr_ID c) = Some r \<Longrightarrow> answer_fits E (enc_run (snapshot r))"
    and "\<not> external_mode (re_getenv X)"
  shows "let w1 = snd (Reconcile P K G T1 request w);
       w2 = snd (Reconcile P K G T2 request w1);
       w3 = work (st_BackendRunID (run_Status (stored w2))) w2;
       w4 = snd (Reconcile P K G T3 request w3)
     in st_BackendRunID (run_Status (stored w2)) \<noteq> [] \<and> \<not> isTerminal (st_Phase (run_Status (stored w2))) \<and>
        st_Phase (run_Status (stored w4)) = AgentRunSucceeded"
proof -
  have s: "rs_TenantID s = tenant" "rs_Nodes s \<noteq> []"
    using assms(1) submission_nonempty [of "stored w" tenant agent] by (auto simp: hosts_def)
  let ?N = "backend_net E (hg_baseURL g) parse ptime"
  have ne: "rs_TenantID s \<noteq> []" and key: "ms_idempotency (be_store (kept w)) (rs_TenantID s, rs_IdempotencyKey s) = None"
    using assms(7,14) s(1) by simp_all
  obtain c B1 where sub: "httpSubmit ?N g s (kept w) = (Inr c, B1)"
    "be_threads B1 = be_threads (kept w) @ [(rs_TenantID s, cpr_ID c)]" "cpr_ID c \<noteq> []" "cpr_Status c = ''queued''"
    using new_submission [OF assms(5,6) ne assms(13,11,12) key, of ptime] by blast
  obtain w1 where w1: "snd (Reconcile P K G T1 request w) = w1" "kept w1 = kept w" "under_way (stored w1)"
    "run_Status (stored w1) = run_Status (stored w)" "contains_finalizer P (om_Finalizers (run_Meta (stored w1))) runFinalizer"
    using adopting [OF assms(1,4,8,10)] by blast
  have new: "st_BackendRunID (run_Status (stored w1)) = []" "httpSubmit ?N g s (kept w1) = (Inr c, B1)"
    using assms(9) w1(2,4) sub(1) by simp_all
  obtain w2 where w2: "snd (Reconcile P K G T2 request w1) = w2" "kept w2 = B1" "under_way (stored w2)"
    "st_BackendRunID (run_Status (stored w2)) = cpr_ID c" "st_Phase (run_Status (stored w2)) = projectPhase (cpr_Status c)"
    "contains_finalizer P (om_Finalizers (run_Meta (stored w2))) runFinalizer"
    using submitting [OF assms(1,2) w1(3,5) new sub(3)] by blast
  obtain st' r where run: "executed X e s c B1 = Some st'" "ms_runs (en_store st') (cpr_ID c) = Some r"
    "backend_ok E (B1\<lparr>be_store := en_store st'\<rparr>)" "rr_id r = cpr_ID c" "rr_tenant_id r = rs_TenantID s"
    "rr_status r = ''succeeded''" "\<forall>s \<in> set (rr_steps r). sp_status s = ''succeeded''"
    "map sp_node_id (rr_steps r) = map rn_Name (rs_Nodes s)"
    using executed_submission [OF assms(5,6,11,13) ne sub(1,2) s(2) assms(15-17,19)] by blast
  define w3 where "w3 = work (cpr_ID c) w2"
  have w3: "stored w3 = stored w2" "kept w3 = B1\<lparr>be_store := en_store st'\<rparr>"
    using assms(3) run(1) unfolding lets_work_def w3_def by (simp_all add: w2(2))
  have store: "ms_runs (be_store (kept w3)) (cpr_ID c) = Some r" using run(2) by (simp add: w3(2))
  from executed_shown [OF assms(5,6) ne s(2) run(3) _ run(4-8) assms(18) [OF sub(1) run(1,2)], of ptime P T3] run(2)
  obtain c' where poll: "httpGet ?N g tenant (cpr_ID c) (kept w3) = (Inr c', kept w3)" "cpr_Status c' = ''succeeded''"
    by (auto simp: s(1) w3(2))
  have going: "\<not> isTerminal (st_Phase (run_Status (stored w2)))" by (simp add: w2(5) sub(4) queued_phase)
  obtain w4 where "snd (Reconcile P K G T3 request w3) = w4" "st_Phase (run_Status (stored w4)) = projectPhase (cpr_Status c')"
    using polling [OF assms(1,2) _ _ _ sub(3) _ poll(1)] w2 going by (metis w3(1))
  then show ?thesis
    using going sub(3) by (simp add: Let_def w1(1) w2(1,4) w3_def poll(2) succeeded_phase)
qed

subsection \<open>A cluster with a backend\<close>

text \<open>The world is the stored status and finalizers of a run without a DAG, and the backend.\<close>

type_synonym site = "(agent_run_status \<times> string list) \<times> backend"

definition plain_run :: agent_run where
  "plain_run = sample_run\<lparr>run_Spec := (run_Spec sample_run)\<lparr>ars_DAG := None, ars_Input := \<lparr>in_Task = ''report''\<rparr>,
     ars_IdempotencyKey := ''k1''\<rparr>\<rparr>"

definition site_run :: "site \<Rightarrow> agent_run" where
  "site_run w = plain_run\<lparr>run_Meta := sample_meta\<lparr>om_Finalizers := snd (fst w)\<rparr>, run_Status := fst (fst w)\<rparr>"

definition site_kube :: "site kube" where
  "site_kube =
     empty_kube\<lparr>kGetNamespace := (\<lambda>_ w. (Inr sample_namespace, w)),
       kGetAgentRun := (\<lambda>_ w. (Inr (site_run w), w)), kGetAgent := (\<lambda>_ w. (Inr sample_agent, w)),
       kUpdateAgentRun := (\<lambda>r w. let w' = ((fst (fst w), om_Finalizers (run_Meta r)), snd w)
         in (Inr (site_run w'), w')),
       kUpdateAgentRunStatus := (\<lambda>r w. let w' = ((run_Status r, snd (fst w)), snd w)
         in (Inr (site_run w'), w'))\<rparr>"

definition site_gateway :: "site gateway" where
  "site_gateway =
     \<lparr>gwSubmit = (\<lambda>s w. case httpSubmit sample_backend_net local_gateway s (snd w) of (r, B) \<Rightarrow> (r, (fst w, B))),
      gwGet = (\<lambda>t i w. case httpGet sample_backend_net local_gateway t i (snd w) of (r, B) \<Rightarrow> (r, (fst w, B))),
      gwCancel = (\<lambda>t i w. case httpCancel sample_backend_net local_gateway t i (snd w) of (r, B) \<Rightarrow> (r, (fst w, B)))\<rparr>"

definition site_submission :: run_submission where
  "site_submission =
     \<lparr>rs_TenantID = sample_tenant, rs_ProjectID = ''bbbbbbbb-bbbb-bbbb-bbbb-bbbbbbbbbbbb'', rs_Task = ''report'',
      rs_Nodes = [\<lparr>rn_Name = ''main'', rn_Prompt = ''report'', rn_Role = ''analyst'', rn_Model = ''mock'', rn_MaxTokens = 4096,
        rn_DependsOn = [], rn_MaxRetries = None\<rparr>],
      rs_IdempotencyKey = ''k1''\<rparr>"

definition site_work :: "string \<Rightarrow> site \<Rightarrow> site" where
  "site_work i w =
     (case execute_run_in_process mock_env alone sample_tenant i (rs_Task site_submission) \<lparr>en_store = be_store (snd w), en_log = []\<rparr> of
        None \<Rightarrow> w | Some st' \<Rightarrow> (fst w, (snd w)\<lparr>be_store := en_store st'\<rparr>))"

lemma site_run_simps [simp]:
  "run_Spec (site_run w) = run_Spec plain_run" "run_Status (site_run w) = fst (fst w)"
  "om_Finalizers (run_Meta (site_run w)) = snd (fst w)" "om_DeletionTimestamp (run_Meta (site_run w)) = None"
  "om_Labels (run_Meta (site_run w)) = [TenantIDLabel \<mapsto> sample_tenant]" "om_UID (run_Meta (site_run w)) = om_UID sample_meta"
  by (simp_all add: site_run_def)

lemma site_kube_simps [simp]:
  "kGetNamespace site_kube n w = (Inr sample_namespace, w)"
  "kGetAgentRun site_kube k w = (Inr (site_run w), w)" "kGetAgent site_kube k w = (Inr sample_agent, w)"
  by (simp_all add: site_kube_def)

lemma plain_run_simps [simp]:
  "ars_DAG (run_Spec plain_run) = None" "\<not> ars_Cancel (run_Spec plain_run)"
  "ars_TTLSecondsAfterFinished (run_Spec plain_run) = 0" "ars_AgentRef (run_Spec plain_run) = ars_AgentRef (run_Spec sample_run)"
  by (simp_all add: plain_run_def)

lemma site_refs: "validateReferences sample_platform site_kube (site_run w) w = (Inr (sample_tenant, sample_agent), w)"
proof -
  have "tenantIDFor sample_platform site_kube (run_Meta (site_run w)) w = (Inr sample_tenant, w)"
    by (simp add: tenantIDFor_def Let_def)
  moreover have "validateDAG r1 r2 None = None" for r1 r2
    by (simp add: validateDAG_def)
  ultimately show ?thesis by (simp add: validateReferences_def) (simp add: sample_agent_def)
qed

lemma site_hosts: "hosts sample_platform site_kube sample_key site_run snd sample_tenant sample_agent site_submission"
proof -
  have "submission_of (site_run w) sample_tenant sample_agent = site_submission" for w
    by (simp add: site_submission_def submission_of_def main_node_def Let_def plain_run_def) (simp add: sample_agent_def)
  moreover have "stores_object site_kube site_run snd"
    by (simp add: stores_object_def site_kube_def Let_def)
  moreover have "stores_status site_kube site_run snd"
    by (simp add: stores_status_def site_kube_def status_kept_def Let_def)
  ultimately show ?thesis by (simp add: hosts_def site_refs)
qed

lemma site_reaches: "reaches sample_backend_net local_gateway site_gateway site_run snd"
  by (auto simp: reaches_def site_gateway_def site_run_def)

lemma site_tenant: "rs_TenantID site_submission = sample_tenant"
  by (simp add: site_submission_def)

lemma site_lets_work: "lets_work mock_runtime () site_submission site_work site_run snd"
  by (simp add: lets_work_def executed_in_process site_work_def site_tenant site_run_def)

lemma site_submittable: "submittable site_submission"
  by code_simp

text \<open>A bound on the size of a document on the wire, without the document.\<close>

fun wire_size :: "json \<Rightarrow> nat" where
  "wire_size (JInt n) = (if \<bar>n\<bar> < 65536 then 18 else 1 + length (wire_nat (nat \<bar>n\<bar>)))"
| "wire_size (JReal s) = 2 * length s + 2"
| "wire_size (JStr s) = 2 * length s + 2"
| "wire_size (JArr js) = 2 + (\<Sum>j\<leftarrow>js. wire_size j)"
| "wire_size (JObj ms) = 2 + (\<Sum>m\<leftarrow>ms. 2 * length (fst m) + 1 + wire_size (snd m))"
| "wire_size _ = 1"

lemma wire_text_length: "length (wire_text s) = 2 * length s + 1"
  by (induction s) simp_all

lemma wire_nat_length: "n < 2 ^ k \<Longrightarrow> length (wire_nat n) \<le> Suc k"
proof (induction k arbitrary: n)
  case (Suc k)
  then have "n div 2 < 2 ^ k" by simp
  from Suc.IH [OF this] show ?case by (subst wire_nat.simps) simp
qed (simp add: wire_nat.simps)

lemma wire_length: "length (wire j) \<le> wire_size j"
proof (induction j rule: wire.induct)
  case (3 n)
  have "length (wire_nat (nat \<bar>n\<bar>)) \<le> Suc 16" if "\<bar>n\<bar> < 65536"
    using that by (intro wire_nat_length) simp
  then show ?case by simp
next
  case (6 js)
  then show ?case by (simp add: length_concat comp_def sum_list_mono)
next
  case (7 ms)
  have "(\<Sum>m\<leftarrow>ms. length (wire_text (fst m) @ wire (snd m))) \<le> (\<Sum>m\<leftarrow>ms. 2 * length (fst m) + 1 + wire_size (snd m))"
    using 7 by (intro sum_list_mono) (simp add: wire_text_length)
  then show ?case by (simp only: wire.simps wire_size.simps length_concat map_map comp_def length_Cons length_append list.size)
qed (simp_all add: wire_text_length)

lemma answer_fits_sized: "wire_size doc \<le> 2000 \<Longrightarrow> answer_fits sample_env doc"
  by (rule answer_fits_short) (simp add: sample_env_def le_trans [OF wire_length])

lemma site_fits: "submit_fits sample_env site_submission empty_backend"
proof -
  have "case submit_reply sample_env site_submission empty_backend of None \<Rightarrow> True | Some ((_, doc), _) \<Rightarrow> wire_size doc \<le> 2000"
    by code_simp
  then show ?thesis by (auto simp: submit_fits_def answer_fits_sized split: option.splits prod.splits)
qed

lemma site_executed:
  "case file_request (store_request_of sample_env site_submission empty_backend) (be_store empty_backend) of
     (Some (i, _), S) \<Rightarrow>
       (case execute_run_in_process mock_env alone sample_tenant i (rs_Task site_submission) \<lparr>en_store = S, en_log = []\<rparr> of
          None \<Rightarrow> False
        | Some st' \<Rightarrow> (case ms_runs (en_store st') i of None \<Rightarrow> False | Some r \<Rightarrow> wire_size (enc_run (snapshot r)) \<le> 2000))
   | _ \<Rightarrow> False"
  by code_simp

lemma site_answer_fits:
  assumes "httpSubmit sample_backend_net local_gateway site_submission empty_backend = (Inr c, B1)"
    and "executed mock_runtime () site_submission c B1 = Some st'" and "ms_runs (en_store st') (cpr_ID c) = Some r"
  shows "answer_fits sample_env (enc_run (snapshot r))"
proof -
  have "rs_TenantID site_submission \<noteq> []" by (simp add: site_tenant sample_tenant_def)
  from filed_submission [OF sample_env_law local_gateway_url this site_fits empty_backend_ok site_submittable,
      of "\<lambda>_. None"] assms(1)
  obtain created where "file_request (store_request_of sample_env site_submission empty_backend) (be_store empty_backend) =
      (Some (cpr_ID c, created), be_store B1)" by auto
  with site_executed assms(2,3) show ?thesis
    by (simp add: executed_in_process site_tenant answer_fits_sized)
qed

theorem new_run_succeeds_witness:
  "let pass = (\<lambda>w. snd (Reconcile sample_platform site_kube site_gateway sample_clock sample_key w));
       w2 = pass (pass ((new_status, []), empty_backend));
       w4 = pass (site_work (st_BackendRunID (run_Status (site_run w2))) w2)
   in st_BackendRunID (run_Status (site_run w2)) \<noteq> [] \<and> st_Phase (run_Status (site_run w4)) = AgentRunSucceeded"
proof -
  let ?w = "((new_status, []), empty_backend) :: site"
  have start: "under_way (site_run ?w)" "st_BackendRunID (run_Status (site_run ?w)) = []"
    "\<not> contains_finalizer sample_platform (om_Finalizers (run_Meta (site_run ?w))) runFinalizer"
    "backend_ok sample_env (snd ?w)" "submit_fits sample_env site_submission (snd ?w)" "sample_tenant \<noteq> []"
    "ms_idempotency (be_store (snd ?w)) (sample_tenant, rs_IdempotencyKey site_submission) = None"
    using site_fits empty_backend_ok
    by (simp_all add: under_way_def new_status_def sample_platform_def sample_tenant_def empty_backend_def empty_store_def)
  have model: "xe_executor (re_host mock_runtime) = Executor None" "int64_ok (xe_latency (re_host mock_runtime) n)"
    "\<not> external_mode (re_getenv mock_runtime)" for n
    by (simp_all add: external_mode_def mock_env_def xe_executor_def build_executor_def execution_mode_def int64_ok_def int64_min_def int64_max_def)
  have answers: "\<exists>answer. complete_step (re_host mock_runtime) None n task step finished = Answer answer" for n task step finished
    by (simp add: complete_step_def)
  from new_run_succeeds [where ?T1.0 = sample_clock and ?T2.0 = sample_clock and ?T3.0 = sample_clock, OF site_hosts site_reaches site_lets_work sample_finalizer_law sample_env_law local_gateway_url
      start(6,1,2,3,4) site_submittable start(5,7) model(1) answers model(2) site_answer_fits model(3)]
  show ?thesis by (simp add: Let_def)
qed

end
