(* ===== verification/Backend_Order.thy ===== *)
theory Backend_Order
  imports Backend_External
begin

text \<open>
  A step of a run is executed after the steps it depends on, whatever other requests and other threads do in
  the meantime. The proof relies on what the others leave of the run, follows the stage of the run from call to
  call, and shows that the stage is stable under the others.
\<close>

subsection \<open>What the others leave of a run\<close>

definition spares :: "string \<Rightarrow> run_store \<Rightarrow> run_store \<Rightarrow> bool" where
  "spares i S S' \<longleftrightarrow> ms_runs S' i = ms_runs S i \<or> ms_runs S' i = map_option cancelled_record (ms_runs S i)"

definition considerate :: "string \<Rightarrow> interference \<Rightarrow> bool" where
  "considerate i others \<longleftrightarrow> (\<forall>n S. spares i S (others n S))"

lemma cancelled_record_twice [simp]: "cancelled_record (cancelled_record r) = cancelled_record r"
  by (simp add: cancelled_record_def terminal_status_def)

lemma spares_refl [simp]: "spares i S S"
  by (simp add: spares_def)

lemma spares_trans: "spares i S S1 \<Longrightarrow> spares i S1 S2 \<Longrightarrow> spares i S S2"
  by (auto simp: spares_def option.map_comp comp_def)

lemma cancel_spares: "spares i S (snd (store_cancel tenant j S))"
  by (simp add: spares_def store_cancel_def owned_def split: option.split)

lemma submit_spares:
  "ms_runs S j = None \<Longrightarrow> ms_runs S i \<noteq> None \<Longrightarrow> spares i S (snd (store_submit j tenant task project key specs S))"
  by (auto simp: spares_def store_submit_def Let_def)

lemma update_spares: "j \<noteq> i \<Longrightarrow> spares i S (snd (update_live f tenant j S))"
  by (simp add: spares_def update_live_def owned_def split: option.split)

subsection \<open>The stage of a run\<close>

definition under_way :: "run_step \<Rightarrow> bool" where
  "under_way s \<longleftrightarrow> sp_status s \<in> {''running'', ''succeeded''}"

definition deps_met :: "run_step list \<Rightarrow> bool" where
  "deps_met ss \<longleftrightarrow> (\<forall>s \<in> set ss. under_way s \<longrightarrow>
     (\<forall>d \<in> set (sp_depends_on s). \<exists>t \<in> set ss. sp_node_id t = d \<and> sp_status t = ''succeeded''))"

lemma deps_metD:
  "deps_met ss \<Longrightarrow> s \<in> set ss \<Longrightarrow> under_way s \<Longrightarrow> d \<in> set (sp_depends_on s) \<Longrightarrow>
     \<exists>t \<in> set ss. sp_node_id t = d \<and> sp_status t = ''succeeded''"
  by (simp add: deps_met_def)

text \<open>
  The steps at positions \<open>D\<close> have succeeded, those at positions \<open>T\<close> have not; names and dependencies are as in
  \<open>steps\<close>.
\<close>

definition stage :: "run_step list \<Rightarrow> nat set \<Rightarrow> nat set \<Rightarrow> run_step list \<Rightarrow> bool" where
  "stage steps D T ss \<longleftrightarrow> step_deps_of ss = step_deps_of steps \<and> deps_met ss \<and>
     (\<forall>p \<in> D. p < length ss \<and> sp_status (ss ! p) = ''succeeded'') \<and>
     (\<forall>p \<in> T. p < length ss \<and> sp_status (ss ! p) \<noteq> ''succeeded'')"

definition ready :: "run_step list \<Rightarrow> nat set \<Rightarrow> nat \<Rightarrow> bool" where
  "ready steps D p \<longleftrightarrow> (\<forall>d \<in> set (sp_depends_on (steps ! p)). \<exists>q \<in> D. sp_node_id (steps ! q) = d)"

lemma step_deps_of_nth:
  assumes "step_deps_of ss = step_deps_of steps" and "p < length ss"
  shows "sp_node_id (ss ! p) = sp_node_id (steps ! p)" and "sp_depends_on (ss ! p) = sp_depends_on (steps ! p)"
proof -
  have "length steps = length ss" using assms(1) by (metis length_map step_deps_of_def)
  with arg_cong [OF assms(1), of "\<lambda>xs. xs ! p"] assms(2)
  show "sp_node_id (ss ! p) = sp_node_id (steps ! p)" "sp_depends_on (ss ! p) = sp_depends_on (steps ! p)"
    by (simp_all add: step_deps_of_def)
qed

text \<open>A change of statuses that touches no step that has succeeded and starts none.\<close>

lemma stage_map:
  assumes "stage steps D T ss"
    and f: "\<And>s. sp_node_id (f s) = sp_node_id s \<and> sp_depends_on (f s) = sp_depends_on s"
      "\<And>s. under_way (f s) \<Longrightarrow> f s = s" "\<And>s. sp_status s = ''succeeded'' \<Longrightarrow> f s = s"
  shows "stage steps D T (map f ss)"
proof -
  have same: "step_deps_of (map f ss) = step_deps_of ss" by (simp add: step_deps_of_def f(1))
  have "\<exists>t \<in> set ss. sp_node_id (f t) = d \<and> sp_status (f t) = ''succeeded''"
    if "s \<in> set ss" "under_way (f s)" "d \<in> set (sp_depends_on (f s))" for s d
  proof -
    have "deps_met ss" using assms(1) by (simp add: stage_def)
    from deps_metD [OF this that(1), of d] that(2,3) f(2) [OF that(2)]
    obtain t where "t \<in> set ss" "sp_node_id t = d" "sp_status t = ''succeeded''" by auto
    with f(3) [of t] show ?thesis by (intro bexI [of _ t]) simp_all
  qed
  then have "deps_met (map f ss)" by (simp add: deps_met_def)
  moreover have "sp_status (f s) \<noteq> ''succeeded''" if "sp_status s \<noteq> ''succeeded''" for s
    using that f(2) [of s] by (auto simp: under_way_def)
  ultimately show ?thesis using assms(1) f(3) same by (auto simp: stage_def)
qed

lemma stage_cancelled: "stage steps D T (rr_steps r) \<Longrightarrow> stage steps D T (rr_steps (cancelled_record r))"
  by (auto simp: cancelled_record_def under_way_def intro!: stage_map)

text \<open>A change of one step that has not succeeded.\<close>

lemma stage_update:
  assumes "stage steps D T ss" and "p \<in> T" and "sp_node_id s = sp_node_id (ss ! p)"
    and "sp_depends_on s = sp_depends_on (ss ! p)" and "under_way s \<Longrightarrow> ready steps D p"
  shows "stage steps D (T - {p}) (ss[p := s])"
    and "sp_status s \<noteq> ''succeeded'' \<Longrightarrow> stage steps D T (ss[p := s])"
    and "sp_status s = ''succeeded'' \<Longrightarrow> stage steps (insert p D) (T - {p}) (ss[p := s])"
proof -
  have p: "p < length ss" "sp_status (ss ! p) \<noteq> ''succeeded''" "p \<notin> D" and deps: "step_deps_of ss = step_deps_of steps"
    using assms(1,2) by (auto simp: stage_def)
  have "step_deps_of (ss[p := s]) = step_deps_of ss"
    using p(1) assms(3,4) by (simp add: step_deps_of_def map_update list_update_same_conv)
  with deps have same: "step_deps_of (ss[p := s]) = step_deps_of steps" by simp
  have kept: "t \<in> set (ss[p := s])" if "t \<in> set ss" "sp_status t = ''succeeded''" for t
    using that p(2) by (metis in_set_conv_nth length_list_update nth_list_update_neq)
  have succeeded: "\<exists>t \<in> set ss. sp_node_id t = d \<and> sp_status t = ''succeeded''"
    if "u \<in> set (ss[p := s])" "under_way u" "d \<in> set (sp_depends_on u)" for u d
  proof (cases "u \<in> set ss")
    case True
    moreover have "deps_met ss" using assms(1) by (simp add: stage_def)
    ultimately show ?thesis using deps_metD that(2,3) by blast
  next
    case False
    with that(1) have "u = s" using set_update_subset_insert [of ss p s] by auto
    with that assms(4,5) have "\<exists>q \<in> D. sp_node_id (steps ! q) = d"
      using step_deps_of_nth(2) [OF deps p(1)] by (auto simp: ready_def)
    then obtain q where "q \<in> D" "sp_node_id (steps ! q) = d" by blast
    with assms(1) step_deps_of_nth(1) [OF deps, of q] show ?thesis by (auto simp: stage_def intro!: bexI [of _ "ss ! q"])
  qed
  have "deps_met (ss[p := s])"
    unfolding deps_met_def using succeeded kept by blast
  with same assms(1) p(3)
  show "stage steps D (T - {p}) (ss[p := s])" "sp_status s \<noteq> ''succeeded'' \<Longrightarrow> stage steps D T (ss[p := s])"
    "sp_status s = ''succeeded'' \<Longrightarrow> stage steps (insert p D) (T - {p}) (ss[p := s])"
    using p(1) by (auto simp: stage_def nth_list_update)
qed

subsection \<open>From call to call\<close>

definition staged :: "string \<Rightarrow> run_step list \<Rightarrow> nat set \<Rightarrow> nat set \<Rightarrow> run_store \<Rightarrow> bool" where
  "staged i steps D T S \<longleftrightarrow> (\<exists>r. ms_runs S i = Some r \<and> stage steps D T (rr_steps r))"

lemma staged_stable: "spares i S S' \<Longrightarrow> staged i steps D T S \<Longrightarrow> staged i steps D T S'"
  by (auto simp: spares_def staged_def stage_cancelled)

text \<open>Every call so far met a store in which the dependencies of the steps under way had succeeded.\<close>

definition in_order :: "string \<Rightarrow> execution \<Rightarrow> bool" where
  "in_order i st \<longleftrightarrow> (\<forall>S \<in> set (en_log st). \<forall>r. ms_runs S i = Some r \<longrightarrow> deps_met (rr_steps r))"

lemma staged_call:
  assumes "considerate i others" and "staged i steps D T (en_store st)" and "in_order i st"
    and "\<And>r r'. stage steps D T (rr_steps r) \<Longrightarrow> f r = Some r' \<Longrightarrow> stage steps D' T' (rr_steps r')"
    and "store_call others (update_live f tenant i) st = (ok, st1)"
  shows "in_order i st1" and "ok \<Longrightarrow> staged i steps D' T' (en_store st1)" and "\<not> ok \<Longrightarrow> staged i steps D T (en_store st1)"
proof -
  let ?S = "others (en_tick st) (en_store st)"
  have "spares i (en_store st) ?S" using assms(1) by (simp add: considerate_def)
  from staged_stable [OF this assms(2)] have S: "staged i steps D T ?S" .
  have "en_log st1 = en_log st @ [?S]" using assms(5) by (auto simp: store_call_def call_on_def split: prod.splits)
  with S assms(3) show "in_order i st1" by (auto simp: in_order_def staged_def stage_def)
  from S assms(4,5) show "ok \<Longrightarrow> staged i steps D' T' (en_store st1)" "\<not> ok \<Longrightarrow> staged i steps D T (en_store st1)"
    by (auto simp: store_call_def call_on_def update_live_def owned_def staged_def split: prod.splits option.splits if_splits)
qed

text \<open>What the calls of a thread do to the stage.\<close>

lemma call_head:
  assumes "considerate i others" and "staged i steps D T (en_store st)" and "in_order i st"
    and "\<And>r. rr_steps (g r) = rr_steps r" and "store_call others (update_live (\<lambda>r. Some (g r)) tenant i) st = (ok, st1)"
  shows "in_order i st1 \<and> staged i steps D T (en_store st1)"
proof -
  have "stage steps D T (rr_steps r')" if "stage steps D T (rr_steps r)" "Some (g r) = Some r'" for r r'
    using that assms(4) by auto
  from staged_call [OF assms(1-3) this assms(5)] show ?thesis by (cases ok) auto
qed

lemma call_start_step:
  assumes "considerate i others" and "staged i steps D T (en_store st)" and "in_order i st"
    and "p \<in> T" and "ready steps D p" and "store_call others (store_start_step p tenant i) st = (ok, st1)"
  shows "in_order i st1 \<and> staged i steps D T (en_store st1)"
proof -
  have "stage steps D T (rr_steps r')" if "stage steps D T (rr_steps r)"
    "(let s = rr_steps r ! p in if sp_status s \<notin> {''queued'', ''failed''} then None
      else Some (r\<lparr>rr_steps := (rr_steps r)[p :=
        s\<lparr>sp_status := ''running'', sp_attempts := sp_attempts s + 1, sp_error := []\<rparr>]\<rparr>)) = Some r'" for r r'
    using that assms(5) by (auto simp: Let_def intro!: stage_update(2) [OF _ assms(4)] split: if_splits)
  from staged_call [OF assms(1-3) this assms(6) [unfolded store_start_step_def]] show ?thesis by (cases ok) auto
qed

lemma call_fail_step:
  assumes "considerate i others" and "staged i steps D T (en_store st)" and "in_order i st"
    and "p \<in> T" and "store_call others (store_fail_step p error tenant i) st = (ok, st1)"
  shows "in_order i st1 \<and> staged i steps D T (en_store st1)"
proof -
  have "stage steps D T (rr_steps r')" if "stage steps D T (rr_steps r)"
    "Some (r\<lparr>rr_steps := (rr_steps r)[p := (rr_steps r ! p)\<lparr>sp_status := ''failed'', sp_error := error\<rparr>]\<rparr>) = Some r'" for r r'
    using that by (auto simp: under_way_def intro!: stage_update(2) [OF _ assms(4)])
  from staged_call [OF assms(1-3) this assms(5) [unfolded store_fail_step_def]] show ?thesis by (cases ok) auto
qed

lemma call_fail:
  assumes "considerate i others" and "staged i steps D T (en_store st)" and "in_order i st"
    and "store_call others (store_fail error tenant i) st = (ok, st1)"
  shows "in_order i st1 \<and> staged i steps D T (en_store st1)"
proof -
  let ?f = "\<lambda>s. if sp_status s = ''queued'' then s\<lparr>sp_status := ''cancelled''\<rparr> else s"
  have "stage steps D T (map ?f ss)" if "stage steps D T ss" for ss
    by (rule stage_map [OF that]) (auto simp: under_way_def)
  then have "stage steps D T (rr_steps r')" if "stage steps D T (rr_steps r)"
    "Some (r\<lparr>rr_status := ''failed'', rr_summary := error, rr_steps := map ?f (rr_steps r)\<rparr>) = Some r'" for r r'
    using that by auto
  from staged_call [OF assms(1-3) this assms(4) [unfolded store_fail_def]] show ?thesis by (cases ok) auto
qed

lemma call_succeed_step:
  assumes "considerate i others" and "staged i steps D T (en_store st)" and "in_order i st"
    and "p \<in> T" and "ready steps D p"
    and "store_call others (store_succeed_step p answer latency inputs outputs tenant i) st = (ok, st1)"
  shows "in_order i st1 \<and> staged i steps (if ok then insert p D else D) (if ok then T - {p} else T) (en_store st1)"
proof -
  have "stage steps (insert p D) (T - {p}) (rr_steps r')" if r: "stage steps D T (rr_steps r)"
    "(let s = rr_steps r ! p;
          text = (if or_empty answer = [] then ''mock execution completed step '' @ sp_node_id s else or_empty answer)
      in Some (r\<lparr>rr_steps := (rr_steps r)[p := s\<lparr>sp_status := ''succeeded'', sp_output := text, sp_latency_ms := latency,
         sp_input_tokens := inputs, sp_output_tokens := outputs\<rparr>]\<rparr>)) = Some r'" for r r'
  proof -
    obtain out where "rr_steps r' = (rr_steps r)[p := (rr_steps r ! p)\<lparr>sp_status := ''succeeded'', sp_output := out,
        sp_latency_ms := latency, sp_input_tokens := inputs, sp_output_tokens := outputs\<rparr>]"
      using r(2) by (auto simp: Let_def)
    then show ?thesis using stage_update(3) [OF r(1) assms(4)] assms(5) by simp
  qed
  from staged_call [OF assms(1-3) this assms(6) [unfolded store_succeed_step_def]] show ?thesis by (cases ok) auto
qed

subsection \<open>The thread\<close>

lemma attempt_in_order:
  assumes "considerate i others" and "p \<in> T" and "ready steps D p"
  shows "staged i steps D T (en_store st) \<Longrightarrow> in_order i st \<Longrightarrow>
     attempt_step X others executor tenant i task p step finished attempts st = (res, st') \<Longrightarrow>
     in_order i st' \<and> (case res of Stopped \<Rightarrow> \<exists>D T. staged i steps D T (en_store st')
       | Finished _ \<Rightarrow> staged i steps (insert p D) (T - {p}) (en_store st'))"
proof (induction attempts st arbitrary: res st' rule: attempt_induct [where step = step])
  case (1 attempts st)
  obtain ok st1 where start: "store_call others (store_start_step p tenant i) st = (ok, st1)" by fastforce
  note st1 = call_start_step [OF assms(1) 1(2,3) assms(2,3) start]
  show ?case
  proof (cases ok)
    case False
    with 1(4) start st1 show ?thesis by (subst (asm) attempt_step.simps) auto
  next
    case started: True
    show ?thesis
    proof (cases "complete_step X executor (en_tick st1) task step finished")
      case (Llm_error error)
      obtain b st2 where failed: "store_call others (store_fail_step p error tenant i) st1 = (b, st2)" by fastforce
      note st2 = call_fail_step [OF assms(1) conjunct2 [OF st1] conjunct1 [OF st1] assms(2) failed]
      show ?thesis
      proof (cases "attempts + 1 \<le> sp_max_retries step")
        case True
        with 1(4) start started Llm_error failed
        have "attempt_step X others executor tenant i task p step finished (attempts + 1) st2 = (res, st')"
          by (subst (asm) attempt_step.simps) simp
        from 1(1) [OF True conjunct2 [OF st2] conjunct1 [OF st2] this] show ?thesis .
      next
        case False
        obtain b' st3 where gave_up: "store_call others (store_fail error tenant i) st2 = (b', st3)" by fastforce
        with 1(4) start started Llm_error failed False have "st' = st3" "res = Stopped"
          by (subst (asm) attempt_step.simps, simp)+
        with call_fail [OF assms(1) conjunct2 [OF st2] conjunct1 [OF st2] gave_up] show ?thesis by auto
      qed
    next
      case (Answer c)
      obtain ok2 st2 where ended: "store_call others (store_succeed_step p (Some (cm_content c))
          (max 1 (xe_latency X (en_tick st1))) (cm_input_tokens c) (cm_output_tokens c) tenant i) st1 = (ok2, st2)"
        by fastforce
      note st2 = call_succeed_step [OF assms(1) conjunct2 [OF st1] conjunct1 [OF st1] assms(2,3) ended]
      from 1(4) start started Answer ended have "st' = st2" "res = Stopped \<longleftrightarrow> \<not> ok2"
        by (subst (asm) attempt_step.simps, cases ok2, auto)+
      with st2 show ?thesis by (cases ok2; cases res) auto
    next
      case Escaped
      with 1(4) start started st1 show ?thesis by (subst (asm) attempt_step.simps) auto
    qed
  qed
qed

text \<open>Every position comes when all its dependencies have had their turn.\<close>

fun in_turn :: "run_step list \<Rightarrow> nat set \<Rightarrow> nat list \<Rightarrow> bool" where
  "in_turn steps D [] \<longleftrightarrow> True"
| "in_turn steps D (p # order) \<longleftrightarrow> ready steps D p \<and> in_turn steps (insert p D) order"

lemma run_order_in_order:
  assumes "considerate i others"
  shows "staged i steps D (set order) (en_store st) \<Longrightarrow> distinct order \<Longrightarrow> in_turn steps D order \<Longrightarrow> in_order i st \<Longrightarrow>
     in_order i (run_order X others executor tenant i task ss order finished st) \<and>
     (\<exists>D T. staged i steps D T (en_store (run_order X others executor tenant i task ss order finished st)))"
proof (induction order arbitrary: D finished st)
  case Nil
  obtain ok st1 where ended: "store_call others (store_succeed tenant i) st = (ok, st1)" by fastforce
  from call_head [OF assms Nil(1,4) _ ended [unfolded store_succeed_def]] ended show ?case by auto
next
  case (Cons p order)
  obtain res st1 where attempt: "attempt_step X others executor tenant i task p (ss ! p) finished (sp_attempts (ss ! p)) st = (res, st1)"
    by fastforce
  note first = attempt_in_order [OF assms, of p "set (p # order)" steps D st]
  have st1: "in_order i st1" "case res of Stopped \<Rightarrow> \<exists>D T. staged i steps D T (en_store st1)
      | Finished _ \<Rightarrow> staged i steps (insert p D) (set order) (en_store st1)"
    using first [OF _ _ Cons.prems(1,4) attempt] Cons.prems(2,3) by (cases res; simp)+
  show ?case
  proof (cases res)
    case Stopped
    with st1 attempt show ?thesis by simp
  next
    case (Finished step)
    with Cons.IH [of "insert p D" st1 "finished @ [step]"] Cons.prems st1 attempt show ?thesis by simp
  qed
qed

lemma schedule_in_turn:
  assumes "topological_order (step_deps_of steps) = Some (Some order)"
  shows "in_turn steps {} order"
proof -
  from topological_order_schedule [OF assms] obtain nodes where
    nodes: "step_deps_of steps = steps_of nodes" "wf_dag nodes" "execution_order nodes order" by blast
  have same: "length nodes = length steps" using nodes(1) by (metis length_map step_deps_of_def steps_of_simps(1))
  have nth: "sp_node_id (steps ! q) = dn_Name (nodes ! q)" "sp_depends_on (steps ! q) = dn_DependsOn (nodes ! q)"
    if "q < length steps" for q
    using arg_cong [OF nodes(1), of "\<lambda>xs. xs ! q"] that same by (simp_all add: step_deps_of_def)
  have "order = ys @ zs \<Longrightarrow> in_turn steps (set ys) zs" for ys zs
  proof (induction zs arbitrary: ys)
    case (Cons q zs)
    have q: "q < length steps" using nodes(3) Cons.prems same by (auto simp: execution_order_def)
    have "\<exists>p \<in> set ys. sp_node_id (steps ! p) = d" if "d \<in> set (sp_depends_on (steps ! q))" for d
    proof -
      have "d \<in> set (dn_DependsOn (nodes ! q))" "nodes ! q \<in> set nodes" using that q nth same by simp_all
      with nodes(2) have "d \<in> dn_Name ` set nodes" unfolding wf_dag_def by blast
      then obtain p where p: "p < length nodes" "d = dn_Name (nodes ! p)" by (auto simp: in_set_conv_nth)
      with that q nth same have "(q, p) \<in> position_edges nodes" by (simp add: position_edges_def)
      with nodes(3) Cons.prems have "p \<in> set ys" unfolding execution_order_def by blast
      with p nth same show ?thesis by auto
    qed
    then have "ready steps (set ys) q" by (simp add: ready_def)
    with Cons.IH [of "ys @ [q]"] Cons.prems show ?case by simp
  qed simp
  from this [of "[]" order] show ?thesis by simp
qed

lemma queued_stage:
  assumes "\<forall>s \<in> set ss. sp_status s = ''queued''"
  shows "stage ss {} {..<length ss} ss"
  using assms by (auto simp: stage_def deps_met_def under_way_def)

lemma execution_in_order:
  assumes "considerate i others" and "execute_run_in_process X others tenant i task st = Some st'" and "in_order i st"
    and "ms_runs (en_store st) i = Some r" and "\<forall>s \<in> set (rr_steps r). sp_status s = ''queued''"
  shows "in_order i st' \<and> (\<exists>D T. staged i (rr_steps r) D T (en_store st'))"
proof -
  let ?steps = "rr_steps r" and ?all = "{..<length (rr_steps r)}"
  have queued: "staged i ?steps {} ?all (en_store st)"
    using queued_stage [OF assms(5)] assms(4) by (simp add: staged_def)
  obtain ok st1 where start: "store_call others (store_start tenant i) st = (ok, st1)" by fastforce
  note st1 = call_head [OF assms(1) queued assms(3) _ start [unfolded store_start_def], simplified]
  let ?S = "others (en_tick st1) (en_store st1)"
  define st2 where "st2 = \<lparr>en_store = ?S, en_log = en_log st1 @ [?S]\<rparr>"
  have get: "store_call others (\<lambda>S. (store_get tenant i S, S)) st1 = (store_get tenant i ?S, st2)"
    by (simp add: store_call_def call_on_def st2_def)
  have "spares i (en_store st1) ?S" using assms(1) by (simp add: considerate_def)
  from staged_stable [OF this conjunct2 [OF st1]] have S: "staged i ?steps {} ?all ?S" .
  with st1 have st2: "staged i ?steps {} ?all (en_store st2)" "in_order i st2"
    by (auto simp: st2_def in_order_def staged_def stage_def)
  have failed: "in_order i st3 \<and> (\<exists>D T. staged i ?steps D T (en_store st3))"
    if "st3 = snd (store_call others (store_fail error tenant i) st2)" for error st3
    using call_fail [OF assms(1) st2] that by (metis prod.collapse)
  show ?thesis
  proof (cases ok)
    case False
    with assms(2) start st1 show ?thesis by (auto simp: in_process_defs)
  next
    case started: True
    show ?thesis
    proof (cases "store_get tenant i ?S")
      case None
      with assms(2) start started get st2 show ?thesis by (auto simp: in_process_defs)
    next
      case (Some run)
      then obtain r' where r': "ms_runs ?S i = Some r'" "sn_steps run = rr_steps r'"
        by (auto simp: store_get_def owned_def snapshot_def split: option.splits if_splits)
      with S have deps: "step_deps_of (sn_steps run) = step_deps_of ?steps" by (simp add: staged_def stage_def)
      show ?thesis
      proof (cases "\<exists>executor order. xe_executor X = Executor executor \<and> topological_order (step_deps_of (sn_steps run)) = Some (Some order)")
        case True
        then obtain executor order where order: "xe_executor X = Executor executor"
          "topological_order (step_deps_of (sn_steps run)) = Some (Some order)" by blast
        from topological_order_positions [OF order(2) [unfolded deps]]
        have all: "distinct order" "set order = ?all" by (simp_all add: step_deps_of_def)
        have turns: "in_turn ?steps {} order" using schedule_in_turn order(2) deps by simp
        have "st' = run_order X others executor tenant i task (sn_steps run) order [] st2"
          using assms(2) start started get Some order by (simp add: in_process_defs)
        then show ?thesis
          using run_order_in_order [OF assms(1) st2(1) [folded all(2)] all(1) turns st2(2)] by blast
      next
        case False
        with assms(2) start started get Some failed st2 show ?thesis
          by (auto simp: in_process_defs split: executor_choice.splits option.splits)
      qed
    qed
  qed
qed

text \<open>
  C22. Steps are executed after the steps they depend on. When the backend executes a new run itself, in the modes
  \<open>mock\<close> and \<open>live\<close>, then at every call of the thread and at its end all steps that a step under way or finished
  depends on have succeeded, whatever requests and other threads do to the store in between, as long as they
  leave this run alone or cancel it. In the external modes the runtime orders the steps.
\<close>

theorem dependencies_first:
  assumes "\<not> external_mode (re_getenv X)" and "considerate i others"
    and "execute_run X others tenant i task project key \<lparr>en_store = S, en_log = []\<rparr> e = Some (st', e')"
    and "ms_runs S i = Some r" and "\<forall>s \<in> set (rr_steps r). sp_status s = ''queued''"
    and "S' \<in> insert (en_store st') (set (en_log st'))" and "ms_runs S' i = Some r'"
    and "s \<in> set (rr_steps r')" and "sp_status s \<in> {''running'', ''succeeded''}" and "d \<in> set (sp_depends_on s)"
  shows "\<exists>t \<in> set (rr_steps r'). sp_node_id t = d \<and> sp_status t = ''succeeded''"
proof -
  have run: "execute_run_in_process (re_host X) others tenant i task \<lparr>en_store = S, en_log = []\<rparr> = Some st'"
    using assms(3) by (auto simp: execute_run_internal [OF assms(1)])
  have "in_order i \<lparr>en_store = S, en_log = []\<rparr>" by (simp add: in_order_def)
  from execution_in_order [OF assms(2) run this _ assms(5)] assms(4,6,7) have "deps_met (rr_steps r')"
    by (auto simp: in_order_def staged_def stage_def)
  from deps_metD [OF this assms(8) _ assms(10)] assms(9) show ?thesis by (simp add: under_way_def)
qed

text \<open>A run whose first step depends on its second.\<close>

definition reversed_run :: run_record where
  "reversed_run = new_record ''u'' ''t1'' ''report'' None
     [\<lparr>sx_node_id = ''review'', sx_prompt = None, sx_role = None, sx_depends_on = [''draft''], sx_max_retries = 0,
       sx_model = None, sx_max_tokens = None\<rparr>,
      \<lparr>sx_node_id = ''draft'', sx_prompt = None, sx_role = None, sx_depends_on = [], sx_max_retries = 0,
       sx_model = None, sx_max_tokens = None\<rparr>]"

definition reversed_store :: run_store where
  "reversed_store = \<lparr>ms_runs = [''u'' \<mapsto> reversed_run], ms_idempotency = [(''t1'', ''k1'') \<mapsto> ''u'']\<rparr>"

lemma reversed_order: "topological_order [(''review'', [''draft'']), (''draft'', [])] = Some (Some [1, 0])"
  by code_simp

lemma alone_considerate: "considerate i alone"
  by (simp add: considerate_def alone_def)

theorem dependencies_first_witness:
  "\<exists>st' r' t. execute_run mock_runtime alone ''t1'' ''u'' ''report'' None None \<lparr>en_store = reversed_store, en_log = []\<rparr> () = Some (st', ()) \<and>
     ms_runs (en_store st') ''u'' = Some r' \<and> t \<in> set (rr_steps r') \<and> sp_node_id t = ''draft'' \<and>
     sp_status t = ''succeeded''"
proof -
  let ?st = "\<lparr>en_store = reversed_store, en_log = []\<rparr>"
  have steps: "step_deps_of (rr_steps reversed_run) = [(''review'', [''draft'']), (''draft'', [])]"
    by (simp add: reversed_run_def new_record_def new_step_def step_deps_of_def)
  have fresh_run: "ms_runs reversed_store ''u'' = Some reversed_run" "rr_tenant_id reversed_run = ''t1''"
    "\<not> rr_cancelled reversed_run" "\<forall>s \<in> set (rr_steps reversed_run). sp_status s = ''queued''"
    by (simp_all add: reversed_store_def reversed_run_def new_record_def new_step_def)
  have model: "xe_executor mock_env = Executor None" "\<exists>c. complete_step mock_env None n ''report'' step finished = Answer c"
    for n step finished
    by (simp_all add: mock_env_def xe_executor_def build_executor_def execution_mode_def complete_step_def)
  have "topological_order (step_deps_of (rr_steps reversed_run)) = Some (Some [1, 0])"
    unfolding steps by (rule reversed_order)
  from execution_alone [of ?st "''u''", OF _ fresh_run(2-4) this model] fresh_run(1) obtain st' r' where
    done_run: "execute_run_in_process mock_env alone ''t1'' ''u'' ''report'' ?st = Some st'" "ms_runs (en_store st') ''u'' = Some r'"
      "\<forall>s \<in> set (rr_steps r'). sp_status s = ''succeeded''"
    by auto
  then have thread: "execute_run mock_runtime alone ''t1'' ''u'' ''report'' None None ?st () = Some (st', ())"
    by (simp add: execute_run_internal)
  have mode: "\<not> external_mode (re_getenv mock_runtime)" by simp
  have "in_order ''u'' ?st" by (simp add: in_order_def)
  from execution_in_order [OF alone_considerate done_run(1) this _ fresh_run(4)] fresh_run(1) done_run(2)
  have "step_deps_of (rr_steps r') = [(''review'', [''draft'']), (''draft'', [])]"
    by (auto simp: staged_def stage_def steps)
  then have "[''draft''] \<in> sp_depends_on ` set (rr_steps r')"
    by (auto simp: step_deps_of_def)
  then obtain s where s: "s \<in> set (rr_steps r')" "sp_depends_on s = [''draft'']" by auto
  from dependencies_first [OF mode alone_considerate thread fresh_run(1,4) insertI1 done_run(2) s(1), of "''draft''"] s done_run thread
  show ?thesis by auto
qed

end
