(* ===== verification/Backend_Postgres.thy ===== *)
theory Backend_Postgres
  imports Backend_Store
begin

text \<open>
  \<open>PostgresRunStore\<close> of src/backend/app/store.py over the tables of src/backend/migrations, the ledger of the
  backend in production. A table is the list of its rows; a statement is a filter and a map over them. Every
  method runs in one transaction, taken as atomic: it commits, or it fails on a constraint of the schema and
  leaves the tables as they were. The store behind the tables is the abstraction under which
  \<open>Postgres_Refinement\<close> compares it with the in-memory store.
\<close>

subsection \<open>Tables\<close>

record run_row =
  rw_id :: string
  rw_tenant_id :: string
  rw_project_id :: "string option"
  rw_idempotency_key :: string
  rw_task :: string
  rw_status :: string
  rw_summary :: string
  rw_cancelled :: bool
  rw_created_at :: string
  rw_finished_at :: "string option"
  rw_runtime_run_id :: "string option"

text \<open>The columns from \<open>node_id\<close> on are those of \<open>run_step\<close>.\<close>

record step_row =
  sw_run_id :: string
  sw_tenant_id :: string
  sw_position :: int
  sw_step :: run_step

record run_db =
  db_runs :: "run_row list"
  db_steps :: "step_row list"

text \<open>
  What a text column holds: bytes of UTF-8 without U+0000. An entry of a B-tree index takes at most 2704 bytes; 64 of
  them are set aside for what is not text, and that the database may compress a longer text is left out.
\<close>

definition text_ok :: "string \<Rightarrow> bool" where
  "text_ok s \<longleftrightarrow> list_all (\<lambda>c. c \<noteq> CHR 0x00) s"

definition index_fits :: "string list \<Rightarrow> bool" where
  "index_fits texts \<longleftrightarrow> (\<Sum>s\<leftarrow>texts. int (length s)) \<le> 2640"

text \<open>
  The constraints of the migrations: primary keys, the unique indexes, the foreign key and the checks, with
  the ranges of the column types.
\<close>

definition int2 :: "int \<Rightarrow> bool" where "int2 n \<longleftrightarrow> -32768 \<le> n \<and> n \<le> 32767"
definition int4 :: "int \<Rightarrow> bool" where "int4 n \<longleftrightarrow> -2147483648 \<le> n \<and> n \<le> 2147483647"

definition step_texts :: "run_step \<Rightarrow> string list" where
  "step_texts s = [sp_node_id s, sp_prompt s, sp_role s, sp_model s, sp_output s, sp_error s] @ sp_depends_on s"

definition column_checks :: "run_step \<Rightarrow> bool" where
  "column_checks s \<longleftrightarrow> sp_status s \<in> {''queued'', ''running'', ''succeeded'', ''failed'', ''cancelled''} \<and>
     list_all text_ok (step_texts s) \<and>
     0 \<le> sp_latency_ms s \<and> int4 (sp_latency_ms s) \<and> 0 \<le> sp_input_tokens s \<and> int4 (sp_input_tokens s) \<and>
     0 \<le> sp_output_tokens s \<and> int4 (sp_output_tokens s) \<and> 0 \<le> sp_max_retries s \<and> sp_max_retries s \<le> 5 \<and>
     0 \<le> sp_attempts s \<and> int2 (sp_attempts s) \<and> 0 \<le> sp_max_tokens s \<and> int4 (sp_max_tokens s)"

definition optional_text :: "string option \<Rightarrow> string list" where
  "optional_text v = (case v of None \<Rightarrow> [] | Some s \<Rightarrow> [s])"

definition row_checks :: "run_row \<Rightarrow> bool" where
  "row_checks r \<longleftrightarrow> rw_status r \<in> {''queued'', ''running'', ''succeeded'', ''failed'', ''cancelled''} \<and>
     list_all text_ok ([rw_tenant_id r, rw_idempotency_key r, rw_task r, rw_summary r] @ optional_text (rw_project_id r) @
       optional_text (rw_runtime_run_id r)) \<and>
     index_fits [rw_tenant_id r, rw_idempotency_key r] \<and> index_fits (rw_tenant_id r # optional_text (rw_runtime_run_id r))"

definition schema_ok :: "run_db \<Rightarrow> bool" where
  "schema_ok db \<longleftrightarrow>
     distinct (map rw_id (db_runs db)) \<and>
     distinct (map (\<lambda>r. (rw_tenant_id r, rw_idempotency_key r)) (db_runs db)) \<and>
     distinct (map (\<lambda>r. (rw_tenant_id r, rw_runtime_run_id r)) (filter (\<lambda>r. rw_runtime_run_id r \<noteq> None) (db_runs db))) \<and>
     (\<forall>r \<in> set (db_runs db). row_checks r) \<and>
     distinct (map (\<lambda>s. (sw_run_id s, sw_position s)) (db_steps db)) \<and>
     (\<forall>s \<in> set (db_steps db). 0 \<le> sw_position s \<and> int2 (sw_position s) \<and> column_checks (sw_step s) \<and>
        (\<exists>r \<in> set (db_runs db). rw_tenant_id r = sw_tenant_id s \<and> rw_id r = sw_run_id s))"

subsection \<open>Statements and transactions\<close>

datatype db_error = InvalidUuid | InvalidText | ConstraintViolation | NoSuchRow

text \<open>
  The driver refuses a parameter with U+0000 before a statement is sent. The tenant comes from an HTTP header, which
  cannot hold one, and is checked where a row is inserted only.
\<close>

definition with_texts ::
  "string list \<Rightarrow> (run_db \<Rightarrow> (db_error, 'a) result \<times> run_db) \<Rightarrow> run_db \<Rightarrow> (db_error, 'a) result \<times> run_db" where
  "with_texts texts body db = (if list_all text_ok texts then body db else (Inl InvalidText, db))"

text \<open>
  \<open>as_uuid\<close> is how the database reads a text as a uuid: its canonical form, or an error. A statement with a
  text that is no uuid fails.
\<close>

definition with_uuid ::
  "(string \<Rightarrow> string option) \<Rightarrow> string \<Rightarrow> (string \<Rightarrow> run_db \<Rightarrow> (db_error, 'a) result \<times> run_db) \<Rightarrow>
   run_db \<Rightarrow> (db_error, 'a) result \<times> run_db" where
  "with_uuid as_uuid run_id body db = (case as_uuid run_id of None \<Rightarrow> (Inl InvalidUuid, db) | Some i \<Rightarrow> body i db)"

definition commit :: "'a \<Rightarrow> run_db \<Rightarrow> run_db \<Rightarrow> (db_error, 'a) result \<times> run_db" where
  "commit a db db' = (if schema_ok db' then (Inr a, db') else (Inl ConstraintViolation, db))"

text \<open>\<open>UPDATE ... SET ... WHERE ... RETURNING\<close>: whether a row was returned, and the table.\<close>

definition update_rows :: "('r \<Rightarrow> bool) \<Rightarrow> ('r \<Rightarrow> 'r) \<Rightarrow> 'r list \<Rightarrow> bool \<times> 'r list" where
  "update_rows P f rows = (list_ex P rows, map (\<lambda>r. if P r then f r else r) rows)"

definition update_runs :: "(run_row \<Rightarrow> bool) \<Rightarrow> (run_row \<Rightarrow> run_row) \<Rightarrow> run_db \<Rightarrow> bool \<times> run_db" where
  "update_runs P f db = (case update_rows P f (db_runs db) of (b, rows) \<Rightarrow> (b, db\<lparr>db_runs := rows\<rparr>))"

definition update_steps :: "(step_row \<Rightarrow> bool) \<Rightarrow> (run_step \<Rightarrow> run_step) \<Rightarrow> run_db \<Rightarrow> bool \<times> run_db" where
  "update_steps P f db =
     (case update_rows P (\<lambda>s. s\<lparr>sw_step := f (sw_step s)\<rparr>) (db_steps db) of (b, rows) \<Rightarrow> (b, db\<lparr>db_steps := rows\<rparr>))"

definition of_run :: "string \<Rightarrow> string \<Rightarrow> run_row \<Rightarrow> bool" where
  "of_run tenant i r \<longleftrightarrow> rw_id r = i \<and> rw_tenant_id r = tenant"

definition of_steps :: "string \<Rightarrow> string \<Rightarrow> step_row \<Rightarrow> bool" where
  "of_steps tenant i s \<longleftrightarrow> sw_run_id s = i \<and> sw_tenant_id s = tenant"

text \<open>The \<open>EXISTS\<close> of the updates of steps.\<close>

definition run_live :: "run_db \<Rightarrow> step_row \<Rightarrow> bool" where
  "run_live db s \<longleftrightarrow> list_ex (\<lambda>r. rw_id r = sw_run_id s \<and> rw_tenant_id r = sw_tenant_id s \<and> \<not> rw_cancelled r) (db_runs db)"

subsection \<open>Methods\<close>

text \<open>A loaded run: the snapshot, and the two times the in-memory store has not.\<close>

type_synonym loaded = "run_snapshot \<times> string \<times> string option"

definition pg_load :: "string \<Rightarrow> string \<Rightarrow> run_db \<Rightarrow> loaded option" where
  "pg_load tenant i db =
     (case find (of_run tenant i) (db_runs db) of
        None \<Rightarrow> None
      | Some r \<Rightarrow>
          Some (\<lparr>sn_id = rw_id r, sn_status = rw_status r, sn_summary = rw_summary r,
                 sn_steps = map sw_step (sort_key sw_position (filter (of_steps tenant i) (db_steps db)))\<rparr>,
                rw_created_at r, rw_finished_at r))"

definition pg_submit ::
  "string \<Rightarrow> string \<Rightarrow> string \<Rightarrow> string \<Rightarrow> string option \<Rightarrow> string \<Rightarrow> step_spec list \<Rightarrow> run_db \<Rightarrow>
   (db_error, loaded option \<times> bool) result \<times> run_db" where
  "pg_submit now run_id tenant task project key specs = with_texts ([tenant, key, task] @ optional_text project) (\<lambda>db.
     (case find (\<lambda>r. rw_tenant_id r = tenant \<and> rw_idempotency_key r = key) (db_runs db) of
        Some existing \<Rightarrow> (Inr (pg_load tenant (rw_id existing) db, False), db)
      | None \<Rightarrow>
          let r = \<lparr>rw_id = run_id, rw_tenant_id = tenant, rw_project_id = project, rw_idempotency_key = key,
                rw_task = task, rw_status = ''queued'', rw_summary = ''queued for execution'', rw_cancelled = False,
                rw_created_at = now, rw_finished_at = None, rw_runtime_run_id = None\<rparr>;
              rows = map (\<lambda>(position, spec). \<lparr>sw_run_id = run_id, sw_tenant_id = tenant, sw_position = int position,
                       sw_step = new_step spec\<rparr>) (enumerate 0 specs);
              db' = \<lparr>db_runs = db_runs db @ [r], db_steps = db_steps db @ rows\<rparr>
          in commit (pg_load tenant run_id db', True) db db'))"

definition pg_get :: "(string \<Rightarrow> string option) \<Rightarrow> string \<Rightarrow> string \<Rightarrow> run_db \<Rightarrow> (db_error, loaded option) result \<times> run_db" where
  "pg_get U tenant run_id = with_uuid U run_id (\<lambda>i db. (Inr (pg_load tenant i db), db))"

definition pg_column ::
  "(run_row \<Rightarrow> string option) \<Rightarrow> (string \<Rightarrow> string option) \<Rightarrow> string \<Rightarrow> string \<Rightarrow> run_db \<Rightarrow>
   (db_error, string option) result \<times> run_db" where
  "pg_column column U tenant run_id = with_uuid U run_id (\<lambda>i db.
     (Inr (case find (of_run tenant i) (db_runs db) of
             None \<Rightarrow> None | Some r \<Rightarrow> if or_empty (column r) \<noteq> [] then column r else None), db))"

definition pg_runtime_run_id :: "(string \<Rightarrow> string option) \<Rightarrow> string \<Rightarrow> string \<Rightarrow> run_db \<Rightarrow> (db_error, string option) result \<times> run_db" where
  "pg_runtime_run_id = pg_column rw_runtime_run_id"

definition pg_project_id :: "(string \<Rightarrow> string option) \<Rightarrow> string \<Rightarrow> string \<Rightarrow> run_db \<Rightarrow> (db_error, string option) result \<times> run_db" where
  "pg_project_id = pg_column rw_project_id"

definition pg_set_runtime_run_id ::
  "(string \<Rightarrow> string option) \<Rightarrow> string \<Rightarrow> string \<Rightarrow> string \<Rightarrow> run_db \<Rightarrow> (db_error, bool) result \<times> run_db" where
  "pg_set_runtime_run_id U runtime_run_id tenant run_id = with_texts [runtime_run_id] (with_uuid U run_id (\<lambda>i db.
     case update_runs (\<lambda>r. of_run tenant i r \<and> \<not> rw_cancelled r) (\<lambda>r. r\<lparr>rw_runtime_run_id := Some runtime_run_id\<rparr>) db of
       (updated, db') \<Rightarrow> commit updated db db'))"

definition pg_cancel ::
  "string \<Rightarrow> (string \<Rightarrow> string option) \<Rightarrow> string \<Rightarrow> string \<Rightarrow> run_db \<Rightarrow> (db_error, loaded option) result \<times> run_db" where
  "pg_cancel now U tenant run_id = with_uuid U run_id (\<lambda>i db.
     case update_runs (\<lambda>r. of_run tenant i r \<and> rw_status r \<notin> {''succeeded'', ''failed'', ''cancelled''})
            (\<lambda>r. r\<lparr>rw_cancelled := True, rw_status := ''cancelled'', rw_summary := ''cancelled by API request'',
                  rw_finished_at := Some now\<rparr>) db of
       (cancelled, db1) \<Rightarrow>
         let db2 = (if cancelled
                    then snd (update_steps (\<lambda>s. of_steps tenant i s \<and> sp_status (sw_step s) \<in> {''queued'', ''running''})
                           (\<lambda>s. s\<lparr>sp_status := ''cancelled''\<rparr>) db1)
                    else db1)
         in commit (pg_load tenant i db2) db db2)"

text \<open>\<open>_update_run\<close> and the updates of \<open>succeed\<close> and \<open>fail\<close>: the row in the status \<open>from\<close>.\<close>

definition run_update ::
  "string \<Rightarrow> (run_row \<Rightarrow> run_row) \<Rightarrow> string \<Rightarrow> string \<Rightarrow> run_db \<Rightarrow> bool \<times> run_db" where
  "run_update from f tenant i = update_runs (\<lambda>r. of_run tenant i r \<and> \<not> rw_cancelled r \<and> rw_status r = from) f"

definition pg_start :: "(string \<Rightarrow> string option) \<Rightarrow> string \<Rightarrow> string \<Rightarrow> run_db \<Rightarrow> (db_error, bool) result \<times> run_db" where
  "pg_start U tenant run_id = with_uuid U run_id (\<lambda>i db.
     case run_update ''queued'' (\<lambda>r. r\<lparr>rw_status := ''running'', rw_summary := ''execution running''\<rparr>) tenant i db of
       (updated, db') \<Rightarrow> commit updated db db')"

definition pg_succeed :: "string \<Rightarrow> (string \<Rightarrow> string option) \<Rightarrow> string \<Rightarrow> string \<Rightarrow> run_db \<Rightarrow> (db_error, bool) result \<times> run_db" where
  "pg_succeed now U tenant run_id = with_uuid U run_id (\<lambda>i db.
     case run_update ''running'' (\<lambda>r. r\<lparr>rw_status := ''succeeded'', rw_summary := ''execution completed'',
            rw_finished_at := Some now\<rparr>) tenant i db of
       (updated, db') \<Rightarrow> commit updated db db')"

definition pg_fail ::
  "string \<Rightarrow> (string \<Rightarrow> string option) \<Rightarrow> string \<Rightarrow> string \<Rightarrow> string \<Rightarrow> run_db \<Rightarrow> (db_error, bool) result \<times> run_db" where
  "pg_fail now U error tenant run_id = with_texts [error] (with_uuid U run_id (\<lambda>i db.
     case run_update ''running'' (\<lambda>r. r\<lparr>rw_status := ''failed'', rw_summary := error, rw_finished_at := Some now\<rparr>)
            tenant i db of
       (updated, db1) \<Rightarrow>
         commit updated db
           (if updated
            then snd (update_steps (\<lambda>s. of_steps tenant i s \<and> sp_status (sw_step s) = ''queued'')
                   (\<lambda>s. s\<lparr>sp_status := ''cancelled''\<rparr>) db1)
            else db1)))"

definition step_at :: "run_db \<Rightarrow> string \<Rightarrow> string \<Rightarrow> int \<Rightarrow> step_row \<Rightarrow> bool" where
  "step_at db tenant i position s \<longleftrightarrow> of_steps tenant i s \<and> sw_position s = position \<and> run_live db s"

definition pg_start_step ::
  "(string \<Rightarrow> string option) \<Rightarrow> int \<Rightarrow> string \<Rightarrow> string \<Rightarrow> run_db \<Rightarrow> (db_error, bool) result \<times> run_db" where
  "pg_start_step U position tenant run_id = with_uuid U run_id (\<lambda>i db.
     case update_steps (\<lambda>s. step_at db tenant i position s \<and> sp_status (sw_step s) \<in> {''queued'', ''failed''})
            (\<lambda>s. s\<lparr>sp_status := ''running'', sp_attempts := sp_attempts s + 1, sp_error := []\<rparr>) db of
       (updated, db') \<Rightarrow> commit updated db db')"

definition pg_mock_output :: "string \<Rightarrow> string \<Rightarrow> int \<Rightarrow> run_db \<Rightarrow> string option" where
  "pg_mock_output tenant i position db =
     map_option (\<lambda>s. ''mock execution completed step '' @ sp_node_id (sw_step s))
       (find (\<lambda>s. of_steps tenant i s \<and> sw_position s = position) (db_steps db))"

definition pg_succeed_step ::
  "(string \<Rightarrow> string option) \<Rightarrow> int \<Rightarrow> string option \<Rightarrow> int \<Rightarrow> int \<Rightarrow> int \<Rightarrow> string \<Rightarrow> string \<Rightarrow> run_db \<Rightarrow>
   (db_error, bool) result \<times> run_db" where
  "pg_succeed_step U position answer latency_ms input_tokens output_tokens tenant run_id =
     with_texts (optional_text answer) (with_uuid U run_id (\<lambda>i db.
     case (if or_empty answer \<noteq> [] then answer else pg_mock_output tenant i position db) of
       None \<Rightarrow> (Inl NoSuchRow, db)
     | Some out \<Rightarrow>
         (case update_steps (step_at db tenant i position)
                 (\<lambda>s. s\<lparr>sp_status := ''succeeded'', sp_output := out, sp_latency_ms := latency_ms,
                       sp_input_tokens := input_tokens, sp_output_tokens := output_tokens\<rparr>) db of
            (updated, db') \<Rightarrow> commit updated db db')))"

definition pg_fail_step ::
  "(string \<Rightarrow> string option) \<Rightarrow> int \<Rightarrow> string \<Rightarrow> string \<Rightarrow> string \<Rightarrow> run_db \<Rightarrow> (db_error, bool) result \<times> run_db" where
  "pg_fail_step U position error tenant run_id = with_texts [error] (with_uuid U run_id (\<lambda>i db.
     case update_steps (step_at db tenant i position) (\<lambda>s. s\<lparr>sp_status := ''failed'', sp_error := error\<rparr>) db of
       (updated, db') \<Rightarrow> commit updated db db'))"

definition pg_update_step ::
  "(string \<Rightarrow> string option) \<Rightarrow> int \<Rightarrow> string \<Rightarrow> string \<Rightarrow> string \<Rightarrow> run_db \<Rightarrow> (db_error, bool) result \<times> run_db" where
  "pg_update_step U position status tenant run_id = with_texts [status] (with_uuid U run_id (\<lambda>i db.
     case update_steps (step_at db tenant i position) (\<lambda>s. s\<lparr>sp_status := status\<rparr>) db of
       (updated, db') \<Rightarrow> commit updated db db'))"

subsection \<open>The in-memory store behind the tables\<close>

definition steps_of_run :: "run_db \<Rightarrow> string \<Rightarrow> string \<Rightarrow> step_row list" where
  "steps_of_run db tenant i = sort_key sw_position (filter (of_steps tenant i) (db_steps db))"

definition record_of :: "run_db \<Rightarrow> run_row \<Rightarrow> run_record" where
  "record_of db r =
     \<lparr>rr_id = rw_id r, rr_tenant_id = rw_tenant_id r, rr_project_id = rw_project_id r, rr_task = rw_task r,
      rr_status = rw_status r, rr_summary = rw_summary r, rr_cancelled = rw_cancelled r,
      rr_runtime_run_id = rw_runtime_run_id r,
      rr_steps = map sw_step (steps_of_run db (rw_tenant_id r) (rw_id r))\<rparr>"

definition row_of :: "run_db \<Rightarrow> string \<Rightarrow> run_row option" where
  "row_of db i = find (\<lambda>r. rw_id r = i) (db_runs db)"

definition store_of :: "run_db \<Rightarrow> run_store" where
  "store_of db =
     \<lparr>ms_runs = (\<lambda>i. map_option (record_of db) (row_of db i)),
      ms_idempotency = (\<lambda>(tenant, key). map_option rw_id
        (find (\<lambda>r. rw_tenant_id r = tenant \<and> rw_idempotency_key r = key) (db_runs db)))\<rparr>"

text \<open>
  What the methods keep beyond the constraints: ids are not empty, a run is cancelled when its status says so,
  and the positions of its steps count from zero.
\<close>

definition db_shape :: "run_db \<Rightarrow> bool" where
  "db_shape db \<longleftrightarrow> distinct (map rw_id (db_runs db)) \<and> (\<forall>r \<in> set (db_runs db). rw_id r \<noteq> [] \<and> (rw_cancelled r \<longleftrightarrow> rw_status r = ''cancelled'') \<and>
     map sw_position (steps_of_run db (rw_tenant_id r) (rw_id r)) =
       map int [0..<length (steps_of_run db (rw_tenant_id r) (rw_id r))])"

definition db_ok :: "run_db \<Rightarrow> bool" where
  "db_ok db \<longleftrightarrow> schema_ok db \<and> db_shape db"

lemma find_map: "find P (map g xs) = map_option g (find (\<lambda>x. P (g x)) xs)"
  by (induction xs) auto

lemma insort_key_map: "(\<And>x. k (g x) = k x) \<Longrightarrow> insort_key k (g x) (map g xs) = map g (insort_key k x xs)"
  by (induction xs) auto

lemma sort_key_map: "(\<And>x. k (g x) = k x) \<Longrightarrow> sort_key k (map g xs) = map g (sort_key k xs)"
  by (induction xs) (simp_all add: insort_key_map)

lemma find_distinct:
  assumes "distinct (map k xs)" and "x \<in> set xs" and "P x" and "\<And>y. P y \<Longrightarrow> k y = k x"
  shows "find P xs = Some x"
  using assms(1-3)
proof (induction xs)
  case (Cons y xs)
  then show ?case using assms(4) [of y] by (auto simp: image_iff)
qed simp

lemma find_Some_in: "find P xs = Some x \<Longrightarrow> x \<in> set xs \<and> P x"
  by (auto simp: find_Some_iff)

lemma row_ofD: "row_of db i = Some r \<Longrightarrow> r \<in> set (db_runs db) \<and> rw_id r = i"
  unfolding row_of_def by (drule find_Some_in) simp

lemma row_of_iff: "distinct (map rw_id (db_runs db)) \<Longrightarrow> row_of db i = Some r \<longleftrightarrow> r \<in> set (db_runs db) \<and> rw_id r = i"
  using find_distinct [of rw_id "db_runs db" r "\<lambda>r. rw_id r = i"] row_ofD [of db i r] unfolding row_of_def by blast

lemma row_of_None: "row_of db i = None \<longleftrightarrow> (\<forall>r \<in> set (db_runs db). rw_id r \<noteq> i)"
  by (auto simp: row_of_def find_None_iff)

lemma find_of_run:
  assumes "distinct (map rw_id (db_runs db))"
  shows "find (of_run tenant i) (db_runs db) =
     (case row_of db i of None \<Rightarrow> None | Some r \<Rightarrow> if rw_tenant_id r = tenant then Some r else None)"
proof (cases "find (of_run tenant i) (db_runs db)")
  case None
  then show ?thesis by (auto simp: find_None_iff of_run_def dest: row_ofD split: option.split)
next
  case (Some r)
  with find_Some_in [OF Some] row_of_iff [OF assms, of i r] show ?thesis by (simp add: of_run_def)
qed

lemma owned_store_of:
  assumes "distinct (map rw_id (db_runs db))"
  shows "owned tenant i (store_of db) = map_option (record_of db) (find (of_run tenant i) (db_runs db))"
  by (simp add: owned_def store_of_def find_of_run [OF assms] record_of_def split: option.split)

lemma pg_load_store_of:
  assumes "distinct (map rw_id (db_runs db))"
  shows "map_option fst (pg_load tenant i db) = store_get tenant i (store_of db)"
  using find_Some_in [of "of_run tenant i" "db_runs db"]
  by (auto simp: pg_load_def store_get_def owned_store_of [OF assms] snapshot_def record_of_def steps_of_run_def of_run_def
      split: option.split)

lemma schema_okD:
  assumes "schema_ok db"
  shows "distinct (map rw_id (db_runs db))"
    and "s \<in> set (db_steps db) \<Longrightarrow> row_of db (sw_run_id s) \<noteq> None"
    and "s \<in> set (db_steps db) \<Longrightarrow> row_of db (sw_run_id s) = Some r \<Longrightarrow> rw_tenant_id r = sw_tenant_id s"
    and "r \<in> set (db_runs db) \<Longrightarrow> status_word (rw_status r)"
    and "s \<in> set (db_steps db) \<Longrightarrow> status_word (sp_status (sw_step s))"
proof -
  show d: "distinct (map rw_id (db_runs db))" using assms by (simp add: schema_ok_def)
  show "s \<in> set (db_steps db) \<Longrightarrow> row_of db (sw_run_id s) \<noteq> None"
    using assms by (auto simp: schema_ok_def row_of_None)
  show "s \<in> set (db_steps db) \<Longrightarrow> row_of db (sw_run_id s) = Some r \<Longrightarrow> rw_tenant_id r = sw_tenant_id s"
  proof -
    assume s: "s \<in> set (db_steps db)" "row_of db (sw_run_id s) = Some r"
    from assms s(1) obtain r' where "r' \<in> set (db_runs db)" "rw_tenant_id r' = sw_tenant_id s" "rw_id r' = sw_run_id s"
      unfolding schema_ok_def by blast
    moreover from this row_of_iff [OF d] have "row_of db (sw_run_id s) = Some r'" by blast
    ultimately show ?thesis using s(2) by simp
  qed
  show "r \<in> set (db_runs db) \<Longrightarrow> status_word (rw_status r)"
    using assms by (simp add: schema_ok_def row_checks_def status_word_def)
  show "s \<in> set (db_steps db) \<Longrightarrow> status_word (sp_status (sw_step s))"
    using assms by (simp add: schema_ok_def status_word_def column_checks_def)
qed

lemma db_shapeD:
  assumes "db_shape db"
  shows "distinct (map rw_id (db_runs db))"
    and "row_of db i = Some r \<Longrightarrow> i \<noteq> [] \<and> (rw_cancelled r \<longleftrightarrow> rw_status r = ''cancelled'')"
    and "row_of db i = Some r \<Longrightarrow> map sw_position (steps_of_run db (rw_tenant_id r) i) =
      map int [0..<length (steps_of_run db (rw_tenant_id r) i)]"
  using assms row_ofD [of db i r] by (auto simp: db_shape_def)

lemma db_okD:
  assumes "db_ok db"
  shows "schema_ok db" and "db_shape db" and "distinct (map rw_id (db_runs db))"
  using assms db_shapeD(1) by (auto simp: db_ok_def)

text \<open>The abstraction satisfies the invariant of the in-memory store.\<close>

lemma set_steps_of_run: "set (steps_of_run db tenant i) = {s \<in> set (db_steps db). of_steps tenant i s}"
  by (auto simp: steps_of_run_def)

lemma store_of_ok:
  assumes "db_ok db"
  shows "store_ok (store_of db)"
proof (rule store_okI)
  fix i r assume "ms_runs (store_of db) i = Some r"
  then obtain row where row: "row_of db i = Some row" "r = record_of db row" by (auto simp: store_of_def)
  with row_ofD [OF row(1)] db_shapeD(2) [OF db_okD(2) [OF assms] row(1)] schema_okD(4,5) [OF db_okD(1) [OF assms]]
  show "record_ok i r" by (auto simp: record_ok_def record_of_def set_steps_of_run)
next
  fix tenant key i assume "ms_idempotency (store_of db) (tenant, key) = Some i"
  then obtain row where "find (\<lambda>r. rw_tenant_id r = tenant \<and> rw_idempotency_key r = key) (db_runs db) = Some row" "i = rw_id row"
    by (auto simp: store_of_def)
  with find_Some_in [OF this(1)] row_of_iff [OF db_okD(3) [OF assms], of i row]
  show "\<exists>r. ms_runs (store_of db) i = Some r \<and> rr_tenant_id r = tenant" by (simp add: store_of_def record_of_def)
qed

end
