(* ===== verification/Postgres_Refinement.thy ===== *)
theory Postgres_Refinement
  imports Backend_Postgres
begin

text \<open>
  The production store refines the in-memory store: what the statements of each method do to the store behind
  the tables, that every transaction that commits gives the answer of the in-memory method and its result, and
  what follows for whole histories.
\<close>

subsection \<open>What an update does to the store behind the tables\<close>

lemma update_runs_rows:
  assumes "distinct (map rw_id (db_runs db))" and "\<forall>r. P r \<longrightarrow> of_run tenant i r"
    and "\<And>r. rw_id (f r) = rw_id r \<and> rw_tenant_id (f r) = rw_tenant_id r \<and> rw_idempotency_key (f r) = rw_idempotency_key r"
    and "update_runs P f db = (b, db')"
  shows "row_of db' j = map_option (\<lambda>r. if P r then f r else r) (row_of db j)"
    and "ms_idempotency (store_of db') = ms_idempotency (store_of db)" and "steps_of_run db' = steps_of_run db"
    and "b \<longleftrightarrow> (\<exists>r. find (of_run tenant i) (db_runs db) = Some r \<and> P r)" and "\<not> b \<Longrightarrow> db' = db"
proof -
  have db': "db' = db\<lparr>db_runs := map (\<lambda>r. if P r then f r else r) (db_runs db)\<rparr>" and b: "b \<longleftrightarrow> (\<exists>r \<in> set (db_runs db). P r)"
    using assms(4) by (auto simp: update_runs_def update_rows_def list_ex_iff)
  show "row_of db' j = map_option (\<lambda>r. if P r then f r else r) (row_of db j)"
    by (simp add: db' row_of_def find_map assms(3) if_distrib cong: if_cong)
  show "ms_idempotency (store_of db') = ms_idempotency (store_of db)"
    by (auto simp: db' store_of_def find_map assms(3) if_distrib option.map_comp comp_def fun_eq_iff cong: if_cong)
  show "steps_of_run db' = steps_of_run db" by (simp add: db' steps_of_run_def fun_eq_iff)
  have "find (of_run tenant i) (db_runs db) = Some r" if "r \<in> set (db_runs db)" "P r" for r
    by (rule find_distinct [OF assms(1) that(1)]) (use assms(2) that(2) in \<open>auto simp: of_run_def\<close>)
  then show "b \<longleftrightarrow> (\<exists>r. find (of_run tenant i) (db_runs db) = Some r \<and> P r)"
    unfolding b by (auto dest: find_Some_in)
  show "\<not> b \<Longrightarrow> db' = db"
  proof -
    assume "\<not> b"
    then have "map (\<lambda>r. if P r then f r else r) (db_runs db) = db_runs db" unfolding b by (intro map_idI) auto
    then show ?thesis by (simp add: db')
  qed
qed

lemma update_steps_rows:
  assumes "update_steps P f db = (b, db')"
  shows "row_of db' = row_of db" and "ms_idempotency (store_of db') = ms_idempotency (store_of db)"
    and "steps_of_run db' tenant i =
      map (\<lambda>s. if P s then s\<lparr>sw_step := f (sw_step s)\<rparr> else s) (steps_of_run db tenant i)"
    and "b \<longleftrightarrow> (\<exists>s \<in> set (db_steps db). P s)" and "db_runs db' = db_runs db" and "\<not> b \<Longrightarrow> db' = db"
proof -
  let ?g = "\<lambda>s. if P s then s\<lparr>sw_step := f (sw_step s)\<rparr> else s"
  have db': "db' = db\<lparr>db_steps := map ?g (db_steps db)\<rparr>" and b: "b \<longleftrightarrow> (\<exists>s \<in> set (db_steps db). P s)"
    using assms by (auto simp: update_steps_def update_rows_def list_ex_iff)
  then show "row_of db' = row_of db" "ms_idempotency (store_of db') = ms_idempotency (store_of db)"
    "b \<longleftrightarrow> (\<exists>s \<in> set (db_steps db). P s)" "db_runs db' = db_runs db"
    by (simp_all add: row_of_def store_of_def fun_eq_iff)
  have "of_steps tenant i \<circ> ?g = of_steps tenant i" by (rule ext) (simp add: of_steps_def)
  then show "steps_of_run db' tenant i = map ?g (steps_of_run db tenant i)"
    by (simp add: db' steps_of_run_def filter_map sort_key_map)
  show "\<not> b \<Longrightarrow> db' = db"
  proof -
    assume "\<not> b"
    then have "map ?g (db_steps db) = db_steps db" unfolding b by (intro map_idI) auto
    then show ?thesis by (simp add: db')
  qed
qed

text \<open>Two databases with the same store behind them, up to one run.\<close>

lemma store_of_update:
  assumes "ms_idempotency (store_of db') = ms_idempotency (store_of db)" and "row_of db' i = Some r"
    and "\<And>j. j \<noteq> i \<Longrightarrow> map_option (record_of db') (row_of db' j) = map_option (record_of db) (row_of db j)"
  shows "store_of db' = (store_of db)\<lparr>ms_runs := (ms_runs (store_of db))(i \<mapsto> record_of db' r)\<rparr>"
proof -
  have "ms_runs (store_of db') = (ms_runs (store_of db))(i \<mapsto> record_of db' r)"
    using assms(2,3) by (auto simp: store_of_def)
  with assms(1) show ?thesis by (intro run_store.equality) simp_all
qed

lemma update_live_store_of:
  assumes "distinct (map rw_id (db_runs db))"
  shows "update_live F tenant i (store_of db) =
     (case find (of_run tenant i) (db_runs db) of
        None \<Rightarrow> (False, store_of db)
      | Some r \<Rightarrow>
          if rw_cancelled r then (False, store_of db)
          else case F (record_of db r) of
                 None \<Rightarrow> (False, store_of db)
               | Some r' \<Rightarrow> (True, (store_of db)\<lparr>ms_runs := (ms_runs (store_of db))(i \<mapsto> r')\<rparr>))"
  by (simp add: update_live_def owned_store_of [OF assms] record_of_def split: option.split)

text \<open>
  A transaction that commits gives the answer of the in-memory store and leaves tables with its result behind
  them; one that fails leaves the tables alone.
\<close>

definition commits_as :: "(db_error, 'a) result \<times> run_db \<Rightarrow> run_db \<Rightarrow> 'a \<times> run_store \<Rightarrow> bool" where
  "commits_as out db mem \<longleftrightarrow>
     (case out of (Inl _, db') \<Rightarrow> db' = db | (Inr a, db') \<Rightarrow> db_ok db' \<and> (a, store_of db') = mem)"

lemma commits_asI:
  assumes "schema_ok db' \<Longrightarrow> db_ok db' \<and> (a, store_of db') = mem"
  shows "commits_as (commit a db db') db mem"
  using assms by (simp add: commits_as_def commit_def)

lemma with_texts_commits: "commits_as (m db) db mem \<Longrightarrow> commits_as (with_texts texts m db) db mem"
  by (simp add: with_texts_def commits_as_def)

text \<open>A method of the in-memory store, as far as the run is in the status \<open>from\<close>.\<close>

definition guarded :: "string \<Rightarrow> (run_store \<Rightarrow> bool \<times> run_store) \<Rightarrow> string \<Rightarrow> string \<Rightarrow> run_store \<Rightarrow> bool \<times> run_store" where
  "guarded from meth tenant i S =
     (case owned tenant i S of
        None \<Rightarrow> (False, S) | Some r \<Rightarrow> if rr_status r = from then meth S else (False, S))"

text \<open>An update of one run row.\<close>

lemma update_runs_shape:
  assumes "db_shape db" and "\<forall>r. P r \<longrightarrow> of_run tenant i r"
    and "\<And>r. rw_id (f r) = rw_id r \<and> rw_tenant_id (f r) = rw_tenant_id r \<and> rw_idempotency_key (f r) = rw_idempotency_key r"
    and "\<forall>r. P r \<and> rw_cancelled r = (rw_status r = ''cancelled'') \<longrightarrow> rw_cancelled (f r) = (rw_status (f r) = ''cancelled'')"
    and "update_runs P f db = (b, db')"
  shows "db_shape db'"
    and "find (of_run tenant i) (db_runs db) = Some r \<Longrightarrow> P r \<Longrightarrow> b \<and> row_of db' i = Some (f r) \<and>
      store_of db' = (store_of db)\<lparr>ms_runs := (ms_runs (store_of db))(i \<mapsto> record_of db (f r))\<rparr>"
proof -
  note ids = db_shapeD(1) [OF assms(1)]
  note rows = update_runs_rows [OF ids assms(2,3,5)]
  have recs: "record_of db' = record_of db" by (simp add: record_of_def rows(3) fun_eq_iff)
  have "map rw_id (db_runs db') = map rw_id (db_runs db)"
    using assms(3,5) by (auto simp: update_runs_def update_rows_def)
  with ids have ids': "distinct (map rw_id (db_runs db'))" by simp
  show "db_shape db'"
    unfolding db_shape_def
  proof (intro conjI ballI)
    fix r assume "r \<in> set (db_runs db')"
    then have "row_of db' (rw_id r) = Some r" using row_of_iff [OF ids'] by simp
    with rows(1) [of "rw_id r"] obtain r0 where r0: "row_of db (rw_id r) = Some r0" "r = (if P r0 then f r0 else r0)"
      by (cases "row_of db (rw_id r)") simp_all
    note old = db_shapeD(2,3) [OF assms(1) r0(1)]
    from old(1) show "rw_id r \<noteq> []" by simp
    from old(1) r0(2) assms(4) show "rw_cancelled r = (rw_status r = ''cancelled'')" by (cases "P r0") auto
    from old(2) r0 assms(3) show "map sw_position (steps_of_run db' (rw_tenant_id r) (rw_id r)) =
        map int [0..<length (steps_of_run db' (rw_tenant_id r) (rw_id r))]"
      by (cases "P r0") (simp_all add: rows(3))
  qed (rule ids')
  assume r: "find (of_run tenant i) (db_runs db) = Some r" "P r"
  then have "row_of db i = Some r" by (auto simp: find_of_run [OF ids] split: option.splits if_splits)
  then have row: "row_of db' i = Some (f r)" using rows(1) [of i] r(2) by simp
  have other: "map_option (record_of db') (row_of db' j) = map_option (record_of db) (row_of db j)" if "j \<noteq> i" for j
  proof -
    have "\<not> P q" if "row_of db j = Some q" for q using that row_ofD [OF that] assms(2) \<open>j \<noteq> i\<close> by (auto simp: of_run_def)
    then have "row_of db' j = row_of db j" using rows(1) [of j] by (cases "row_of db j") auto
    then show ?thesis by (simp add: recs)
  qed
  from store_of_update [OF rows(2) row other] r rows(4) row
  show "b \<and> row_of db' i = Some (f r) \<and>
      store_of db' = (store_of db)\<lparr>ms_runs := (ms_runs (store_of db))(i \<mapsto> record_of db (f r))\<rparr>"
    by (auto simp: recs)
qed

text \<open>An update of steps of one run that has a row.\<close>

lemma update_steps_shape:
  assumes "db_shape db" and "\<forall>s. P s \<longrightarrow> of_steps tenant i s" and "find (of_run tenant i) (db_runs db) = Some r"
    and "update_steps P f db = (b, db')"
  shows "db_shape db'" and "store_of db' = (store_of db)\<lparr>ms_runs := (ms_runs (store_of db))(i \<mapsto> (record_of db r)\<lparr>rr_steps :=
      map (\<lambda>s. if P s then f (sw_step s) else sw_step s) (steps_of_run db tenant i)\<rparr>)\<rparr>"
proof -
  let ?g = "\<lambda>s. if P s then s\<lparr>sw_step := f (sw_step s)\<rparr> else s"
  note rows = update_steps_rows [OF assms(4)]
  have pos: "map sw_position (map ?g ss) = map sw_position ss" for ss by (simp add: comp_def)
  show "db_shape db'"
    using assms(1) by (simp add: db_shape_def rows(3,5) pos del: map_map)
  from assms(3) have r: "row_of db i = Some r" "rw_tenant_id r = tenant" "rw_id r = i"
    by (auto simp: find_of_run [OF db_shapeD(1) [OF assms(1)]] dest: row_ofD split: option.splits if_splits)
  have "record_of db' r = (record_of db r)\<lparr>rr_steps :=
      map (\<lambda>s. if P s then f (sw_step s) else sw_step s) (steps_of_run db tenant i)\<rparr>"
    using r(2,3) by (simp add: record_of_def rows(3) comp_def if_distrib cong: if_cong)
  moreover have "map_option (record_of db') (row_of db' j) = map_option (record_of db) (row_of db j)" if "j \<noteq> i" for j
  proof -
    have "map ?g (steps_of_run db t j) = steps_of_run db t j" for t
      using assms(2) that by (intro map_idI) (auto simp: set_steps_of_run of_steps_def)
    then have "record_of db' q = record_of db q" if "row_of db j = Some q" for q
      using row_ofD [OF that] by (simp add: record_of_def rows(3) del: map_map)
    then show ?thesis by (cases "row_of db j") (simp_all add: rows(1))
  qed
  ultimately show "store_of db' = (store_of db)\<lparr>ms_runs := (ms_runs (store_of db))(i \<mapsto> (record_of db r)\<lparr>rr_steps :=
      map (\<lambda>s. if P s then f (sw_step s) else sw_step s) (steps_of_run db tenant i)\<rparr>)\<rparr>"
    using store_of_update [OF rows(2), of i r] r(1) by (simp add: rows(1))
qed

lemma find_row:
  assumes "db_shape db" and "find (of_run tenant i) (db_runs db) = Some r"
  shows "rw_id r = i" and "rw_tenant_id r = tenant" and "row_of db i = Some r" and "rw_cancelled r = (rw_status r = ''cancelled'')"
proof -
  from assms show "row_of db i = Some r" "rw_id r = i" "rw_tenant_id r = tenant"
    by (auto simp: find_of_run [OF db_shapeD(1) [OF assms(1)]] dest: row_ofD split: option.splits if_splits)
  with db_shapeD(2) [OF assms(1), of i r] show "rw_cancelled r = (rw_status r = ''cancelled'')" by simp
qed

lemma guarded_update_live:
  assumes "db_shape db" and "from \<noteq> ''cancelled''"
  shows "guarded from (update_live F tenant i) tenant i (store_of db) =
     (case find (of_run tenant i) (db_runs db) of
        None \<Rightarrow> (False, store_of db)
      | Some r \<Rightarrow>
          if rw_status r = from then
            (case F (record_of db r) of
               None \<Rightarrow> (False, store_of db)
             | Some r' \<Rightarrow> (True, (store_of db)\<lparr>ms_runs := (ms_runs (store_of db))(i \<mapsto> r')\<rparr>))
          else (False, store_of db))"
proof (cases "find (of_run tenant i) (db_runs db)")
  case None
  then show ?thesis by (simp add: guarded_def owned_store_of [OF db_shapeD(1) [OF assms(1)]])
next
  case (Some r)
  with find_row(4) [OF assms(1) Some] assms(2) show ?thesis
    by (simp add: guarded_def owned_store_of [OF db_shapeD(1) [OF assms(1)]] update_live_store_of [OF db_shapeD(1) [OF assms(1)]]
        record_of_def)
qed

text \<open>\<open>start\<close>, \<open>succeed\<close> and the first statement of \<open>fail\<close>.\<close>

lemma run_update_shape:
  assumes "db_shape db" and "from \<noteq> ''cancelled''" and "run_update from f tenant i db = (b, db')"
    and f: "\<And>r. rw_id (f r) = rw_id r \<and> rw_tenant_id (f r) = rw_tenant_id r \<and> rw_idempotency_key (f r) = rw_idempotency_key r"
      "\<And>r. rw_cancelled (f r) = rw_cancelled r \<and> rw_status (f r) \<noteq> ''cancelled''"
  shows "db_shape db'" and "\<not> b \<Longrightarrow> db' = db"
    and "b \<longleftrightarrow> (\<exists>r. find (of_run tenant i) (db_runs db) = Some r \<and> rw_status r = from)"
    and "find (of_run tenant i) (db_runs db) = Some r \<Longrightarrow> rw_status r = from \<Longrightarrow> row_of db' i = Some (f r) \<and>
      store_of db' = (store_of db)\<lparr>ms_runs := (ms_runs (store_of db))(i \<mapsto> record_of db (f r))\<rparr>"
proof -
  let ?P = "\<lambda>r. of_run tenant i r \<and> \<not> rw_cancelled r \<and> rw_status r = from"
  have P: "\<forall>r. ?P r \<longrightarrow> of_run tenant i r" by blast
  have f2: "\<forall>r. ?P r \<and> rw_cancelled r = (rw_status r = ''cancelled'') \<longrightarrow> rw_cancelled (f r) = (rw_status (f r) = ''cancelled'')"
    using f(2) by blast
  note up = assms(3) [unfolded run_update_def]
  note shape = update_runs_shape [where P = ?P and f = f, OF assms(1) P f(1) f2 up]
  note rows = update_runs_rows [where P = ?P and f = f, OF db_shapeD(1) [OF assms(1)] P f(1) up]
  show "db_shape db'" by (rule shape(1))
  show "\<not> b \<Longrightarrow> db' = db" by (rule rows(5))
  have row: "?P r \<longleftrightarrow> rw_status r = from" if "find (of_run tenant i) (db_runs db) = Some r" for r
    using find_row(1,2,4) [OF assms(1) that] assms(2) by (auto simp: of_run_def)
  with rows(4) show "b \<longleftrightarrow> (\<exists>r. find (of_run tenant i) (db_runs db) = Some r \<and> rw_status r = from)" by blast
  show "find (of_run tenant i) (db_runs db) = Some r \<Longrightarrow> rw_status r = from \<Longrightarrow> row_of db' i = Some (f r) \<and>
      store_of db' = (store_of db)\<lparr>ms_runs := (ms_runs (store_of db))(i \<mapsto> record_of db (f r))\<rparr>"
    using shape(2) row by blast
qed

lemma run_update_commits:
  assumes "db_ok db" and "from \<noteq> ''cancelled''" and "run_update from f tenant i db = (b, db')"
    and f: "\<And>r. rw_id (f r) = rw_id r \<and> rw_tenant_id (f r) = rw_tenant_id r \<and> rw_idempotency_key (f r) = rw_idempotency_key r"
      "\<And>r. rw_cancelled (f r) = rw_cancelled r \<and> rw_status (f r) \<noteq> ''cancelled''"
    and F: "\<And>r. F (record_of db r) = Some (record_of db (f r))"
  shows "commits_as (commit b db db') db (guarded from (update_live F tenant i) tenant i (store_of db))"
proof (rule commits_asI)
  assume "schema_ok db'"
  note shape = run_update_shape [where f = f, OF db_okD(2) [OF assms(1)] assms(2,3) f]
  have "(b, store_of db') = guarded from (update_live F tenant i) tenant i (store_of db)"
  proof (cases "\<exists>r. find (of_run tenant i) (db_runs db) = Some r \<and> rw_status r = from")
    case True
    then obtain r where r: "find (of_run tenant i) (db_runs db) = Some r" "rw_status r = from" by blast
    with shape(3) shape(4) [OF r] F [of r] show ?thesis
      by (simp add: guarded_update_live [OF db_okD(2) [OF assms(1)] assms(2)])
  next
    case False
    with shape(2,3) show ?thesis
      by (auto simp: guarded_update_live [OF db_okD(2) [OF assms(1)] assms(2)] split: option.split)
  qed
  with shape(1) \<open>schema_ok db'\<close> show "db_ok db' \<and> (b, store_of db') = guarded from (update_live F tenant i) tenant i (store_of db)"
    by (simp add: db_ok_def)
qed

lemma record_of_update [simp]:
  "record_of db (r\<lparr>rw_status := s, rw_summary := m\<rparr>) = (record_of db r)\<lparr>rr_status := s, rr_summary := m\<rparr>"
  "record_of db (r\<lparr>rw_status := s, rw_summary := m, rw_finished_at := t\<rparr>) = (record_of db r)\<lparr>rr_status := s, rr_summary := m\<rparr>"
  "record_of db (r\<lparr>rw_runtime_run_id := x\<rparr>) = (record_of db r)\<lparr>rr_runtime_run_id := x\<rparr>"
  "record_of db (r\<lparr>rw_cancelled := c\<rparr>) = (record_of db r)\<lparr>rr_cancelled := c\<rparr>"
  by (simp_all add: record_of_def)

lemma pg_start_commits:
  assumes "db_ok db" and "U run_id = Some i"
  shows "commits_as (pg_start U tenant run_id db) db (guarded ''queued'' (store_start tenant i) tenant i (store_of db))"
proof -
  let ?f = "\<lambda>r. r\<lparr>rw_status := ''running'', rw_summary := ''execution running''\<rparr>"
  obtain b db' where up: "run_update ''queued'' ?f tenant i db = (b, db')" by fastforce
  have "commits_as (commit b db db') db (guarded ''queued'' (store_start tenant i) tenant i (store_of db))"
    unfolding store_start_def by (rule run_update_commits [OF assms(1) _ up]) simp_all
  then show ?thesis by (simp add: pg_start_def with_uuid_def assms(2) up)
qed

lemma pg_succeed_commits:
  assumes "db_ok db" and "U run_id = Some i"
  shows "commits_as (pg_succeed now U tenant run_id db) db (guarded ''running'' (store_succeed tenant i) tenant i (store_of db))"
proof -
  let ?f = "\<lambda>r. r\<lparr>rw_status := ''succeeded'', rw_summary := ''execution completed'', rw_finished_at := Some now\<rparr>"
  obtain b db' where up: "run_update ''running'' ?f tenant i db = (b, db')" by fastforce
  have "commits_as (commit b db db') db (guarded ''running'' (store_succeed tenant i) tenant i (store_of db))"
    unfolding store_succeed_def by (rule run_update_commits [OF assms(1) _ up]) simp_all
  then show ?thesis by (simp add: pg_succeed_def with_uuid_def assms(2) up)
qed

lemma pg_set_runtime_commits:
  assumes "db_ok db" and "U run_id = Some i"
  shows "commits_as (pg_set_runtime_run_id U runtime tenant run_id db) db (store_set_runtime_run_id runtime tenant i (store_of db))"
proof -
  let ?P = "\<lambda>r. of_run tenant i r \<and> \<not> rw_cancelled r" and ?f = "\<lambda>r. r\<lparr>rw_runtime_run_id := Some runtime\<rparr>"
  note shape = db_okD(2) [OF assms(1)] and ids = db_okD(3) [OF assms(1)]
  obtain b db' where up: "update_runs ?P ?f db = (b, db')" by fastforce
  have P: "\<forall>r. ?P r \<longrightarrow> of_run tenant i r" and f: "rw_id (?f r) = rw_id r \<and> rw_tenant_id (?f r) = rw_tenant_id r \<and>
      rw_idempotency_key (?f r) = rw_idempotency_key r" for r
    by simp_all
  have f2: "\<forall>r. ?P r \<and> rw_cancelled r = (rw_status r = ''cancelled'') \<longrightarrow> rw_cancelled (?f r) = (rw_status (?f r) = ''cancelled'')"
    by auto
  note rows = update_runs_rows [where P = ?P and f = ?f, OF ids P f up]
  note upd = update_runs_shape [where P = ?P and f = ?f, OF shape P f f2 up]
  have "(b, store_of db') = store_set_runtime_run_id runtime tenant i (store_of db)"
  proof (cases "\<exists>r. find (of_run tenant i) (db_runs db) = Some r \<and> \<not> rw_cancelled r")
    case True
    then obtain r where r: "find (of_run tenant i) (db_runs db) = Some r" "\<not> rw_cancelled r" by blast
    with upd(2) [OF r(1)] find_Some_in [OF r(1)] show ?thesis
      by (simp add: store_set_runtime_run_id_def update_live_store_of [OF ids])
  next
    case False
    with rows(4,5) show ?thesis
      by (auto simp: store_set_runtime_run_id_def update_live_store_of [OF ids] split: option.split)
  qed
  with upd(1) show ?thesis
    by (auto simp: pg_set_runtime_run_id_def with_uuid_def assms(2) up db_ok_def intro!: with_texts_commits commits_asI)
qed

lemma steps_of_row: "find (of_run tenant i) (db_runs db) = Some r \<Longrightarrow> rr_steps (record_of db r) = map sw_step (steps_of_run db tenant i)"
  using find_Some_in [of "of_run tenant i" "db_runs db" r] by (simp add: record_of_def of_run_def)

lemma map_of_steps:
  "map (\<lambda>s. if of_steps tenant i s \<and> Q (sw_step s) then f (sw_step s) else sw_step s) (steps_of_run db tenant i) =
     map (\<lambda>s. if Q s then f s else s) (map sw_step (steps_of_run db tenant i))"
  by (simp add: set_steps_of_run)

lemma pg_fail_commits:
  assumes "db_ok db" and "U run_id = Some i"
  shows "commits_as (pg_fail now U error tenant run_id db) db (guarded ''running'' (store_fail error tenant i) tenant i (store_of db))"
proof -
  let ?f = "\<lambda>r. r\<lparr>rw_status := ''failed'', rw_summary := error, rw_finished_at := Some now\<rparr>"
  let ?g = "\<lambda>s. s\<lparr>sp_status := ''cancelled''\<rparr>"
  let ?Q = "\<lambda>s. of_steps tenant i s \<and> sp_status (sw_step s) = ''queued''"
  obtain b db1 where up: "run_update ''running'' ?f tenant i db = (b, db1)" by fastforce
  note shape = run_update_shape [where f = ?f, OF db_okD(2) [OF assms(1)] _ up, simplified]
  define db2 where "db2 = (if b then snd (update_steps ?Q ?g db1) else db1)"
  have "db_shape db2 \<and> (b, store_of db2) = guarded ''running'' (store_fail error tenant i) tenant i (store_of db)"
  proof (cases b)
    case True
    then obtain r where r: "find (of_run tenant i) (db_runs db) = Some r" "rw_status r = ''running''"
      using shape(3) by blast
    note row = shape(4) [OF r]
    obtain c db3 where steps: "update_steps ?Q ?g db1 = (c, db3)" by fastforce
    have "find (of_run tenant i) (db_runs db1) = Some (?f r)"
      using row find_row(2) [OF db_okD(2) [OF assms(1)] r(1)] by (simp add: find_of_run [OF db_shapeD(1) [OF shape(1)]])
    note upd = update_steps_shape [OF shape(1) _ this steps, simplified]
    have "steps_of_run db1 = steps_of_run db"
      using up by (auto simp: run_update_def update_runs_def steps_of_run_def update_rows_def fun_eq_iff)
    then have recs: "record_of db1 = record_of db" by (simp add: record_of_def fun_eq_iff)
    have "store_of db3 = (store_of db)\<lparr>ms_runs := (ms_runs (store_of db))(i \<mapsto> (record_of db r)\<lparr>rr_status := ''failed'',
        rr_summary := error, rr_steps := map (\<lambda>s. if sp_status s = ''queued'' then ?g s else s) (rr_steps (record_of db r))\<rparr>)\<rparr>"
      unfolding steps_of_row [OF r(1)] map_of_steps [of tenant i "\<lambda>s. sp_status s = ''queued''" ?g db, symmetric]
      using upd(2) row by (simp add: recs \<open>steps_of_run db1 = steps_of_run db\<close>)
    moreover have "db2 = db3" using True by (simp add: db2_def steps)
    ultimately show ?thesis
      using upd(1) True r by (simp add: store_fail_def guarded_update_live [OF db_okD(2) [OF assms(1)]])
  next
    case False
    with shape(1-3) show ?thesis
      by (auto simp: db2_def store_fail_def guarded_update_live [OF db_okD(2) [OF assms(1)]] split: option.split)
  qed
  then show ?thesis
    by (auto simp: pg_fail_def with_uuid_def assms(2) up db_ok_def simp flip: db2_def intro!: with_texts_commits commits_asI)
qed

text \<open>The updates of one step.\<close>

lemma run_live_iff:
  assumes "db_shape db" and "of_steps tenant i s"
  shows "run_live db s \<longleftrightarrow> (\<exists>r. find (of_run tenant i) (db_runs db) = Some r \<and> \<not> rw_cancelled r)"
proof -
  have "find (of_run tenant i) (db_runs db) = Some r" if "r \<in> set (db_runs db)" "of_run tenant i r" for r
    by (rule find_distinct [where k = rw_id and P = "of_run tenant i", OF db_shapeD(1) [OF assms(1)] that]) (use that in \<open>auto simp: of_run_def\<close>)
  moreover have "run_live db s \<longleftrightarrow> (\<exists>r \<in> set (db_runs db). of_run tenant i r \<and> \<not> rw_cancelled r)"
    using assms(2) by (auto simp: run_live_def list_ex_iff of_run_def of_steps_def)
  ultimately show ?thesis by (blast dest: find_Some_in)
qed

lemma positions_nth:
  assumes "db_shape db" and "find (of_run tenant i) (db_runs db) = Some r" and "k < length (steps_of_run db tenant i)"
  shows "sw_position (steps_of_run db tenant i ! k) = int k"
  using arg_cong [OF db_shapeD(3) [OF assms(1) find_row(3) [OF assms(1,2)]], of "\<lambda>xs. xs ! k"] assms(3)
    find_row(2) [OF assms(1,2)] by simp

lemma map_at_position:
  assumes "db_shape db" and "find (of_run tenant i) (db_runs db) = Some r" and "p < length (steps_of_run db tenant i)"
    and "\<not> rw_cancelled r"
  shows "map (\<lambda>s. if step_at db tenant i (int p) s \<and> Q (sw_step s) then f (sw_step s) else sw_step s) (steps_of_run db tenant i) =
     (let ss = map sw_step (steps_of_run db tenant i) in if Q (ss ! p) then ss[p := f (ss ! p)] else ss)"
proof (rule nth_equalityI)
  fix k assume "k < length (map (\<lambda>s. if step_at db tenant i (int p) s \<and> Q (sw_step s) then f (sw_step s) else sw_step s)
      (steps_of_run db tenant i))"
  then have k: "k < length (steps_of_run db tenant i)" by simp
  then have of: "of_steps tenant i (steps_of_run db tenant i ! k)"
    using nth_mem [of k "steps_of_run db tenant i"] by (simp add: set_steps_of_run)
  then have "step_at db tenant i (int p) (steps_of_run db tenant i ! k) \<longleftrightarrow> k = p"
    using assms(2,4) positions_nth [OF assms(1,2) k] by (auto simp: step_at_def run_live_iff [OF assms(1) of])
  with k assms(3) show "map (\<lambda>s. if step_at db tenant i (int p) s \<and> Q (sw_step s) then f (sw_step s) else sw_step s)
      (steps_of_run db tenant i) ! k =
      (let ss = map sw_step (steps_of_run db tenant i) in if Q (ss ! p) then ss[p := f (ss ! p)] else ss) ! k"
    by (auto simp: Let_def nth_list_update)
qed (simp add: Let_def)

lemma step_update_commits:
  assumes "db_ok db" and up: "update_steps (\<lambda>s. step_at db tenant i (int p) s \<and> Q (sw_step s)) f db = (b, db')"
    and p: "\<And>r. owned tenant i (store_of db) = Some r \<Longrightarrow> p < length (rr_steps r)"
    and F: "\<And>r. owned tenant i (store_of db) = Some r \<Longrightarrow> F r = (if Q (rr_steps r ! p) then Some (r\<lparr>rr_steps := (rr_steps r)[p := f (rr_steps r ! p)]\<rparr>) else None)"
  shows "commits_as (commit b db db') db (update_live F tenant i (store_of db))"
proof (rule commits_asI)
  assume schema: "schema_ok db'"
  let ?P = "\<lambda>s. step_at db tenant i (int p) s \<and> Q (sw_step s)"
  note shape = db_okD(2) [OF assms(1)] and ids = db_okD(3) [OF assms(1)]
  have P: "\<forall>s. ?P s \<longrightarrow> of_steps tenant i s" by (simp add: step_at_def)
  note rows = update_steps_rows [OF up]
  have "db_shape db' \<and> (b, store_of db') = update_live F tenant i (store_of db)"
  proof (cases "\<exists>r. find (of_run tenant i) (db_runs db) = Some r \<and> \<not> rw_cancelled r")
    case False
    then have "\<not> ?P s" for s using run_live_iff [OF shape, of tenant i s] by (auto simp: step_at_def)
    with rows(4,6) have "\<not> b" "db' = db" by blast+
    with shape False show ?thesis by (auto simp: update_live_store_of [OF ids] split: option.split)
  next
    case True
    then obtain r where r: "find (of_run tenant i) (db_runs db) = Some r" "\<not> rw_cancelled r" by blast
    let ?L = "steps_of_run db tenant i" and ?ss = "rr_steps (record_of db r)"
    have ss: "?ss = map sw_step ?L" by (rule steps_of_row [OF r(1)])
    have len: "p < length ?L" using p [of "record_of db r"] r(1) by (simp add: owned_store_of [OF ids] ss)
    note upd = update_steps_shape [OF shape P r(1) up]
    from upd(2) map_at_position [OF shape r(1) len r(2), of Q f]
    have store: "store_of db' = (store_of db)\<lparr>ms_runs := (ms_runs (store_of db))(i \<mapsto> (record_of db r)\<lparr>rr_steps :=
        (if Q (?ss ! p) then ?ss[p := f (?ss ! p)] else ?ss)\<rparr>)\<rparr>"
      by (simp add: Let_def ss)
    have b: "b \<longleftrightarrow> Q (?ss ! p)"
    proof
      assume "Q (?ss ! p)"
      moreover have at: "of_steps tenant i (?L ! p)" "?L ! p \<in> set (db_steps db)"
        using nth_mem [OF len] by (simp_all add: set_steps_of_run)
      moreover have "run_live db (?L ! p)" using run_live_iff [OF shape at(1)] r by blast
      ultimately show b using rows(4) positions_nth [OF shape r(1) len] len by (auto simp: step_at_def ss)
    next
      assume b
      with rows(4) obtain s where s: "s \<in> set (db_steps db)" "?P s" by blast
      then have "s \<in> set ?L" by (simp add: set_steps_of_run step_at_def)
      then obtain k where k: "k < length ?L" "s = ?L ! k" by (auto simp: in_set_conv_nth)
      with s(2) positions_nth [OF shape r(1) k(1)] have "k = p" by (simp add: step_at_def)
      with s(2) k show "Q (?ss ! p)" by (simp add: ss)
    qed
    have "owned tenant i (store_of db) = Some (record_of db r)" using r(1) by (simp add: owned_store_of [OF ids])
    note F' = F [OF this]
    show ?thesis
    proof (cases "Q (?ss ! p)")
      case True
      with upd(1) store b r show ?thesis by (simp add: update_live_store_of [OF ids] F')
    next
      case False
      with rows(6) b have "db' = db" by simp
      with shape False b r show ?thesis by (simp add: update_live_store_of [OF ids] F')
    qed
  qed
  with schema show "db_ok db' \<and> (b, store_of db') = update_live F tenant i (store_of db)" by (simp add: db_ok_def)
qed

lemma pg_start_step_commits:
  assumes "db_ok db" and "U run_id = Some i" and "\<And>r. owned tenant i (store_of db) = Some r \<Longrightarrow> p < length (rr_steps r)"
  shows "commits_as (pg_start_step U (int p) tenant run_id db) db (store_start_step p tenant i (store_of db))"
proof -
  let ?Q = "\<lambda>s. sp_status s \<in> {''queued'', ''failed''}"
  let ?f = "\<lambda>s. s\<lparr>sp_status := ''running'', sp_attempts := sp_attempts s + 1, sp_error := []\<rparr>"
  obtain b db' where up: "update_steps (\<lambda>s. step_at db tenant i (int p) s \<and> ?Q (sw_step s)) ?f db = (b, db')" by fastforce
  have "commits_as (commit b db db') db (store_start_step p tenant i (store_of db))"
    unfolding store_start_step_def by (rule step_update_commits [OF assms(1) up assms(3)]) (auto simp: Let_def)
  then show ?thesis unfolding pg_start_step_def with_uuid_def assms(2) by (simp only: option.case up prod.case)
qed

lemma pg_fail_step_commits:
  assumes "db_ok db" and "U run_id = Some i" and "\<And>r. owned tenant i (store_of db) = Some r \<Longrightarrow> p < length (rr_steps r)"
  shows "commits_as (pg_fail_step U (int p) error tenant run_id db) db (store_fail_step p error tenant i (store_of db))"
proof -
  let ?f = "\<lambda>s. s\<lparr>sp_status := ''failed'', sp_error := error\<rparr>"
  obtain b db' where up: "update_steps (step_at db tenant i (int p)) ?f db = (b, db')" by fastforce
  then have up': "update_steps (\<lambda>s. step_at db tenant i (int p) s \<and> True) ?f db = (b, db')" by simp
  have "commits_as (commit b db db') db (store_fail_step p error tenant i (store_of db))"
    unfolding store_fail_step_def by (rule step_update_commits [where Q = "\<lambda>_. True", OF assms(1) up' assms(3)]) auto
  then show ?thesis
    unfolding pg_fail_step_def with_uuid_def assms(2) by (intro with_texts_commits) (simp only: option.case up prod.case)
qed

lemma pg_mock_output_at:
  assumes "db_ok db" and "find (of_run tenant i) (db_runs db) = Some r" and "p < length (steps_of_run db tenant i)"
  shows "pg_mock_output tenant i (int p) db =
     Some (''mock execution completed step '' @ sp_node_id (rr_steps (record_of db r) ! p))"
proof -
  let ?s = "steps_of_run db tenant i ! p"
  have s: "?s \<in> set (db_steps db)" "of_steps tenant i ?s" "sw_position ?s = int p"
    using nth_mem [OF assms(3)] positions_nth [OF db_okD(2) [OF assms(1)] assms(2,3)] by (simp_all add: set_steps_of_run)
  have "distinct (map (\<lambda>s. (sw_run_id s, sw_position s)) (db_steps db))"
    using db_okD(1) [OF assms(1)] by (simp add: schema_ok_def)
  from find_distinct [OF this s(1), of "\<lambda>s. of_steps tenant i s \<and> sw_position s = int p"] s(2,3)
  have "find (\<lambda>s. of_steps tenant i s \<and> sw_position s = int p) (db_steps db) = Some ?s"
    by (auto simp: of_steps_def)
  then show ?thesis using assms(3) by (simp add: pg_mock_output_def steps_of_row [OF assms(2)])
qed

lemma pg_succeed_step_commits:
  assumes "db_ok db" and "U run_id = Some i" and p: "\<And>r. owned tenant i (store_of db) = Some r \<Longrightarrow> p < length (rr_steps r)"
  shows "commits_as (pg_succeed_step U (int p) answer latency inputs outputs tenant run_id db) db
     (store_succeed_step p answer latency inputs outputs tenant i (store_of db))"
proof (cases "if or_empty answer \<noteq> [] then answer else pg_mock_output tenant i (int p) db")
  case None
  then show ?thesis by (simp add: pg_succeed_step_def with_texts_def with_uuid_def assms(2) commits_as_def split: if_splits)
next
  case (Some out)
  let ?f = "\<lambda>s. s\<lparr>sp_status := ''succeeded'', sp_output := out, sp_latency_ms := latency, sp_input_tokens := inputs,
      sp_output_tokens := outputs\<rparr>"
  obtain b db' where up: "update_steps (step_at db tenant i (int p)) ?f db = (b, db')" by fastforce
  then have up': "update_steps (\<lambda>s. step_at db tenant i (int p) s \<and> True) ?f db = (b, db')" by simp
  have out: "out = (if or_empty answer = [] then ''mock execution completed step '' @ sp_node_id (rr_steps r ! p) else or_empty answer)"
    if r: "owned tenant i (store_of db) = Some r" for r
  proof -
    from r obtain row where row: "find (of_run tenant i) (db_runs db) = Some row" "r = record_of db row"
      by (auto simp: owned_store_of [OF db_okD(3) [OF assms(1)]])
    have "p < length (steps_of_run db tenant i)" using p [OF r] by (simp add: row(2) steps_of_row [OF row(1)])
    from pg_mock_output_at [OF assms(1) row(1) this] Some show ?thesis
      by (auto simp: row(2) or_empty_def split: if_splits option.splits)
  qed
  have "commits_as (commit b db db') db (store_succeed_step p answer latency inputs outputs tenant i (store_of db))"
    unfolding store_succeed_step_def
    by (rule step_update_commits [where Q = "\<lambda>_. True", OF assms(1) up' p]) (simp_all add: Let_def flip: out)
  then show ?thesis
    unfolding pg_succeed_step_def with_uuid_def assms(2)
    by (intro with_texts_commits) (simp only: option.case Some up prod.case)
qed

lemma pg_cancel_commits:
  assumes "db_ok db" and "U run_id = Some i"
  shows "commits_as (map_prod (map_sum id (map_option fst)) id (pg_cancel now U tenant run_id db)) db
     (store_cancel tenant i (store_of db))"
proof -
  let ?P = "\<lambda>r. of_run tenant i r \<and> rw_status r \<notin> {''succeeded'', ''failed'', ''cancelled''}"
  let ?f = "\<lambda>r. r\<lparr>rw_cancelled := True, rw_status := ''cancelled'', rw_summary := ''cancelled by API request'',
      rw_finished_at := Some now\<rparr>"
  let ?g = "\<lambda>s. s\<lparr>sp_status := ''cancelled''\<rparr>"
  let ?Q = "\<lambda>s. of_steps tenant i s \<and> sp_status (sw_step s) \<in> {''queued'', ''running''}"
  note shape = db_okD(2) [OF assms(1)] and ids = db_okD(3) [OF assms(1)]
  obtain b db1 where up: "update_runs ?P ?f db = (b, db1)" by fastforce
  have P: "\<forall>r. ?P r \<longrightarrow> of_run tenant i r" and f: "rw_id (?f r) = rw_id r \<and> rw_tenant_id (?f r) = rw_tenant_id r \<and>
      rw_idempotency_key (?f r) = rw_idempotency_key r" for r
    by simp_all
  have f2: "\<forall>r. ?P r \<and> rw_cancelled r = (rw_status r = ''cancelled'') \<longrightarrow> rw_cancelled (?f r) = (rw_status (?f r) = ''cancelled'')"
    by simp
  note rows = update_runs_rows [where P = ?P and f = ?f, OF ids P f up]
  note upd = update_runs_shape [where P = ?P and f = ?f, OF shape P f f2 up]
  define db2 where "db2 = (if b then snd (update_steps ?Q ?g db1) else db1)"
  have db2: "db_shape db2 \<and> store_of db2 = snd (store_cancel tenant i (store_of db)) \<and>
      fst (store_cancel tenant i (store_of db)) = store_get tenant i (store_of db2)"
  proof (cases "\<exists>r. find (of_run tenant i) (db_runs db) = Some r \<and> ?P r")
    case True
    then obtain r where r: "find (of_run tenant i) (db_runs db) = Some r" "?P r" by blast
    note row = upd(2) [OF r]
    obtain c db3 where steps: "update_steps ?Q ?g db1 = (c, db3)" by fastforce
    have "find (of_run tenant i) (db_runs db1) = Some (?f r)"
      using row find_row(2) [OF shape r(1)] by (simp add: find_of_run [OF db_shapeD(1) [OF upd(1)]])
    note upd3 = update_steps_shape [OF upd(1) _ this steps, simplified]
    have recs: "record_of db1 = record_of db" using rows(3) by (simp add: record_of_def fun_eq_iff)
    have cancelled: "cancelled_record (record_of db r) = (record_of db r)\<lparr>rr_cancelled := True, rr_status := ''cancelled'',
        rr_summary := ''cancelled by API request'', rr_steps := map (\<lambda>s. if sp_status s \<in> {''queued'', ''running''} then ?g s else s)
          (rr_steps (record_of db r))\<rparr>"
      using r(2) by (simp add: cancelled_record_def terminal_status_def record_of_def)
    have "store_of db3 = (store_of db)\<lparr>ms_runs := (ms_runs (store_of db))(i \<mapsto> cancelled_record (record_of db r))\<rparr>"
      unfolding cancelled steps_of_row [OF r(1)]
        map_of_steps [of tenant i "\<lambda>s. sp_status s \<in> {''queued'', ''running''}" ?g db, symmetric]
      using upd3(2) row by (simp add: recs rows(3))
    moreover have "db2 = db3" using conjunct1 [OF row] by (simp only: db2_def steps if_True snd_conv)
    moreover have "rr_tenant_id (record_of db r) = tenant" using find_row(2) [OF shape r(1)] by (simp add: record_of_def)
    ultimately show ?thesis
      using upd3(1) r by (simp add: store_cancel_def owned_store_of [OF ids]) (simp add: store_get_def owned_def)
  next
    case False
    then have "\<not> b" unfolding rows(4) .
    with rows(5) have "db1 = db" .
    with \<open>\<not> b\<close> have "db2 = db" by (simp only: db2_def if_False)
    have "cancelled_record (record_of db r) = record_of db r" if "find (of_run tenant i) (db_runs db) = Some r" for r
      using False that find_Some_in [OF that] by (auto simp: cancelled_record_def terminal_status_def record_of_def)
    moreover have "(store_of db)\<lparr>ms_runs := (ms_runs (store_of db))(i \<mapsto> record_of db r)\<rparr> = store_of db"
      if "find (of_run tenant i) (db_runs db) = Some r" for r
      using find_row(3) [OF shape that] by (intro run_store.equality) (simp_all add: store_of_def fun_upd_idem)
    ultimately show ?thesis
      using shape by (auto simp: \<open>db2 = db\<close> store_cancel_def owned_store_of [OF ids] store_get_def split: option.split)
  qed
  have "map_option fst (pg_load tenant i db2) = store_get tenant i (store_of db2)"
    by (rule pg_load_store_of) (use db2 db_shapeD(1) in blast)
  moreover have "pg_cancel now U tenant run_id db = commit (pg_load tenant i db2) db db2"
    by (simp only: pg_cancel_def with_uuid_def assms(2) option.case up prod.case db2_def Let_def)
  ultimately show ?thesis
    using db2 by (auto simp: commit_def commits_as_def db_ok_def prod_eq_iff)
qed

lemma pg_get_answer:
  assumes "db_ok db" and "U run_id = Some i"
  shows "map_prod (map_sum id (map_option fst)) id (pg_get U tenant run_id db) = (Inr (store_get tenant i (store_of db)), db)"
  by (simp add: pg_get_def with_uuid_def assms(2) pg_load_store_of [OF db_okD(3) [OF assms(1)]])

text \<open>An empty text in a column reads as none, which no caller can tell apart.\<close>

lemma pg_column_answer:
  assumes "db_ok db" and "U run_id = Some i" and "\<And>r. rr (record_of db r) = column r"
  shows "\<exists>v. pg_column column U tenant run_id db = (Inr v, db) \<and>
     or_empty v = or_empty (Option.bind (owned tenant i (store_of db)) rr)"
  by (cases "find (of_run tenant i) (db_runs db)")
     (simp_all add: pg_column_def with_uuid_def assms(2,3) owned_store_of [OF db_okD(3) [OF assms(1)]] or_empty_def)

subsection \<open>Submissions\<close>

lemma find_append: "find P (xs @ ys) = (case find P xs of None \<Rightarrow> find P ys | Some x \<Rightarrow> Some x)"
  by (induction xs) auto

lemma enumerate_positions: "map (\<lambda>q. int (fst q)) (enumerate n xs) = map int [n..<n + length xs]"
  by (metis (no_types, lifting) comp_apply map_fst_enumerate map_map map_cong)

text \<open>The rows a submission inserts.\<close>

definition inserted_rows :: "string \<Rightarrow> string \<Rightarrow> step_spec list \<Rightarrow> step_row list" where
  "inserted_rows run_id tenant specs = map (\<lambda>(position, spec).
     \<lparr>sw_run_id = run_id, sw_tenant_id = tenant, sw_position = int position, sw_step = new_step spec\<rparr>) (enumerate 0 specs)"

lemma inserted_rows_simps [simp]:
  "length (inserted_rows run_id tenant specs) = length specs"
  "map sw_position (inserted_rows run_id tenant specs) = map int [0..<length specs]"
  "map sw_step (inserted_rows run_id tenant specs) = map new_step specs"
  "sort_key sw_position (inserted_rows run_id tenant specs) = inserted_rows run_id tenant specs"
  "filter (of_steps t i) (inserted_rows run_id tenant specs) = (if t = tenant \<and> i = run_id then inserted_rows run_id tenant specs else [])"
proof -
  show "length (inserted_rows run_id tenant specs) = length specs" by (simp add: inserted_rows_def)
  show pos: "map sw_position (inserted_rows run_id tenant specs) = map int [0..<length specs]"
    using enumerate_positions [of 0 specs] by (simp add: inserted_rows_def comp_def case_prod_beta)
  have "map sw_step (inserted_rows run_id tenant specs) = map new_step (map snd (enumerate 0 specs))"
    unfolding inserted_rows_def map_map by (rule map_cong) (auto simp: comp_def)
  then show "map sw_step (inserted_rows run_id tenant specs) = map new_step specs" by (simp only: map_snd_enumerate)
  have "sorted (map sw_position (inserted_rows run_id tenant specs))"
    unfolding pos by (simp add: sorted_map sorted_wrt_upt sorted_wrt_mono_rel [OF _ sorted_wrt_upt])
  then show "sort_key sw_position (inserted_rows run_id tenant specs) = inserted_rows run_id tenant specs"
    by (rule sort_key_id_if_sorted)
  show "filter (of_steps t i) (inserted_rows run_id tenant specs) = (if t = tenant \<and> i = run_id then inserted_rows run_id tenant specs else [])"
    by (auto simp: inserted_rows_def filter_map of_steps_def comp_def case_prod_beta)
qed

lemma no_steps_without_row:
  assumes "schema_ok db" and "row_of db i = None"
  shows "filter (of_steps t i) (db_steps db) = []"
  unfolding filter_empty_conv of_steps_def using schema_okD(2) [OF assms(1)] assms(2) by blast

text \<open>What a submission answers, without the times.\<close>

definition submit_answer :: "loaded option \<times> bool \<Rightarrow> (run_snapshot \<times> bool) option" where
  "submit_answer a = map_option (\<lambda>l. (fst l, snd a)) (fst a)"

lemma pg_submit_commits:
  assumes "db_ok db" and "run_id \<noteq> []"
  shows "commits_as (map_prod (map_sum id submit_answer) id (pg_submit now run_id tenant task project key specs db)) db
     (store_submit run_id tenant task project key specs (store_of db))"
proof (cases "find (\<lambda>r. rw_tenant_id r = tenant \<and> rw_idempotency_key r = key) (db_runs db)")
  case (Some r)
  note r = find_Some_in [OF Some]
  have row: "row_of db (rw_id r) = Some r" using r row_of_iff [OF db_okD(3) [OF assms(1)]] by simp
  then have "rw_id r \<noteq> []" using db_shapeD(2) [OF db_okD(2) [OF assms(1)]] by blast
  moreover have "map_option fst (pg_load tenant (rw_id r) db) = Some (snapshot (record_of db r))"
    using r row by (simp add: pg_load_store_of [OF db_okD(3) [OF assms(1)]] store_get_def owned_def store_of_def record_of_def)
  ultimately show ?thesis
    using assms(1) Some row
    by (auto simp: pg_submit_def with_texts_def commits_as_def submit_answer_def store_submit_def store_of_def or_empty_def)
next
  case None
  let ?r = "\<lparr>rw_id = run_id, rw_tenant_id = tenant, rw_project_id = project, rw_idempotency_key = key, rw_task = task,
      rw_status = ''queued'', rw_summary = ''queued for execution'', rw_cancelled = False, rw_created_at = now,
      rw_finished_at = None, rw_runtime_run_id = None\<rparr>"
  define db' where "db' = \<lparr>db_runs = db_runs db @ [?r], db_steps = db_steps db @ inserted_rows run_id tenant specs\<rparr>"
  have out: "pg_submit now run_id tenant task project key specs db =
      (if list_all text_ok ([tenant, key, task] @ optional_text project) then commit (pg_load tenant run_id db', True) db db'
       else (Inl InvalidText, db))"
    using None by (simp add: pg_submit_def with_texts_def db'_def inserted_rows_def Let_def)
  have "db_ok db' \<and> (submit_answer (pg_load tenant run_id db', True), store_of db') =
      store_submit run_id tenant task project key specs (store_of db)" if schema: "schema_ok db'"
  proof -
    note ids = schema_okD(1) [OF schema]
    have fresh: "row_of db run_id = None"
      using ids by (auto simp: db'_def row_of_None)
    have row: "row_of db' j = (if j = run_id then Some ?r else row_of db j)" for j
      using fresh by (auto simp: db'_def row_of_def find_append split: option.split)
    have steps: "steps_of_run db' t j = (if t = tenant \<and> j = run_id then inserted_rows run_id tenant specs else steps_of_run db t j)"
      for t j
      using no_steps_without_row [OF db_okD(1) [OF assms(1)] fresh] by (auto simp: steps_of_run_def db'_def)
    have new: "record_of db' ?r = new_record run_id tenant task project specs"
      by (simp add: record_of_def new_record_def steps)
    have old: "record_of db' r = record_of db r" if "rw_id r \<noteq> run_id" for r
      using that by (simp add: record_of_def steps)
    have shape: "db_shape db'"
      unfolding db_shape_def
    proof (intro conjI ballI)
      fix r assume "r \<in> set (db_runs db')"
      then have r: "r = ?r \<or> r \<in> set (db_runs db) \<and> rw_id r \<noteq> run_id"
        using ids by (auto simp: db'_def)
      then have "r = ?r \<or> (row_of db (rw_id r) = Some r \<and> rw_id r \<noteq> run_id)"
        using row_of_iff [OF db_okD(3) [OF assms(1)]] by blast
      with db_shapeD(2,3) [OF db_okD(2) [OF assms(1)], of "rw_id r" r] assms(2)
      show "rw_id r \<noteq> []" "rw_cancelled r = (rw_status r = ''cancelled'')"
        "map sw_position (steps_of_run db' (rw_tenant_id r) (rw_id r)) =
          map int [0..<length (steps_of_run db' (rw_tenant_id r) (rw_id r))]"
        by (auto simp: steps)
    qed (rule ids)
    have runs: "ms_runs (store_of db') = (ms_runs (store_of db))(run_id \<mapsto> new_record run_id tenant task project specs)"
      using new old by (auto simp: store_of_def row fun_eq_iff map_option_case dest: row_ofD split: option.split)
    have keys: "ms_idempotency (store_of db') = (ms_idempotency (store_of db))((tenant, key) \<mapsto> run_id)"
      using None by (auto simp: store_of_def db'_def find_append fun_eq_iff split: option.split)
    have "map_option fst (pg_load tenant run_id db') = Some (snapshot (new_record run_id tenant task project specs))"
      using ids by (simp add: pg_load_store_of store_get_def owned_def runs new_record_def)
    then have answer: "submit_answer (pg_load tenant run_id db', True) = Some (snapshot (new_record run_id tenant task project specs), True)"
      by (auto simp: submit_answer_def)
    have "store_of db' = (store_of db)\<lparr>ms_runs := (ms_runs (store_of db))(run_id \<mapsto> new_record run_id tenant task project specs),
        ms_idempotency := (ms_idempotency (store_of db))((tenant, key) \<mapsto> run_id)\<rparr>"
      by (rule run_store.equality) (simp_all add: runs keys)
    moreover have "ms_idempotency (store_of db) (tenant, key) = None" using None by (simp add: store_of_def)
    ultimately show ?thesis
      using schema shape by (simp add: db_ok_def answer store_submit_def or_empty_def Let_def)
  qed
  then show ?thesis by (auto simp: out commit_def commits_as_def)
qed

subsection \<open>Transactions\<close>

text \<open>
  A transaction by anybody, with any uuid for a new run. \<open>_update_step\<close> is missing: nothing calls it.
\<close>

inductive pg_step :: "(string \<Rightarrow> string option) \<Rightarrow> run_db \<Rightarrow> run_db \<Rightarrow> bool" for U db where
  submit: "run_id \<noteq> [] \<Longrightarrow> pg_step U db (snd (pg_submit now run_id tenant task project key specs db))"
| cancel: "pg_step U db (snd (pg_cancel now U tenant run_id db))"
| set_runtime: "pg_step U db (snd (pg_set_runtime_run_id U runtime tenant run_id db))"
| start: "pg_step U db (snd (pg_start U tenant run_id db))"
| start_step: "pg_step U db (snd (pg_start_step U position tenant run_id db))"
| succeed_step: "pg_step U db (snd (pg_succeed_step U position answer latency inputs outputs tenant run_id db))"
| fail_step: "pg_step U db (snd (pg_fail_step U position error tenant run_id db))"
| succeed: "pg_step U db (snd (pg_succeed now U tenant run_id db))"
| fail: "pg_step U db (snd (pg_fail now U error tenant run_id db))"

text \<open>
  What the store does according to the tables: the steps of the in-memory store, where a run is started once,
  and finished once.
\<close>

inductive guarded_step :: "run_store \<Rightarrow> run_store \<Rightarrow> bool" for S where
  submit: "run_id \<noteq> [] \<Longrightarrow> ms_runs S run_id = None \<Longrightarrow>
    guarded_step S (snd (store_submit run_id tenant task project key specs S))"
| cancel: "guarded_step S (snd (store_cancel tenant i S))"
| set_runtime: "guarded_step S (snd (store_set_runtime_run_id runtime tenant i S))"
| start: "guarded_step S (snd (guarded ''queued'' (store_start tenant i) tenant i S))"
| start_step: "guarded_step S (snd (store_start_step p tenant i S))"
| succeed_step: "guarded_step S (snd (store_succeed_step p answer latency inputs outputs tenant i S))"
| fail_step: "guarded_step S (snd (store_fail_step p error tenant i S))"
| succeed: "guarded_step S (snd (guarded ''running'' (store_succeed tenant i) tenant i S))"
| fail: "guarded_step S (snd (guarded ''running'' (store_fail error tenant i) tenant i S))"

lemma guarded_cases: "snd (guarded from meth tenant i S) = S \<or> snd (guarded from meth tenant i S) = snd (meth S)"
  by (simp add: guarded_def split: option.split)

lemma guarded_step_store: "guarded_step S S' \<Longrightarrow> S' = S \<or> store_step S S'"
proof (induction rule: guarded_step.induct)
  case (start tenant i)
  then show ?case using guarded_cases [of "''queued''"] store_step.start by metis
next
  case (succeed tenant i)
  then show ?case using guarded_cases [of "''running''"] store_step.succeed by metis
next
  case (fail error tenant i)
  then show ?case using guarded_cases [of "''running''"] store_step.fail by metis
qed (blast intro: store_step.intros)+

lemma commits_as_step:
  assumes "commits_as (map_prod h id out) db mem" and "db_ok db" and "\<And>e. h (Inl e) = Inl e"
    and "\<And>a. \<exists>b. h (Inr a) = Inr b" and "guarded_step (store_of db) (snd mem)"
  shows "db_ok (snd out) \<and> (snd out = db \<or> guarded_step (store_of db) (store_of (snd out)))"
proof (cases "fst out")
  case (Inl e)
  with assms(1-3) show ?thesis by (cases out) (simp add: commits_as_def)
next
  case (Inr a)
  with assms(4) [of a] assms(1,5) show ?thesis by (cases out) (auto simp: commits_as_def)
qed

lemma commits_as_plain:
  "commits_as out db mem \<Longrightarrow> db_ok db \<Longrightarrow> guarded_step (store_of db) (snd mem) \<Longrightarrow>
     db_ok (snd out) \<and> (snd out = db \<or> guarded_step (store_of db) (store_of (snd out)))"
  using commits_as_step [of id out db mem] by (simp add: map_prod.id)

lemmas commits_as_mapped = commits_as_step [where h = "map_sum id k" for k, simplified]

text \<open>A position that is none of the steps of the run.\<close>

lemma step_out_of_range:
  assumes "db_ok db" and "\<not> (\<exists>p. position = int p \<and> (\<forall>r. owned tenant i (store_of db) = Some r \<longrightarrow> p < length (rr_steps r)))"
  shows "update_steps (\<lambda>s. step_at db tenant i position s \<and> Q s) f db = (False, db)"
proof -
  have none: "\<not> step_at db tenant i position s" if s: "s \<in> set (db_steps db)" for s
  proof
    assume at: "step_at db tenant i position s"
    then obtain r where r: "find (of_run tenant i) (db_runs db) = Some r"
      using run_live_iff [OF db_okD(2) [OF assms(1)]] by (auto simp: step_at_def)
    from at s have "s \<in> set (steps_of_run db tenant i)" by (simp add: set_steps_of_run step_at_def)
    then obtain k where k: "k < length (steps_of_run db tenant i)" "s = steps_of_run db tenant i ! k"
      by (auto simp: in_set_conv_nth)
    with at positions_nth [OF db_okD(2) [OF assms(1)] r k(1)] have "position = int k" by (simp add: step_at_def)
    moreover have "k < length (rr_steps q)" if "owned tenant i (store_of db) = Some q" for q
      using that k(1) r by (auto simp: owned_store_of [OF db_okD(3) [OF assms(1)]] steps_of_row)
    ultimately show False using assms(2) by blast
  qed
  obtain b db' where up: "update_steps (\<lambda>s. step_at db tenant i position s \<and> Q s) f db = (b, db')" by fastforce
  from update_steps_rows(4,6) [OF up] none have "\<not> b" "db' = db" by blast+
  with up show ?thesis by simp
qed

lemma commit_same [simp]: "snd (commit a db db) = db"
  by (simp add: commit_def)

text \<open>A method with a run id that may be no uuid, and one with a position that may be none.\<close>

lemma method_simulates:
  assumes "db_ok db" and "U run_id = None \<longrightarrow> snd out = db"
    and "\<And>i. U run_id = Some i \<Longrightarrow> snd out = db \<or> commits_as out db (mem i) \<and> guarded_step (store_of db) (snd (mem i))"
  shows "db_ok (snd out) \<and> (snd out = db \<or> guarded_step (store_of db) (store_of (snd out)))"
proof (cases "U run_id")
  case None
  with assms(1,2) show ?thesis by simp
next
  case (Some i)
  from assms(3) [OF Some] commits_as_plain [of out db "mem i"] assms(1) show ?thesis by auto
qed

lemma position_cases:
  assumes "db_ok db"
    and "\<And>p. position = int p \<Longrightarrow> \<forall>r. owned tenant i (store_of db) = Some r \<longrightarrow> p < length (rr_steps r) \<Longrightarrow> R"
    and "(\<And>Q f. update_steps (\<lambda>s. step_at db tenant i position s \<and> Q s) f db = (False, db)) \<Longrightarrow> R"
  shows R
  using assms step_out_of_range [OF assms(1), of position tenant i] by blast

lemma start_step_simulates:
  assumes "db_ok db"
  shows "db_ok (snd (pg_start_step U position tenant run_id db)) \<and> (snd (pg_start_step U position tenant run_id db) = db \<or>
     guarded_step (store_of db) (store_of (snd (pg_start_step U position tenant run_id db))))"
proof (rule method_simulates [where U = U and run_id = run_id and mem = "\<lambda>i. store_start_step (nat position) tenant i (store_of db)", OF assms])
  fix i assume i: "U run_id = Some i"
  show "snd (pg_start_step U position tenant run_id db) = db \<or>
      commits_as (pg_start_step U position tenant run_id db) db (store_start_step (nat position) tenant i (store_of db)) \<and>
      guarded_step (store_of db) (snd (store_start_step (nat position) tenant i (store_of db)))"
  proof (rule position_cases [OF assms, of position tenant i], goal_cases)
    case (1 p)
    with pg_start_step_commits [where U = U, OF assms i] guarded_step.start_step show ?case by simp
  next
    case 2
    then show ?case by (simp add: pg_start_step_def with_uuid_def i)
  qed
qed (simp add: pg_start_step_def with_uuid_def)

lemma succeed_step_simulates:
  assumes "db_ok db"
  shows "db_ok (snd (pg_succeed_step U position answer latency inputs outputs tenant run_id db)) \<and>
     (snd (pg_succeed_step U position answer latency inputs outputs tenant run_id db) = db \<or>
     guarded_step (store_of db) (store_of (snd (pg_succeed_step U position answer latency inputs outputs tenant run_id db))))"
proof (rule method_simulates [where U = U and run_id = run_id and
      mem = "\<lambda>i. store_succeed_step (nat position) answer latency inputs outputs tenant i (store_of db)", OF assms])
  fix i assume i: "U run_id = Some i"
  show "snd (pg_succeed_step U position answer latency inputs outputs tenant run_id db) = db \<or>
      commits_as (pg_succeed_step U position answer latency inputs outputs tenant run_id db) db
        (store_succeed_step (nat position) answer latency inputs outputs tenant i (store_of db)) \<and>
      guarded_step (store_of db) (snd (store_succeed_step (nat position) answer latency inputs outputs tenant i (store_of db)))"
  proof (rule position_cases [OF assms, of position tenant i], goal_cases)
    case (1 p)
    with pg_succeed_step_commits [where U = U, OF assms i] guarded_step.succeed_step show ?case by simp
  next
    case 2
    from 2 [of "\<lambda>_. True"] show ?case by (simp add: pg_succeed_step_def with_texts_def with_uuid_def i split: option.split)
  qed
qed (simp add: pg_succeed_step_def with_texts_def with_uuid_def)

lemma fail_step_simulates:
  assumes "db_ok db"
  shows "db_ok (snd (pg_fail_step U position error tenant run_id db)) \<and>
     (snd (pg_fail_step U position error tenant run_id db) = db \<or>
     guarded_step (store_of db) (store_of (snd (pg_fail_step U position error tenant run_id db))))"
proof (rule method_simulates [where U = U and run_id = run_id and
      mem = "\<lambda>i. store_fail_step (nat position) error tenant i (store_of db)", OF assms])
  fix i assume i: "U run_id = Some i"
  show "snd (pg_fail_step U position error tenant run_id db) = db \<or>
      commits_as (pg_fail_step U position error tenant run_id db) db (store_fail_step (nat position) error tenant i (store_of db)) \<and>
      guarded_step (store_of db) (snd (store_fail_step (nat position) error tenant i (store_of db)))"
  proof (rule position_cases [OF assms, of position tenant i], goal_cases)
    case (1 p)
    with pg_fail_step_commits [where U = U, OF assms i] guarded_step.fail_step show ?case by simp
  next
    case 2
    from 2 [of "\<lambda>_. True"] show ?case by (simp add: pg_fail_step_def with_texts_def with_uuid_def i)
  qed
qed (simp add: pg_fail_step_def with_texts_def with_uuid_def)

lemma cancel_simulates:
  assumes "db_ok db"
  shows "db_ok (snd (pg_cancel now U tenant run_id db)) \<and> (snd (pg_cancel now U tenant run_id db) = db \<or>
     guarded_step (store_of db) (store_of (snd (pg_cancel now U tenant run_id db))))"
proof (cases "U run_id")
  case None
  with assms show ?thesis by (simp add: pg_cancel_def with_uuid_def)
next
  case (Some i)
  from commits_as_mapped [OF pg_cancel_commits [where U = U, OF assms Some] assms guarded_step.cancel] show ?thesis .
qed

lemma submit_simulates:
  assumes "db_ok db" and "run_id \<noteq> []"
  shows "db_ok (snd (pg_submit now run_id tenant task project key specs db)) \<and>
     (snd (pg_submit now run_id tenant task project key specs db) = db \<or>
     guarded_step (store_of db) (store_of (snd (pg_submit now run_id tenant task project key specs db))))"
proof (cases "row_of db run_id")
  case None
  then have "ms_runs (store_of db) run_id = None" by (simp add: store_of_def)
  from commits_as_mapped [OF pg_submit_commits [OF assms] assms(1) guarded_step.submit [OF assms(2) this]] show ?thesis .
next
  case (Some r)
  have "snd (pg_submit now run_id tenant task project key specs db) = db"
    using row_ofD [OF Some] by (auto simp: pg_submit_def with_texts_def commit_def schema_ok_def Let_def split: option.split)
  with assms show ?thesis by simp
qed

lemma set_runtime_simulates:
  assumes "db_ok db"
  shows "db_ok (snd (pg_set_runtime_run_id U runtime tenant run_id db)) \<and> (snd (pg_set_runtime_run_id U runtime tenant run_id db) = db \<or> guarded_step (store_of db) (store_of (snd (pg_set_runtime_run_id U runtime tenant run_id db))))"
  by (rule method_simulates [where U = U and run_id = run_id and mem = "\<lambda>i. store_set_runtime_run_id runtime tenant i (store_of db)", OF assms])
     (simp add: pg_set_runtime_run_id_def with_texts_def with_uuid_def, simp add: pg_set_runtime_commits [where U = U, OF assms] guarded_step.set_runtime)

lemma start_simulates:
  assumes "db_ok db"
  shows "db_ok (snd (pg_start U tenant run_id db)) \<and> (snd (pg_start U tenant run_id db) = db \<or> guarded_step (store_of db) (store_of (snd (pg_start U tenant run_id db))))"
  by (rule method_simulates [where U = U and run_id = run_id and mem = "\<lambda>i. guarded ''queued'' (store_start tenant i) tenant i (store_of db)", OF assms])
     (simp add: pg_start_def with_uuid_def, simp add: pg_start_commits [where U = U, OF assms] guarded_step.start)

lemma succeed_simulates:
  assumes "db_ok db"
  shows "db_ok (snd (pg_succeed now U tenant run_id db)) \<and> (snd (pg_succeed now U tenant run_id db) = db \<or> guarded_step (store_of db) (store_of (snd (pg_succeed now U tenant run_id db))))"
  by (rule method_simulates [where U = U and run_id = run_id and mem = "\<lambda>i. guarded ''running'' (store_succeed tenant i) tenant i (store_of db)", OF assms])
     (simp add: pg_succeed_def with_uuid_def, simp add: pg_succeed_commits [where U = U, OF assms] guarded_step.succeed)

lemma fail_simulates:
  assumes "db_ok db"
  shows "db_ok (snd (pg_fail now U error tenant run_id db)) \<and> (snd (pg_fail now U error tenant run_id db) = db \<or> guarded_step (store_of db) (store_of (snd (pg_fail now U error tenant run_id db))))"
  by (rule method_simulates [where U = U and run_id = run_id and mem = "\<lambda>i. guarded ''running'' (store_fail error tenant i) tenant i (store_of db)", OF assms])
     (simp add: pg_fail_def with_texts_def with_uuid_def, simp add: pg_fail_commits [where U = U, OF assms] guarded_step.fail)

lemmas pg_methods_simulate = submit_simulates cancel_simulates set_runtime_simulates start_simulates succeed_simulates
  fail_simulates start_step_simulates succeed_step_simulates fail_step_simulates

lemma pg_step_simulates:
  assumes "pg_step U db db'" and "db_ok db"
  shows "db_ok db' \<and> (db' = db \<or> guarded_step (store_of db) (store_of db'))"
  using assms(1) by cases (simp_all only: pg_methods_simulate [OF assms(2)] simp_thms)

subsection \<open>What the transactions keep\<close>

lemma pg_steps_simulate:
  assumes "(pg_step U)\<^sup>*\<^sup>* db db'" and "db_ok db"
  shows "db_ok db' \<and> guarded_step\<^sup>*\<^sup>* (store_of db) (store_of db')"
  using assms(1)
proof (induction rule: rtranclp_induct)
  case (step db1 db2)
  with pg_step_simulates [of U db1 db2] show ?case by (auto intro: rtranclp.rtrancl_into_rtrancl)
qed (use assms(2) in simp)

lemma guarded_steps_store: "guarded_step\<^sup>*\<^sup>* S S' \<Longrightarrow> store_step\<^sup>*\<^sup>* S S'"
  by (induction rule: rtranclp_induct) (auto dest: guarded_step_store intro: rtranclp.rtrancl_into_rtrancl)

text \<open>A finished run stays finished.\<close>

definition finished_as :: "string \<Rightarrow> run_record \<Rightarrow> run_store \<Rightarrow> bool" where
  "finished_as i r S \<longleftrightarrow> (\<exists>r'. ms_runs S i = Some r' \<and> rr_tenant_id r' = rr_tenant_id r \<and> rr_status r' = rr_status r \<and>
     rr_summary r' = rr_summary r)"

lemma update_live_finished:
  assumes "\<And>q q'. f q = Some q' \<Longrightarrow> rr_tenant_id q' = rr_tenant_id q \<and> rr_status q' = rr_status q \<and> rr_summary q' = rr_summary q"
  shows "finished_as i r S \<Longrightarrow> finished_as i r (snd (update_live f tenant j S))"
  using assms by (auto simp: finished_as_def update_live_def owned_def split: option.splits)

lemma guarded_update_finished:
  assumes "terminal_status (rr_status r)" and "\<not> terminal_status from"
  shows "finished_as i r S \<Longrightarrow> finished_as i r (snd (guarded from (update_live f tenant j) tenant j S))"
  using assms by (auto simp: finished_as_def guarded_def update_live_def owned_def split: option.splits)

lemma guarded_step_finished:
  assumes "guarded_step S S'" and "terminal_status (rr_status r)"
  shows "finished_as i r S \<Longrightarrow> finished_as i r S'"
  using assms(1)
proof (induction rule: guarded_step.induct)
  case (submit run_id tenant task project key specs)
  then show ?case by (auto simp: finished_as_def store_submit_def Let_def)
next
  case (cancel tenant j)
  then show ?case
    using assms(2) by (auto simp: finished_as_def store_cancel_def owned_def cancelled_record_def split: option.splits)
next
  case (set_runtime runtime tenant j)
  then show ?case unfolding store_set_runtime_run_id_def by (rule update_live_finished [rotated]) auto
next
  case (start tenant j)
  then show ?case
    unfolding store_start_def by (rule guarded_update_finished [OF assms(2), rotated]) (simp add: terminal_status_def)
next
  case (start_step p tenant j)
  then show ?case
    unfolding store_start_step_def by (rule update_live_finished [rotated]) (auto simp: Let_def split: if_splits)
next
  case (succeed_step p answer latency inputs outputs tenant j)
  then show ?case unfolding store_succeed_step_def by (rule update_live_finished [rotated]) (auto simp: Let_def)
next
  case (fail_step p error tenant j)
  then show ?case unfolding store_fail_step_def by (rule update_live_finished [rotated]) auto
next
  case (succeed tenant j)
  then show ?case
    unfolding store_succeed_def by (rule guarded_update_finished [OF assms(2), rotated]) (simp add: terminal_status_def)
next
  case (fail error tenant j)
  then show ?case
    unfolding store_fail_def by (rule guarded_update_finished [OF assms(2), rotated]) (simp add: terminal_status_def)
qed

lemma guarded_steps_finished:
  assumes "guarded_step\<^sup>*\<^sup>* S S'" and "terminal_status (rr_status r)" and "ms_runs S i = Some r"
  shows "finished_as i r S'"
  using assms(1) by (induction rule: rtranclp_induct)
    (use assms(2,3) in \<open>auto simp: finished_as_def intro: guarded_step_finished [unfolded finished_as_def]\<close>)

subsection \<open>The production store as a ledger\<close>

type_synonym pg_request = "string \<times> store_request"

definition pg_key :: "pg_request \<Rightarrow> string \<times> string" where
  "pg_key q = request_key (snd q)"

text \<open>The driver sends the request; the columns and indexes hold its texts.\<close>

definition pg_sendable :: "pg_request \<Rightarrow> bool" where
  "pg_sendable q =
     (case q of (_, _, tenant, task, project, key, _) \<Rightarrow> list_all text_ok ([tenant, key, task] @ optional_text project))"

definition pg_storable :: "pg_request \<Rightarrow> bool" where
  "pg_storable q =
     (pg_sendable q \<and>
      (case q of (_, _, tenant, _, _, key, specs) \<Rightarrow> index_fits [tenant, key] \<and>
         list_all (\<lambda>spec. list_all text_ok (step_texts (new_step spec))) specs))"

definition pg_fresh :: "pg_request \<Rightarrow> run_db \<Rightarrow> bool" where
  "pg_fresh q db =
     (pg_storable q \<and>
      (case q of (_, run_id, _, _, _, _, specs) \<Rightarrow> run_id \<noteq> [] \<and> row_of db run_id = None \<and> length specs \<le> 32768 \<and>
        list_all (\<lambda>spec. column_checks (new_step spec)) specs))"

definition pg_file :: "pg_request \<Rightarrow> run_db \<Rightarrow> (string \<times> bool) option \<times> run_db" where
  "pg_file q db =
     (case q of (now, run_id, tenant, task, project, key, specs) \<Rightarrow>
        (case pg_submit now run_id tenant task project key specs db of
           (Inl _, db') \<Rightarrow> (None, db')
         | (Inr a, db') \<Rightarrow> (map_option (apfst sn_id) (submit_answer a), db')))"

lemma inserted_schema:
  assumes "schema_ok db" and "row_of db run_id = None" and "length specs \<le> 32768"
    and "list_all (\<lambda>spec. column_checks (new_step spec)) specs" and "rw_id r = run_id" and "rw_tenant_id r = tenant"
    and "row_checks r" and "rw_runtime_run_id r = None"
    and "find (\<lambda>q. rw_tenant_id q = tenant \<and> rw_idempotency_key q = rw_idempotency_key r) (db_runs db) = None"
  shows "schema_ok \<lparr>db_runs = db_runs db @ [r], db_steps = db_steps db @ inserted_rows run_id tenant specs\<rparr>"
proof -
  let ?new = "inserted_rows run_id tenant specs"
  have new: "sw_run_id s = run_id" "sw_tenant_id s = tenant" "0 \<le> sw_position s" "int2 (sw_position s)" "column_checks (sw_step s)"
    if "s \<in> set ?new" for s
    using that assms(3,4) by (auto simp: inserted_rows_def in_set_enumerate_eq int2_def list_all_iff)
  have old: "sw_run_id s \<noteq> run_id" if "s \<in> set (db_steps db)" for s
    using schema_okD(2) [OF assms(1) that] assms(2) by auto
  have "distinct (map snd (map (\<lambda>s. (sw_run_id s, sw_position s)) ?new))"
    by (simp add: comp_def distinct_map)
  then have "distinct (map (\<lambda>s. (sw_run_id s, sw_position s)) ?new)" by (simp only: distinct_map)
  moreover have "(\<lambda>s. (sw_run_id s, sw_position s)) ` set (db_steps db) \<inter> (\<lambda>s. (sw_run_id s, sw_position s)) ` set ?new = {}"
    using old new(1) by fastforce
  ultimately have steps: "distinct (map (\<lambda>s. (sw_run_id s, sw_position s)) (db_steps db @ ?new))"
    using assms(1) by (simp add: schema_ok_def)
  have runs: "rw_id q \<noteq> run_id" "\<not> (rw_tenant_id q = tenant \<and> rw_idempotency_key q = rw_idempotency_key r)"
    if "q \<in> set (db_runs db)" for q
    using that assms(2,9) by (auto simp: row_of_None find_None_iff)
  have "run_id \<notin> rw_id ` set (db_runs db)"
    "(tenant, rw_idempotency_key r) \<notin> (\<lambda>r. (rw_tenant_id r, rw_idempotency_key r)) ` set (db_runs db)"
    unfolding image_iff using runs by (blast, metis (no_types, lifting) prod.inject)
  moreover have "\<forall>s \<in> set (db_steps db @ ?new). 0 \<le> sw_position s \<and> int2 (sw_position s) \<and> column_checks (sw_step s) \<and>
      (\<exists>q \<in> set (db_runs db @ [r]). rw_tenant_id q = sw_tenant_id s \<and> rw_id q = sw_run_id s)"
    using assms(1,5,6) new unfolding schema_ok_def by (simp add: ball_Un)
  ultimately show ?thesis
    using assms(1) steps unfolding schema_ok_def by (simp add: assms(5-8))
qed

lemma pg_file_new:
  assumes "db_ok db" and "ms_idempotency (store_of db) (tenant, key) = None"
    and "pg_fresh (now, run_id, tenant, task, project, key, specs) db"
  shows "\<exists>db'. pg_file (now, run_id, tenant, task, project, key, specs) db = (Some (run_id, True), db') \<and>
     ms_idempotency (store_of db') (tenant, key) = Some run_id"
proof -
  have none: "find (\<lambda>r. rw_tenant_id r = tenant \<and> rw_idempotency_key r = key) (db_runs db) = None"
    using assms(2) by (simp add: store_of_def)
  have fresh: "run_id \<noteq> []" "row_of db run_id = None" "length specs \<le> 32768"
    "list_all (\<lambda>spec. column_checks (new_step spec)) specs"
    using assms(3) by (simp_all add: pg_fresh_def)
  have sent: "list_all text_ok ([tenant, key, task] @ optional_text project)" "index_fits [tenant, key]"
    using assms(3) by (simp_all add: pg_fresh_def pg_storable_def pg_sendable_def)
  let ?r = "\<lparr>rw_id = run_id, rw_tenant_id = tenant, rw_project_id = project, rw_idempotency_key = key, rw_task = task,
      rw_status = ''queued'', rw_summary = ''queued for execution'', rw_cancelled = False, rw_created_at = now,
      rw_finished_at = None, rw_runtime_run_id = None\<rparr>"
  have "row_checks ?r"
    using sent by (auto simp: row_checks_def optional_text_def index_fits_def text_ok_def)
  with inserted_schema [OF db_okD(1) [OF assms(1)] fresh(2-4), of ?r] none
  have "schema_ok \<lparr>db_runs = db_runs db @ [?r], db_steps = db_steps db @ inserted_rows run_id tenant specs\<rparr>" by simp
  then obtain a db' where out: "pg_submit now run_id tenant task project key specs db = (Inr a, db')"
    using none sent(1)
    by (simp add: pg_submit_def with_texts_def commit_def Let_def flip: inserted_rows_def)
  from pg_submit_commits [OF assms(1) fresh(1), of now tenant task project key specs] out assms(2)
  have "submit_answer a = Some (snapshot (new_record run_id tenant task project specs), True)"
    "ms_idempotency (store_of db') (tenant, key) = Some run_id"
    by (simp_all add: commits_as_def store_submit_def or_empty_def Let_def)
  then show ?thesis by (simp add: pg_file_def out snapshot_def new_record_def)
qed

lemma pg_file_known:
  assumes "db_ok db" and "ms_idempotency (store_of db) (tenant, key) = Some i"
    and "pg_sendable (now, run_id, tenant, task, project, key, specs)"
  shows "pg_file (now, run_id, tenant, task, project, key, specs) db = (Some (i, False), db)"
proof -
  obtain r where r: "find (\<lambda>r. rw_tenant_id r = tenant \<and> rw_idempotency_key r = key) (db_runs db) = Some r" "i = rw_id r"
    using assms(2) by (auto simp: store_of_def)
  have row: "row_of db i = Some r" "rw_tenant_id r = tenant"
    using find_Some_in [OF r(1)] row_of_iff [OF db_okD(3) [OF assms(1)]] r(2) by simp_all
  have "map_option fst (pg_load tenant i db) = Some (snapshot (record_of db r))"
    by (simp add: pg_load_store_of [OF db_okD(3) [OF assms(1)]] store_get_def owned_def store_of_def row record_of_def)
  then show ?thesis
    using r assms(3) by (auto simp: pg_file_def pg_submit_def with_texts_def pg_sendable_def submit_answer_def snapshot_def record_of_def)
qed

lemma pg_file_unsent: "\<not> pg_sendable q \<Longrightarrow> pg_file q db = (None, db)"
  by (cases q) (auto simp: pg_file_def pg_submit_def with_texts_def pg_sendable_def)

text \<open>A new request with a text the columns or an index cannot hold fails.\<close>

lemma pg_file_refused:
  assumes "ms_idempotency (store_of db) (tenant, key) = None" and "\<not> pg_storable (now, run_id, tenant, task, project, key, specs)"
  shows "pg_file (now, run_id, tenant, task, project, key, specs) db = (None, db)"
proof (cases "pg_sendable (now, run_id, tenant, task, project, key, specs)")
  case False
  then show ?thesis by (rule pg_file_unsent)
next
  case True
  have none: "find (\<lambda>r. rw_tenant_id r = tenant \<and> rw_idempotency_key r = key) (db_runs db) = None"
    using assms(1) by (simp add: store_of_def)
  let ?r = "\<lparr>rw_id = run_id, rw_tenant_id = tenant, rw_project_id = project, rw_idempotency_key = key, rw_task = task,
      rw_status = ''queued'', rw_summary = ''queued for execution'', rw_cancelled = False, rw_created_at = now,
      rw_finished_at = None, rw_runtime_run_id = None\<rparr>"
  let ?db' = "\<lparr>db_runs = db_runs db @ [?r], db_steps = db_steps db @ inserted_rows run_id tenant specs\<rparr>"
  have "\<not> schema_ok ?db'"
  proof
    assume ok: "schema_ok ?db'"
    then have "row_checks ?r" and rows: "\<forall>s \<in> set (inserted_rows run_id tenant specs). column_checks (sw_step s)"
      by (simp_all add: schema_ok_def)
    then have "index_fits [tenant, key]" by (simp add: row_checks_def)
    moreover have "\<forall>s \<in> set (map sw_step (inserted_rows run_id tenant specs)). column_checks s"
      unfolding set_map using rows by blast
    then have "list_all (\<lambda>spec. list_all text_ok (step_texts (new_step spec))) specs"
      unfolding inserted_rows_simps by (simp add: list_all_iff column_checks_def)
    ultimately show False using assms(2) True by (simp add: pg_storable_def)
  qed
  with none True show ?thesis
    by (simp add: pg_file_def pg_submit_def with_texts_def pg_sendable_def commit_def Let_def flip: inserted_rows_def)
qed

interpretation production_ledger:
  run_ledger db_ok "pg_step U" "\<lambda>db. ms_idempotency (store_of db)" pg_key pg_sendable pg_fresh pg_file for U
proof (unfold_locales, goal_cases)
  case (2 db q i)
  obtain now run_id tenant task project key specs where q: "q = (now, run_id, tenant, task, project, key, specs)"
    by (cases q) auto
  with 2 show ?case by (simp add: pg_key_def request_key_def pg_file_known)
next
  case (3 db q)
  obtain now run_id tenant task project key specs where q: "q = (now, run_id, tenant, task, project, key, specs)"
    by (cases q) auto
  with 3 pg_file_new [of db tenant key now run_id task project specs] show ?case
    by (auto simp: pg_key_def request_key_def)
next
  case (4 db q)
  obtain now run_id tenant task project key specs where q: "q = (now, run_id, tenant, task, project, key, specs)"
    by (cases q) auto
  have "snd (pg_file q db) = snd (pg_submit now run_id tenant task project key specs db)"
    by (simp add: q pg_file_def split: prod.split sum.split)
  with 4(2) pg_step.submit [of run_id U db] show ?case by (simp add: q pg_fresh_def)
next
  case (5 db db')
  with pg_step_simulates [OF 5] show ?case by simp
next
  case (6 db db' k i)
  with pg_step_simulates [OF 6(1,2)] guarded_step_store [of "store_of db" "store_of db'"]
    store_step_index [OF _ store_of_ok [OF 6(2)] 6(3)] show ?case by auto
qed (simp add: pg_fresh_def pg_storable_def)

text \<open>Whole histories of the tables are histories of the in-memory store.\<close>

lemma production_store_refines:
  assumes "(pg_step U)\<^sup>*\<^sup>* db db'" and "db_ok db"
  shows "db_ok db' \<and> store_ok (store_of db') \<and> guarded_step\<^sup>*\<^sup>* (store_of db) (store_of db') \<and>
     store_step\<^sup>*\<^sup>* (store_of db) (store_of db')"
  using pg_steps_simulate [OF assms] store_of_ok guarded_steps_store by blast

text \<open>
  C21. A finished run stays finished: what the production store answers for a run that has succeeded, failed or
  been cancelled keeps its status and its summary through every later transaction, and a cancelled one keeps its
  steps, too. The steps of a run that has succeeded or failed are not protected: the methods that change steps look
  at \<open>cancelled\<close> only.
\<close>

theorem finished_status_stays:
  assumes "(pg_step U)\<^sup>*\<^sup>* db db'" and "db_ok db" and "pg_load tenant i db = Some l"
    and "terminal_status (sn_status (fst l))"
  shows "\<exists>l'. pg_load tenant i db' = Some l' \<and> sn_status (fst l') = sn_status (fst l) \<and>
     sn_summary (fst l') = sn_summary (fst l) \<and> (sn_status (fst l) = ''cancelled'' \<longrightarrow> fst l' = fst l)"
proof -
  note sim = pg_steps_simulate [OF assms(1,2)]
  have "store_get tenant i (store_of db) = Some (fst l)"
    using assms(3) by (simp flip: pg_load_store_of [OF db_okD(3) [OF assms(2)]])
  then obtain r where r: "ms_runs (store_of db) i = Some r" "rr_tenant_id r = tenant" "fst l = snapshot r"
    by (auto simp: store_get_def owned_def split: option.splits if_splits)
  have frozen: "ms_runs (store_of db') i = Some r" if "sn_status (fst l) = ''cancelled''"
  proof -
    have "rr_cancelled r" using that r store_okD(1) [OF store_of_ok [OF assms(2)] r(1)] by (simp add: snapshot_def record_ok_def)
    with store_steps_frozen [OF guarded_steps_store [OF conjunct2 [OF sim]] store_of_ok [OF assms(2)] r(1)] show ?thesis .
  qed
  have "terminal_status (rr_status r)" using assms(4) r by (simp add: snapshot_def)
  from guarded_steps_finished [OF conjunct2 [OF sim] this r(1)] obtain r' where
    "ms_runs (store_of db') i = Some r'" "rr_tenant_id r' = tenant" "rr_status r' = rr_status r" "rr_summary r' = rr_summary r"
    using r(2) by (auto simp: finished_as_def)
  moreover have "map_option fst (pg_load tenant i db') = store_get tenant i (store_of db')"
    using pg_load_store_of db_okD(3) sim by blast
  ultimately show ?thesis
    using frozen by (cases "pg_load tenant i db'") (auto simp: store_get_def owned_def snapshot_def r(3))
qed

text \<open>
  C23. The production store files a request once: when a request was answered with a run, a later request with
  the same tenant and key, whatever else it says and whatever happened to the tables in between, is answered
  with that run and writes nothing; one with a U+0000 in a text fails and writes nothing either.
\<close>

theorem production_key_files_one_run:
  assumes "db_ok db" and "pg_fresh q db" and "pg_file q db = (Some (i, created), db1)" and "(pg_step U)\<^sup>*\<^sup>* db1 db2"
    and "pg_key q' = pg_key q"
  shows "pg_file q' db2 = (if pg_sendable q' then Some (i, False) else None, db2)"
  using production_ledger.resubmitted [OF assms] pg_file_unsent [of q' db2] by simp

text \<open>Empty tables, a request, and the tables after it and after a cancellation.\<close>

definition empty_db :: run_db where
  "empty_db = \<lparr>db_runs = [], db_steps = []\<rparr>"

definition report_specs :: "step_spec list" where
  "report_specs = [\<lparr>sx_node_id = ''run'', sx_prompt = None, sx_role = None, sx_depends_on = [], sx_max_retries = 0,
     sx_model = None, sx_max_tokens = None\<rparr>]"

definition report_request :: "string \<Rightarrow> pg_request" where
  "report_request task = (''monday'', ''u'', ''t1'', task, None, ''k1'', report_specs)"

definition filed_db :: run_db where
  "filed_db = snd (pg_file (report_request ''report'') empty_db)"

definition cancelled_db :: run_db where
  "cancelled_db = snd (pg_cancel ''tuesday'' Some ''t1'' ''u'' filed_db)"

lemma empty_db_ok: "db_ok empty_db"
  by (simp add: empty_db_def db_ok_def schema_ok_def db_shape_def)

lemma report_filed:
  "pg_fresh (report_request ''report'') empty_db"
  "pg_file (report_request ''report'') empty_db = (Some (''u'', True), filed_db)"
proof -
  show fresh: "pg_fresh (report_request ''report'') empty_db"
    by (simp add: pg_fresh_def report_request_def report_specs_def row_of_def empty_db_def column_checks_def new_step_def
        int2_def int4_def pg_storable_def pg_sendable_def optional_text_def text_ok_def index_fits_def step_texts_def or_empty_def)
  have "ms_idempotency (store_of empty_db) (''t1'', ''k1'') = None" by (simp add: store_of_def empty_db_def)
  from pg_file_new [OF empty_db_ok this fresh [unfolded report_request_def]]
  show "pg_file (report_request ''report'') empty_db = (Some (''u'', True), filed_db)"
    unfolding filed_db_def report_request_def by (metis snd_conv)
qed

lemma report_steps:
  "(pg_step Some)\<^sup>*\<^sup>* empty_db filed_db" "(pg_step Some)\<^sup>*\<^sup>* filed_db cancelled_db"
proof -
  have filed: "filed_db = snd (pg_submit ''monday'' ''u'' ''t1'' ''report'' None ''k1'' report_specs empty_db)"
    by (simp add: filed_db_def pg_file_def report_request_def split: prod.split sum.split)
  have "pg_step Some empty_db filed_db" unfolding filed by (rule pg_step.submit) simp
  then show "(pg_step Some)\<^sup>*\<^sup>* empty_db filed_db" by (rule r_into_rtranclp)
  show "(pg_step Some)\<^sup>*\<^sup>* filed_db cancelled_db"
    unfolding cancelled_db_def by (rule r_into_rtranclp) (rule pg_step.cancel)
qed

lemma filed_db_ok: "db_ok filed_db"
  using production_store_refines [OF report_steps(1) empty_db_ok] by blast

theorem finished_status_stays_witness:
  "\<exists>l. pg_load ''t1'' ''u'' (snd (pg_start Some ''t1'' ''u'' cancelled_db)) = Some l \<and> sn_status (fst l) = ''cancelled''"
proof -
  have ok: "db_ok cancelled_db"
    using pg_steps_simulate [OF rtranclp_trans [OF report_steps] empty_db_ok] by blast
  have "map_option (sn_status \<circ> fst) (pg_load ''t1'' ''u'' cancelled_db) = Some ''cancelled''" by code_simp
  then obtain l where l: "pg_load ''t1'' ''u'' cancelled_db = Some l" "sn_status (fst l) = ''cancelled''" by auto
  then have "terminal_status (sn_status (fst l))" by (simp add: terminal_status_def)
  note stays = finished_status_stays [OF _ ok l(1) this]
  have "(pg_step Some)\<^sup>*\<^sup>* cancelled_db (snd (pg_start Some ''t1'' ''u'' cancelled_db))"
    by (rule r_into_rtranclp) (rule pg_step.start)
  from stays [OF this] l(2) show ?thesis by auto
qed

theorem production_key_files_one_run_witness:
  "pg_file (report_request ''another report'') cancelled_db = (Some (''u'', False), cancelled_db)"
proof -
  have "pg_key (report_request ''another report'') = pg_key (report_request ''report'')"
    by (simp add: pg_key_def request_key_def report_request_def)
  from production_key_files_one_run [OF empty_db_ok report_filed report_steps(2) this] show ?thesis
    by (simp add: pg_sendable_def report_request_def optional_text_def text_ok_def)
qed

end
