(* ===== verification/Postgres_Answers.thy ===== *)
theory Postgres_Answers
  imports Postgres_Refinement Backend_Api
begin

text \<open>
  The methods of the production store answer: within the ranges of the columns no constraint fails, and the
  submissions the API accepts are within them.
\<close>

text \<open>When no constraint fails.\<close>

lemma update_runs_schema:
  assumes "schema_ok db" and "update_runs P f db = (b, db')"
    and f: "\<And>r. rw_id (f r) = rw_id r \<and> rw_tenant_id (f r) = rw_tenant_id r \<and> rw_idempotency_key (f r) = rw_idempotency_key r \<and>
      rw_runtime_run_id (f r) = rw_runtime_run_id r" "\<And>r. row_checks r \<Longrightarrow> row_checks (f r)"
  shows "schema_ok db'"
proof -
  let ?g = "\<lambda>r. if P r then f r else r"
  have g: "rw_id (?g r) = rw_id r" "rw_tenant_id (?g r) = rw_tenant_id r" "rw_idempotency_key (?g r) = rw_idempotency_key r"
    "rw_runtime_run_id (?g r) = rw_runtime_run_id r" for r
    using f(1) by simp_all
  have db': "db' = db\<lparr>db_runs := map ?g (db_runs db)\<rparr>"
    using assms(2) by (auto simp: update_runs_def update_rows_def)
  have "\<forall>r \<in> set (db_runs db'). row_checks r"
    using assms(1) f(2) by (auto simp: db' schema_ok_def)
  moreover have "\<exists>q \<in> set (db_runs db'). rw_tenant_id q = sw_tenant_id s \<and> rw_id q = sw_run_id s"
    if "s \<in> set (db_steps db)" for s
  proof -
    from that assms(1) obtain r where "r \<in> set (db_runs db)" "rw_tenant_id r = sw_tenant_id s" "rw_id r = sw_run_id s"
      by (auto simp: schema_ok_def)
    then show ?thesis by (intro bexI [of _ "?g r"]) (simp_all only: g, simp add: db')
  qed
  moreover have "map rw_id (db_runs db') = map rw_id (db_runs db)" "db_steps db' = db_steps db"
    "map (\<lambda>r. (rw_tenant_id r, rw_idempotency_key r)) (db_runs db') = map (\<lambda>r. (rw_tenant_id r, rw_idempotency_key r)) (db_runs db)"
    "map (\<lambda>r. (rw_tenant_id r, rw_runtime_run_id r)) (filter (\<lambda>r. rw_runtime_run_id r \<noteq> None) (db_runs db')) =
       map (\<lambda>r. (rw_tenant_id r, rw_runtime_run_id r)) (filter (\<lambda>r. rw_runtime_run_id r \<noteq> None) (db_runs db))"
    by (simp_all add: db' g comp_def filter_map)
  ultimately show ?thesis
    using assms(1) unfolding schema_ok_def by (simp only:) blast
qed

lemma update_steps_schema:
  assumes "schema_ok db" and "update_steps P f db = (b, db')"
    and "\<And>s. s \<in> set (db_steps db) \<Longrightarrow> P s \<Longrightarrow> column_checks (f (sw_step s))"
  shows "schema_ok db'"
proof -
  let ?g = "\<lambda>s. if P s then s\<lparr>sw_step := f (sw_step s)\<rparr> else s"
  have db': "db' = db\<lparr>db_steps := map ?g (db_steps db)\<rparr>"
    using assms(2) by (auto simp: update_steps_def update_rows_def)
  have steps': "db_steps db' = map ?g (db_steps db)" by (simp add: db')
  have g: "sw_run_id (?g s) = sw_run_id s" "sw_tenant_id (?g s) = sw_tenant_id s" "sw_position (?g s) = sw_position s" for s
    by simp_all
  have "column_checks (sw_step (?g s))" if "s \<in> set (db_steps db)" for s
    using that assms(1,3) by (auto simp: schema_ok_def)
  then have "0 \<le> sw_position (?g s) \<and> int2 (sw_position (?g s)) \<and> column_checks (sw_step (?g s)) \<and>
      (\<exists>r \<in> set (db_runs db). rw_tenant_id r = sw_tenant_id (?g s) \<and> rw_id r = sw_run_id (?g s))"
    if "s \<in> set (db_steps db)" for s
    using assms(1) that unfolding schema_ok_def g by blast
  then have "\<forall>s \<in> set (db_steps db'). 0 \<le> sw_position s \<and> int2 (sw_position s) \<and> column_checks (sw_step s) \<and>
      (\<exists>r \<in> set (db_runs db). rw_tenant_id r = sw_tenant_id s \<and> rw_id r = sw_run_id s)"
    unfolding steps' set_map by blast
  moreover have "db_runs db' = db_runs db"
    "map (\<lambda>s. (sw_run_id s, sw_position s)) (db_steps db') = map (\<lambda>s. (sw_run_id s, sw_position s)) (db_steps db)"
    by (simp_all add: db' g comp_def)
  ultimately show ?thesis
    using assms(1) unfolding schema_ok_def by simp
qed

text \<open>A method that commits, with the answer and the result of the in-memory method.\<close>

definition answers_as :: "(db_error, 'a) result \<times> run_db \<Rightarrow> 'a \<times> run_store \<Rightarrow> bool" where
  "answers_as out mem \<longleftrightarrow> (case out of (Inl _, _) \<Rightarrow> False | (Inr a, db') \<Rightarrow> db_ok db' \<and> (a, store_of db') = mem)"

lemma answers_asI:
  assumes "commits_as (map_prod (map_sum id h) id out) db mem" and "out = commit a db db'" and "schema_ok db'"
  shows "answers_as (map_prod (map_sum id h) id out) mem"
  using assms by (auto simp: commits_as_def answers_as_def commit_def)

lemma answers_as_plain: "commits_as out db mem \<Longrightarrow> out = commit a db db' \<Longrightarrow> schema_ok db' \<Longrightarrow> answers_as out mem"
  by (auto simp: commits_as_def answers_as_def commit_def)

lemma run_update_schema:
  assumes "schema_ok db" and "run_update from f tenant i db = (b, db')"
    and "\<And>r. rw_id (f r) = rw_id r \<and> rw_tenant_id (f r) = rw_tenant_id r \<and> rw_idempotency_key (f r) = rw_idempotency_key r \<and>
      rw_runtime_run_id (f r) = rw_runtime_run_id r" "\<And>r. row_checks r \<Longrightarrow> row_checks (f r)"
  shows "schema_ok db'"
  by (rule update_runs_schema [OF assms(1) assms(2) [unfolded run_update_def] assms(3,4)])

lemma column_checks_step: "schema_ok db \<Longrightarrow> s \<in> set (db_steps db) \<Longrightarrow> column_checks (sw_step s)"
  by (simp add: schema_ok_def)

lemma pg_start_answers:
  assumes "db_ok db" and "U run_id = Some i"
  shows "answers_as (pg_start U tenant run_id db) (guarded ''queued'' (store_start tenant i) tenant i (store_of db))"
proof -
  let ?f = "\<lambda>r. r\<lparr>rw_status := ''running'', rw_summary := ''execution running''\<rparr>"
  obtain b db' where up: "run_update ''queued'' ?f tenant i db = (b, db')" by fastforce
  have "schema_ok db'" by (rule run_update_schema [OF db_okD(1) [OF assms(1)] up]) (simp_all add: row_checks_def text_ok_def)
  then show ?thesis
    by (rule answers_as_plain [OF pg_start_commits [where U = U, OF assms]  _ , rotated])
       (simp add: pg_start_def with_uuid_def assms(2) up)
qed

lemma pg_succeed_answers:
  assumes "db_ok db" and "U run_id = Some i"
  shows "answers_as (pg_succeed now U tenant run_id db) (guarded ''running'' (store_succeed tenant i) tenant i (store_of db))"
proof -
  let ?f = "\<lambda>r. r\<lparr>rw_status := ''succeeded'', rw_summary := ''execution completed'', rw_finished_at := Some now\<rparr>"
  obtain b db' where up: "run_update ''running'' ?f tenant i db = (b, db')" by fastforce
  have "schema_ok db'" by (rule run_update_schema [OF db_okD(1) [OF assms(1)] up]) (simp_all add: row_checks_def text_ok_def)
  then show ?thesis
    by (rule answers_as_plain [OF pg_succeed_commits [where U = U, OF assms] _ , rotated])
       (simp add: pg_succeed_def with_uuid_def assms(2) up)
qed

lemma pg_fail_answers:
  assumes "db_ok db" and "U run_id = Some i" and "text_ok error"
  shows "answers_as (pg_fail now U error tenant run_id db) (guarded ''running'' (store_fail error tenant i) tenant i (store_of db))"
proof -
  let ?f = "\<lambda>r. r\<lparr>rw_status := ''failed'', rw_summary := error, rw_finished_at := Some now\<rparr>"
  let ?Q = "\<lambda>s. of_steps tenant i s \<and> sp_status (sw_step s) = ''queued''" and ?g = "\<lambda>s. s\<lparr>sp_status := ''cancelled''\<rparr>"
  obtain b db1 where up: "run_update ''running'' ?f tenant i db = (b, db1)" by fastforce
  have ok1: "schema_ok db1" by (rule run_update_schema [OF db_okD(1) [OF assms(1)] up]) (use assms(3) in \<open>simp_all add: row_checks_def text_ok_def\<close>)
  obtain c db2 where steps: "update_steps ?Q ?g db1 = (c, db2)" by fastforce
  have "schema_ok db2"
    by (rule update_steps_schema [OF ok1 steps]) (use column_checks_step [OF ok1] in \<open>simp add: column_checks_def step_texts_def\<close>)
  with ok1 have "schema_ok (if b then snd (update_steps ?Q ?g db1) else db1)" by (simp only: steps snd_conv split: if_split) simp
  then show ?thesis
    by (rule answers_as_plain [OF pg_fail_commits [where U = U, OF assms(1,2)] _ , rotated])
       (simp add: pg_fail_def with_texts_def with_uuid_def assms(2,3) up)
qed

lemma pg_cancel_answers:
  assumes "db_ok db" and "U run_id = Some i"
  shows "answers_as (map_prod (map_sum id (map_option fst)) id (pg_cancel now U tenant run_id db)) (store_cancel tenant i (store_of db))"
proof -
  let ?P = "\<lambda>r. of_run tenant i r \<and> rw_status r \<notin> {''succeeded'', ''failed'', ''cancelled''}"
  let ?f = "\<lambda>r. r\<lparr>rw_cancelled := True, rw_status := ''cancelled'', rw_summary := ''cancelled by API request'',
      rw_finished_at := Some now\<rparr>"
  let ?Q = "\<lambda>s. of_steps tenant i s \<and> sp_status (sw_step s) \<in> {''queued'', ''running''}"
    and ?g = "\<lambda>s. s\<lparr>sp_status := ''cancelled''\<rparr>"
  obtain b db1 where up: "update_runs ?P ?f db = (b, db1)" by fastforce
  have ok1: "schema_ok db1" by (rule update_runs_schema [OF db_okD(1) [OF assms(1)] up]) (simp_all add: row_checks_def text_ok_def)
  obtain c db2 where steps: "update_steps ?Q ?g db1 = (c, db2)" by fastforce
  have "schema_ok db2"
    by (rule update_steps_schema [OF ok1 steps]) (use column_checks_step [OF ok1] in \<open>simp add: column_checks_def step_texts_def\<close>)
  with ok1 have ok: "schema_ok (if b then snd (update_steps ?Q ?g db1) else db1)" by (simp only: steps snd_conv split: if_split) simp
  show ?thesis
    by (rule answers_asI [OF pg_cancel_commits [where U = U, OF assms] _ ok])
       (simp only: pg_cancel_def with_uuid_def assms(2) option.case up prod.case Let_def)
qed

lemma pg_start_step_answers:
  assumes "db_ok db" and "U run_id = Some i" and "\<And>r. owned tenant i (store_of db) = Some r \<Longrightarrow> p < length (rr_steps r)"
    and "\<forall>s \<in> set (db_steps db). sp_attempts (sw_step s) < 32767"
  shows "answers_as (pg_start_step U (int p) tenant run_id db) (store_start_step p tenant i (store_of db))"
proof -
  let ?P = "\<lambda>s. step_at db tenant i (int p) s \<and> sp_status (sw_step s) \<in> {''queued'', ''failed''}"
  let ?f = "\<lambda>s. s\<lparr>sp_status := ''running'', sp_attempts := sp_attempts s + 1, sp_error := []\<rparr>"
  obtain b db' where up: "update_steps ?P ?f db = (b, db')" by fastforce
  have "schema_ok db'"
  proof (rule update_steps_schema [OF db_okD(1) [OF assms(1)] up])
    fix s assume s: "s \<in> set (db_steps db)"
    with assms(4) have "sp_attempts (sw_step s) < 32767" by blast
    with column_checks_step [OF db_okD(1) [OF assms(1)] s] show "column_checks (?f (sw_step s))"
      by (simp add: column_checks_def step_texts_def text_ok_def int2_def)
  qed
  moreover have "commits_as (pg_start_step U (int p) tenant run_id db) db (store_start_step p tenant i (store_of db))"
    by (rule pg_start_step_commits [where U = U, OF assms(1,2)]) (rule assms(3))
  moreover have "pg_start_step U (int p) tenant run_id db = commit b db db'"
    by (simp only: pg_start_step_def with_uuid_def assms(2) option.case up prod.case)
  ultimately show ?thesis by (rule answers_as_plain [rotated 2])
qed

lemma pg_fail_step_answers:
  assumes "db_ok db" and "U run_id = Some i" and "\<And>r. owned tenant i (store_of db) = Some r \<Longrightarrow> p < length (rr_steps r)"
    and "text_ok error"
  shows "answers_as (pg_fail_step U (int p) error tenant run_id db) (store_fail_step p error tenant i (store_of db))"
proof -
  let ?f = "\<lambda>s. s\<lparr>sp_status := ''failed'', sp_error := error\<rparr>"
  obtain b db' where up: "update_steps (step_at db tenant i (int p)) ?f db = (b, db')" by fastforce
  have "schema_ok db'"
    by (rule update_steps_schema [OF db_okD(1) [OF assms(1)] up])
       (use column_checks_step [OF db_okD(1) [OF assms(1)]] assms(4) in \<open>simp add: column_checks_def step_texts_def\<close>)
  moreover have "commits_as (pg_fail_step U (int p) error tenant run_id db) db (store_fail_step p error tenant i (store_of db))"
    by (rule pg_fail_step_commits [where U = U, OF assms(1,2)]) (rule assms(3))
  moreover have "pg_fail_step U (int p) error tenant run_id db = commit b db db'"
    using assms(4) by (simp add: pg_fail_step_def with_texts_def with_uuid_def assms(2) up)
  ultimately show ?thesis by (rule answers_as_plain [rotated 2])
qed

text \<open>The ranges of the columns that a finished step fills.\<close>

definition fits_int4 :: "int \<Rightarrow> bool" where
  "fits_int4 n \<longleftrightarrow> 0 \<le> n \<and> int4 n"

lemma pg_succeed_step_answers:
  assumes "db_ok db" and "U run_id = Some i" and p: "\<And>r. owned tenant i (store_of db) = Some r \<Longrightarrow> p < length (rr_steps r)"
    and "fits_int4 latency" and "fits_int4 inputs" and "fits_int4 outputs"
    and "or_empty answer = [] \<longrightarrow> owned tenant i (store_of db) \<noteq> None"
    and "list_all text_ok (optional_text answer)"
  shows "answers_as (pg_succeed_step U (int p) answer latency inputs outputs tenant run_id db)
     (store_succeed_step p answer latency inputs outputs tenant i (store_of db))"
proof -
  obtain out where out: "(if or_empty answer \<noteq> [] then answer else pg_mock_output tenant i (int p) db) = Some out"
  proof (cases "or_empty answer = []")
    case True
    with assms(7) obtain r where r: "find (of_run tenant i) (db_runs db) = Some r"
      by (auto simp: owned_store_of [OF db_okD(3) [OF assms(1)]])
    then have "p < length (steps_of_run db tenant i)"
      using p by (auto simp: owned_store_of [OF db_okD(3) [OF assms(1)]] steps_of_row)
    from pg_mock_output_at [OF assms(1) r this] that True show ?thesis by simp
  qed (use that in \<open>auto simp: or_empty_def split: option.splits\<close>)
  have "text_ok out"
  proof (cases "or_empty answer = []")
    case True
    then obtain s where s: "s \<in> set (db_steps db)" "out = ''mock execution completed step '' @ sp_node_id (sw_step s)"
      using out by (auto simp: pg_mock_output_def dest: find_Some_in)
    then show ?thesis
      using column_checks_step [OF db_okD(1) [OF assms(1)] s(1)] by (simp add: column_checks_def step_texts_def text_ok_def)
  next
    case False
    with out assms(8) show ?thesis by (simp add: optional_text_def)
  qed
  let ?f = "\<lambda>s. s\<lparr>sp_status := ''succeeded'', sp_output := out, sp_latency_ms := latency, sp_input_tokens := inputs,
      sp_output_tokens := outputs\<rparr>"
  obtain b db' where up: "update_steps (step_at db tenant i (int p)) ?f db = (b, db')" by fastforce
  have "schema_ok db'"
    by (rule update_steps_schema [OF db_okD(1) [OF assms(1)] up])
       (use column_checks_step [OF db_okD(1) [OF assms(1)]] assms(4-6) \<open>text_ok out\<close> in
         \<open>simp add: column_checks_def step_texts_def fits_int4_def\<close>)
  moreover have "commits_as (pg_succeed_step U (int p) answer latency inputs outputs tenant run_id db) db (store_succeed_step p answer latency inputs outputs tenant i (store_of db))"
    by (rule pg_succeed_step_commits [where U = U, OF assms(1,2)]) (rule assms(3))
  moreover have "pg_succeed_step U (int p) answer latency inputs outputs tenant run_id db = commit b db db'"
    using assms(8) by (simp only: pg_succeed_step_def with_texts_def with_uuid_def assms(2) option.case out up prod.case if_True)
  ultimately show ?thesis by (rule answers_as_plain [rotated 2])
qed

text \<open>Recording the id of a run at an external runtime: the unique index on it allows it once for a tenant.\<close>

definition runtime_id_free :: "run_db \<Rightarrow> string \<Rightarrow> string \<Rightarrow> string \<Rightarrow> bool" where
  "runtime_id_free db tenant i runtime \<longleftrightarrow>
     (\<forall>r \<in> set (db_runs db). rw_tenant_id r = tenant \<and> rw_runtime_run_id r = Some runtime \<longrightarrow> rw_id r = i)"

lemma set_runtime_schema:
  assumes "schema_ok db" and "update_runs (\<lambda>r. of_run tenant i r \<and> \<not> rw_cancelled r) (\<lambda>r. r\<lparr>rw_runtime_run_id := Some runtime\<rparr>) db = (b, db')"
    and "text_ok runtime" and "index_fits [tenant, runtime]" and "runtime_id_free db tenant i runtime"
  shows "schema_ok db'"
proof -
  let ?P = "\<lambda>r. of_run tenant i r \<and> \<not> rw_cancelled r" and ?k = "\<lambda>r. (rw_tenant_id r, rw_runtime_run_id r)"
  let ?g = "\<lambda>r. if ?P r then r\<lparr>rw_runtime_run_id := Some runtime\<rparr> else r"
  have g: "rw_id (?g r) = rw_id r" "rw_tenant_id (?g r) = rw_tenant_id r" "rw_idempotency_key (?g r) = rw_idempotency_key r" for r
    by simp_all
  have db': "db_runs db' = map ?g (db_runs db)" "db_steps db' = db_steps db"
    using assms(2) by (auto simp: update_runs_def update_rows_def)
  have ids: "distinct (map rw_id (db_runs db))" by (rule schema_okD(1) [OF assms(1)])
  have old: "inj_on ?k {r \<in> set (db_runs db). rw_runtime_run_id r \<noteq> None}"
    using assms(1) by (simp add: schema_ok_def distinct_map)
  have same: "rw_id a = rw_id b"
    if ab: "a \<in> set (db_runs db)" "b \<in> set (db_runs db)" "?k (?g a) = ?k (?g b)" "rw_runtime_run_id (?g a) \<noteq> None" for a b
  proof (cases "?P a \<or> ?P b")
    case True
    with ab assms(5) show ?thesis by (auto simp: of_run_def runtime_id_free_def split: if_splits)
  next
    case False
    with ab have "a = b" by (intro inj_onD [OF old]) auto
    then show ?thesis by simp
  qed
  have "inj_on ?k {r \<in> set (db_runs db'). rw_runtime_run_id r \<noteq> None}"
  proof (rule inj_onI)
    fix a' b' assume in_rows: "a' \<in> {r \<in> set (db_runs db'). rw_runtime_run_id r \<noteq> None}" "b' \<in> {r \<in> set (db_runs db'). rw_runtime_run_id r \<noteq> None}"
      and k: "?k a' = ?k b'"
    from in_rows obtain a b where ab: "a \<in> set (db_runs db)" "b \<in> set (db_runs db)" "a' = ?g a" "b' = ?g b"
      "rw_runtime_run_id (?g a) \<noteq> None" unfolding db'(1) by auto
    from same [OF ab(1,2) _ ab(5)] k ab(3,4) have "rw_id a = rw_id b" by blast
    with ids ab(1,2) have "a = b" by (simp add: distinct_map inj_on_def)
    with ab(3,4) show "a' = b'" by simp
  qed
  moreover have "distinct (db_runs db')"
  proof -
    have "map rw_id (db_runs db') = map rw_id (db_runs db)" by (simp add: db'(1) g comp_def)
    with ids show ?thesis by (metis distinct_map)
  qed
  ultimately have "distinct (map ?k (filter (\<lambda>r. rw_runtime_run_id r \<noteq> None) (db_runs db')))"
    by (simp add: distinct_map)
  moreover have "row_checks (?g r)" if "r \<in> set (db_runs db)" for r
    using that assms(1,3,4) by (auto simp: schema_ok_def row_checks_def optional_text_def of_run_def)
  then have "\<forall>r \<in> set (db_runs db'). row_checks r" unfolding db'(1) set_map by blast
  moreover have "map rw_id (db_runs db') = map rw_id (db_runs db)"
    "map (\<lambda>r. (rw_tenant_id r, rw_idempotency_key r)) (db_runs db') = map (\<lambda>r. (rw_tenant_id r, rw_idempotency_key r)) (db_runs db)"
    by (simp_all add: db'(1) g comp_def)
  moreover have "\<exists>q \<in> set (db_runs db'). rw_tenant_id q = sw_tenant_id s \<and> rw_id q = sw_run_id s"
    if "s \<in> set (db_steps db)" for s
  proof -
    from that assms(1) obtain r where "r \<in> set (db_runs db)" "rw_tenant_id r = sw_tenant_id s" "rw_id r = sw_run_id s"
      by (auto simp: schema_ok_def)
    then show ?thesis by (intro bexI [of _ "?g r"]) (simp_all only: g, simp add: db'(1))
  qed
  ultimately show ?thesis using assms(1) unfolding schema_ok_def by (simp only: db'(2)) blast
qed

lemma pg_set_runtime_answers:
  assumes "db_ok db" and "U run_id = Some i" and "text_ok runtime" and "index_fits [tenant, runtime]"
    and "runtime_id_free db tenant i runtime"
  shows "answers_as (pg_set_runtime_run_id U runtime tenant run_id db) (store_set_runtime_run_id runtime tenant i (store_of db))"
proof -
  obtain b db' where up: "update_runs (\<lambda>r. of_run tenant i r \<and> \<not> rw_cancelled r) (\<lambda>r. r\<lparr>rw_runtime_run_id := Some runtime\<rparr>) db = (b, db')"
    by fastforce
  show ?thesis
    by (rule answers_as_plain [OF pg_set_runtime_commits [where U = U, OF assms(1,2)] _ set_runtime_schema [OF db_okD(1) [OF assms(1)] up assms(3-5)]])
       (simp add: pg_set_runtime_run_id_def with_texts_def with_uuid_def assms(2,3) up)
qed

lemma pg_submit_answers:
  assumes "db_ok db" and "pg_fresh (now, run_id, tenant, task, project, key, specs) db"
  shows "answers_as (map_prod (map_sum id submit_answer) id (pg_submit now run_id tenant task project key specs db))
     (store_submit run_id tenant task project key specs (store_of db))"
proof -
  let ?out = "pg_submit now run_id tenant task project key specs db"
  have "run_id \<noteq> []" using assms(2) by (simp add: pg_fresh_def)
  note commits = pg_submit_commits [OF assms(1) this, of now tenant task project key specs]
  have "\<exists>r. fst (pg_file (now, run_id, tenant, task, project, key, specs) db) = Some r"
  proof (cases "ms_idempotency (store_of db) (tenant, key)")
    case None
    from pg_file_new [OF assms(1) this assms(2)] show ?thesis by auto
  next
    case (Some i)
    from pg_file_known [OF assms(1) Some, of now run_id task project specs] assms(2) show ?thesis by (auto simp: pg_fresh_def pg_storable_def)
  qed
  then obtain a db' where "?out = (Inr a, db')"
    by (auto simp: pg_file_def split: prod.splits sum.splits)
  with commits show ?thesis by (simp add: commits_as_def answers_as_def)
qed

text \<open>
  C20. The production store answers as the in-memory store that the other theorems speak of. Asked for a run by
  any text that reads as its id, within the ranges of the columns, with texts the columns hold, and with a runtime
  id that no other run of the tenant has, every method that the handlers and threads call answers as the in-memory
  method does on the runs and keys the tables hold, and leaves tables that hold its result; no constraint of the
  schema fails. The differences: starting and finishing are stricter, from queued and from running, and an empty
  project or runtime id reads as none.
\<close>

theorem production_store_answers:
  assumes "db_ok db" and "as_uuid run_id = Some i"
    and "\<And>r. owned tenant i (store_of db) = Some r \<Longrightarrow> p < length (rr_steps r)"
    and "\<forall>s \<in> set (db_steps db). sp_attempts (sw_step s) < 32767"
    and "fits_int4 latency" and "fits_int4 inputs" and "fits_int4 outputs"
    and "or_empty answer = [] \<longrightarrow> owned tenant i (store_of db) \<noteq> None"
    and "list_all text_ok (optional_text answer)" and "text_ok error"
    and "text_ok runtime" and "index_fits [tenant, runtime]" and "runtime_id_free db tenant i runtime"
    and "pg_fresh (now, new_id, tenant, task, project, key, specs) db"
  shows "answers_as (map_prod (map_sum id submit_answer) id (pg_submit now new_id tenant task project key specs db))
       (store_submit new_id tenant task project key specs (store_of db)) \<and>
     map_prod (map_sum id (map_option fst)) id (pg_get as_uuid tenant run_id db) = (Inr (store_get tenant i (store_of db)), db) \<and>
     (\<exists>v. pg_project_id as_uuid tenant run_id db = (Inr v, db) \<and> or_empty v = or_empty (store_project_id tenant i (store_of db))) \<and>
     (\<exists>v. pg_runtime_run_id as_uuid tenant run_id db = (Inr v, db) \<and>
        or_empty v = or_empty (store_runtime_run_id tenant i (store_of db))) \<and>
     answers_as (pg_set_runtime_run_id as_uuid runtime tenant run_id db)
       (store_set_runtime_run_id runtime tenant i (store_of db)) \<and>
     answers_as (map_prod (map_sum id (map_option fst)) id (pg_cancel now as_uuid tenant run_id db))
       (store_cancel tenant i (store_of db)) \<and>
     answers_as (pg_start as_uuid tenant run_id db) (guarded ''queued'' (store_start tenant i) tenant i (store_of db)) \<and>
     answers_as (pg_start_step as_uuid (int p) tenant run_id db) (store_start_step p tenant i (store_of db)) \<and>
     answers_as (pg_succeed_step as_uuid (int p) answer latency inputs outputs tenant run_id db)
       (store_succeed_step p answer latency inputs outputs tenant i (store_of db)) \<and>
     answers_as (pg_fail_step as_uuid (int p) error tenant run_id db) (store_fail_step p error tenant i (store_of db)) \<and>
     answers_as (pg_succeed now as_uuid tenant run_id db) (guarded ''running'' (store_succeed tenant i) tenant i (store_of db)) \<and>
     answers_as (pg_fail now as_uuid error tenant run_id db) (guarded ''running'' (store_fail error tenant i) tenant i (store_of db))"
proof -
  note obeys = assms(1,2)
  have texts: "\<exists>v. pg_project_id as_uuid tenant run_id db = (Inr v, db) \<and> or_empty v = or_empty (store_project_id tenant i (store_of db))"
    "\<exists>v. pg_runtime_run_id as_uuid tenant run_id db = (Inr v, db) \<and> or_empty v = or_empty (store_runtime_run_id tenant i (store_of db))"
    unfolding pg_project_id_def pg_runtime_run_id_def store_project_id_def store_runtime_run_id_def
    by (rule pg_column_answer [where U = as_uuid, OF obeys], simp add: record_of_def)+
  show ?thesis
    using texts pg_submit_answers [OF assms(1,14)] pg_get_answer [where U = as_uuid, OF obeys]
      pg_set_runtime_answers [where U = as_uuid, OF obeys assms(11-13)] pg_cancel_answers [where U = as_uuid, OF obeys]
      pg_start_answers [where U = as_uuid, OF obeys] pg_start_step_answers [where U = as_uuid, OF obeys assms(3,4)]
      pg_succeed_step_answers [where U = as_uuid, OF obeys assms(3,5-9)]
      pg_fail_step_answers [where U = as_uuid, OF obeys assms(3,10)]
      pg_succeed_answers [where U = as_uuid, OF obeys] pg_fail_answers [where U = as_uuid, OF obeys assms(10)]
    by (intro conjI) blast+
qed

lemma filed_run:
  "map_option (length \<circ> rr_steps) (owned ''t1'' ''u'' (store_of filed_db)) = Some 1"
  "map (sp_attempts \<circ> sw_step) (db_steps filed_db) = [0]"
  by code_simp+

theorem production_store_answers_witness:
  "answers_as (pg_start_step Some 0 ''t1'' ''u'' filed_db) (store_start_step 0 ''t1'' ''u'' (store_of filed_db)) \<and>
   answers_as (pg_succeed_step Some 0 None 20 0 0 ''t1'' ''u'' filed_db)
     (store_succeed_step 0 None 20 0 0 ''t1'' ''u'' (store_of filed_db)) \<and>
   answers_as (pg_set_runtime_run_id Some ''x1'' ''t1'' ''u'' filed_db) (store_set_runtime_run_id ''x1'' ''t1'' ''u'' (store_of filed_db))"
proof -
  have one: "0 < length (rr_steps r)" if "owned ''t1'' ''u'' (store_of filed_db) = Some r" for r
    using filed_run(1) that by simp
  have tries: "\<forall>s \<in> set (db_steps filed_db). sp_attempts (sw_step s) < 32767"
    using filed_run(2) by (auto simp: map_eq_Cons_conv)
  have mock: "or_empty None = [] \<longrightarrow> owned ''t1'' ''u'' (store_of filed_db) \<noteq> None"
    using filed_run(1) by auto
  have ints: "fits_int4 20" "fits_int4 0" by (simp_all add: fits_int4_def int4_def)
  have texts: "list_all text_ok (optional_text None)" "text_ok ''failed''" "text_ok ''x1''" "index_fits [''t1'', ''x1'']"
    by (simp_all add: optional_text_def text_ok_def index_fits_def)
  have free: "runtime_id_free filed_db ''t1'' ''u'' ''x1''" by code_simp
  have "row_of filed_db ''v'' = None" by code_simp
  then have "pg_fresh (''tuesday'', ''v'', ''t1'', ''report'', None, ''k2'', report_specs) filed_db"
    by (simp add: pg_fresh_def report_specs_def column_checks_def new_step_def int2_def int4_def pg_storable_def pg_sendable_def
        optional_text_def text_ok_def index_fits_def step_texts_def or_empty_def)
  from production_store_answers [where as_uuid = Some and run_id = "''u''" and p = 0 and now = "''tuesday''",
      OF filed_db_ok refl one tries ints(1,2,2) mock texts free this]
  show ?thesis by simp
qed

subsection \<open>What the API accepts fits the tables\<close>














end
