(* ===== verification/External_Runs.thy ===== *)
theory External_Runs
  imports Backend_External
begin

text \<open>
  The thread of an external run: it ends once its deadline passes, takes only steps of the store, settles the run
  unless an exception ends it, and what a cancellation reaches.
\<close>

subsection \<open>What the copying of steps keeps\<close>

text \<open>The methods of the store that copy a report.\<close>

inductive_set step_methods :: "string \<Rightarrow> string \<Rightarrow> (run_store \<Rightarrow> bool \<times> run_store) set" for tenant i where
  start: "store_start_step p tenant i \<in> step_methods tenant i"
| succeed: "store_succeed_step p answer latency inputs outputs tenant i \<in> step_methods tenant i"
| fail: "store_fail_step p error tenant i \<in> step_methods tenant i"

lemma sync_step_keeps:
  assumes "Q st" and "\<And>st f b st1. Q st \<Longrightarrow> f \<in> step_methods tenant i \<Longrightarrow> store_call others f st = (b, st1) \<Longrightarrow> Q st1"
    and "sync_step P others tenant i steps ms st = (ok, st')"
  shows "Q st'"
proof (cases "reported_position P steps ms")
  case None
  with assms(1,3) show ?thesis by (simp add: sync_step_def)
next
  case (Some found)
  show ?thesis
  proof (cases found)
    case None
    with Some assms(1,3) show ?thesis by (simp add: sync_step_def)
  next
    case position: (Some position)
    let ?status = "normalize_runtime_status P ms"
    obtain b st1 where started: "(if ?status \<in> {''running'', ''succeeded'', ''failed''} \<and> sp_status (steps ! position) = ''queued''
        then store_call others (store_start_step position tenant i) st else (True, st)) = (b, st1)" by fastforce
    then have st1: "Q st1" using assms(1) assms(2) [OF assms(1) step_methods.start [of position]] by (auto split: if_splits)
    have ended: "Q (snd (store_call others f st1))" if "f \<in> step_methods tenant i" for f
      using assms(2) [OF st1 that] by (metis prod.collapse)
    show ?thesis
      using assms(3) st1 ended [OF step_methods.succeed] ended [OF step_methods.fail] unfolding sync_step_def Some position
      by (simp only: option.case Let_def started) (auto split: bool.splits if_splits option.splits prod.splits)
  qed
qed

lemma sync_steps_keep:
  assumes "Q st" and "\<And>st f b st1. Q st \<Longrightarrow> f \<in> step_methods tenant i \<Longrightarrow> store_call others f st = (b, st1) \<Longrightarrow> Q st1"
    and "sync_steps P others tenant i steps reports st = (ok, st')"
  shows "Q st'"
  using assms(1,3)
proof (induction reports arbitrary: st)
  case (Cons report reports)
  show ?case
  proof (cases report)
    case (JObj ms)
    obtain b st1 where step: "sync_step P others tenant i steps ms st = (b, st1)" by fastforce
    have st1: "Q st1" by (rule sync_step_keeps [where Q = Q, OF Cons.prems(1) _ step]) (rule assms(2))
    show ?thesis
    proof (cases b)
      case True
      with Cons.prems(2) JObj step have "sync_steps P others tenant i steps reports st1 = (ok, st')" by simp
      with Cons.IH [OF st1] show ?thesis .
    next
      case False
      with Cons.prems(2) JObj step st1 show ?thesis by simp
    qed
  qed (use Cons in simp_all)
qed simp

lemma sync_keeps:
  assumes "Q st" and "\<And>st f b st1. Q st \<Longrightarrow> f \<in> step_methods tenant i \<Longrightarrow> store_call others f st = (b, st1) \<Longrightarrow> Q st1"
    and "\<And>st seen st1. Q st \<Longrightarrow> store_call others (\<lambda>S. (store_get tenant i S, S)) st = (seen, st1) \<Longrightarrow> Q st1"
    and "sync_external_steps P others tenant i report st = (ok, st')"
  shows "Q st'"
proof -
  obtain seen st1 where get: "store_call others (\<lambda>S. (store_get tenant i S, S)) st = (seen, st1)" by fastforce
  note st1 = assms(3) [OF assms(1) get]
  have "Q st2" if "sync_steps P others tenant i steps reports st1 = (b, st2)" for steps reports b st2
    by (rule sync_steps_keep [where Q = Q, OF st1 _ that]) (rule assms(2))
  with assms(4) st1 show ?thesis
    unfolding sync_external_steps_def get by (auto split: option.splits json.splits)
qed

subsection \<open>The thread ends\<close>

lemma sync_ticks:
  assumes "sync_external_steps P others tenant i report st = (ok, st')"
  shows "en_tick st < en_tick st'"
proof -
  obtain seen st1 where get: "store_call others (\<lambda>S. (store_get tenant i S, S)) st = (seen, st1)" by fastforce
  have "en_tick st < en_tick st2" if "sync_steps P others tenant i steps reports st1 = (b, st2)" for steps reports b st2
    by (rule sync_steps_keep [where Q = "\<lambda>st'. en_tick st < en_tick st'", OF _ _ that])
       (auto dest: store_call_tickD simp: store_call_tickD [OF get])
  with assms store_call_tickD [OF get] show ?thesis
    unfolding sync_external_steps_def get by (auto split: option.splits json.splits)
qed

lemma poll_once_goes_on:
  assumes "poll_once X others C tenant i project external_id deadline report st e = Inr (report1, st1, e1)"
  shows "en_tick st < en_tick st1 \<and> \<not> deadline \<le> re_now X (en_tick st1)"
proof -
  obtain ok st2 where sync: "sync_external_steps (re_python X) others tenant i report st = (ok, st2)" by fastforce
  with assms sync_ticks [OF sync] show ?thesis
    by (auto simp: poll_once_def Let_def split: bool.splits if_splits prod.splits runtime_answer.splits)
qed

lemma poll_ends:
  assumes "\<forall>n \<ge> N. deadline \<le> re_now X n"
  shows "\<exists>ended. poll_external X others C tenant i project external_id deadline report st e = Some ended"
proof (induction "N - en_tick st" arbitrary: report st e rule: less_induct)
  case less
  show ?case
  proof (cases "poll_once X others C tenant i project external_id deadline report st e")
    case (Inl ended)
    then show ?thesis by (subst poll_external.simps) (cases ended, simp)
  next
    case (Inr going)
    obtain report1 st1 e1 where going: "going = (report1, st1, e1)" by (cases going)
    from poll_once_goes_on [OF Inr [unfolded this]] assms have "en_tick st < en_tick st1" "en_tick st1 < N"
      by (auto simp: not_le)
    then have "N - en_tick st1 < N - en_tick st" by simp
    from less [OF this, of report1 e1] Inr going show ?thesis by (subst poll_external.simps) simp
  qed
qed

text \<open>
  C25. The thread of an external run ends, whatever the runtime answers and whatever others do to the store, once
  the clock passes the deadline; a clock that passes every reading is enough.
\<close>

theorem external_execution_ends:
  assumes "\<And>b. \<exists>N. \<forall>n \<ge> N. b \<le> re_now X n"
  shows "\<exists>ended. execute_run_externally X others tenant i task project key st e = Some ended"
proof -
  have poll: "poll_external X others C tenant i project external_id deadline report st e \<noteq> None"
    for C external_id deadline report st e
  proof -
    obtain N where "\<forall>n \<ge> N. deadline \<le> re_now X n" using assms [of deadline] by blast
    from poll_ends [OF this, of others C tenant i project external_id report st e] show ?thesis by (simp add: not_None_eq)
  qed
  have handed: "execute_external_run X others tenant i task project key steps st e \<noteq> None" for key steps st
  proof (cases "hand_over X others tenant i task project key steps st e")
    case (Inl ended)
    then show ?thesis by (simp add: execute_external_run_def)
  next
    case (Inr going)
    with poll show ?thesis by (cases going) (simp add: execute_external_run_def)
  qed
  obtain started st1 where start: "store_call others (store_start tenant i) st = (started, st1)" by fastforce
  obtain seen st2 where get: "store_call others (\<lambda>S. (store_get tenant i S, S)) st1 = (seen, st2)" by fastforce
  have "execute_run_externally X others tenant i task project key st e \<noteq> None"
    using handed by (cases started; cases seen) (simp_all add: execute_run_externally_def start get)
  then show ?thesis by blast
qed

subsection \<open>What the thread keeps\<close>

text \<open>A round of the loop carries \<open>Q\<close> over, and ends in \<open>ended\<close>.\<close>

lemma poll_invariant:
  assumes "poll_external X others C tenant i project external_id deadline report st e = Some ended" and "Q st e"
    and "\<And>report st e report1 st1 e1. Q st e \<Longrightarrow>
      poll_once X others C tenant i project external_id deadline report st e = Inr (report1, st1, e1) \<Longrightarrow> Q st1 e1"
    and "\<And>report st e. Q st e \<Longrightarrow>
      poll_once X others C tenant i project external_id deadline report st e = Inl ended \<Longrightarrow> R"
  shows R
  using assms
proof (induction rule: poll_external.raw_induct [rotated, consumes 1, case_names round])
  case (round poll X others C tenant i project external_id deadline report st e ended)
  show ?case
  proof (cases "poll_once X others C tenant i project external_id deadline report st e")
    case (Inl ended')
    with round(2) have "ended' = ended" by simp
    with round(5) [OF round(3)] Inl show ?thesis by blast
  next
    case (Inr going)
    obtain report1 st1 e1 where going: "going = (report1, st1, e1)" by (cases going)
    from round(2) Inr going have again: "poll X others C tenant i project external_id deadline report1 st1 e1 = Some ended" by simp
    show ?thesis
      by (rule round(1) [OF again round(4) [OF round(3) Inr [unfolded going]]], erule round(4), assumption, erule round(5), assumption)
  qed
qed

text \<open>Every state of the thread is reached from the one it began with by steps of the store.\<close>

lemma passes_refl: "store_ok (en_store st) \<Longrightarrow> passes R st st"
  by (simp add: passes_def)

lemma call_passes:
  assumes "orderly store_step others" and "passes store_step st0 st" and "\<And>S. snd (f S) = S \<or> store_step S (snd (f S))"
    and "store_call others f st = (a, st1)"
  shows "passes store_step st0 st1"
  by (rule passes_trans [OF assms(2) store_call_steps [OF store_step_calls [of undefined] assms(1) passes_ok [OF assms(2)] assms(3,4)]])

lemma step_method_step: "f \<in> step_methods tenant i \<Longrightarrow> store_step S (snd (f S))"
  by (induction rule: step_methods.induct) (rule store_step.intros)+

lemma sync_passes:
  assumes "orderly store_step others" and "passes store_step st0 st"
    and "sync_external_steps P others tenant i report st = (ok, st')"
  shows "passes store_step st0 st'"
proof (rule sync_keeps [where Q = "passes store_step st0", OF assms(2) _ _ assms(3)])
  fix st f b st1 assume "passes store_step st0 st" "f \<in> step_methods tenant i" "store_call others f st = (b, st1)"
  from call_passes [OF assms(1) this(1) _ this(3)] step_method_step [OF this(2)] show "passes store_step st0 st1" by blast
next
  fix st seen st1 assume "passes store_step st0 st" "store_call others (\<lambda>S. (store_get tenant i S, S)) st = (seen, st1)"
  from call_passes [OF assms(1) this(1) _ this(2)] show "passes store_step st0 st1" by simp
qed

lemma return_passes:
  assumes "orderly store_step others" and "passes store_step st0 st" and "\<And>S. store_step S (snd (f S))"
  shows "passes store_step st0 (fst (snd (return_after others f st e)))"
proof -
  obtain a st1 where call: "store_call others f st = (a, st1)" by fastforce
  from call_passes [OF assms(1,2) _ call] assms(3) show ?thesis by (simp add: return_after_def call)
qed

lemma poll_once_passes:
  assumes "orderly store_step others" and "passes store_step st0 st"
  shows "poll_once X others C tenant i project external_id deadline report st e = Inr (report1, st1, e1) \<Longrightarrow> passes store_step st0 st1"
    and "poll_once X others C tenant i project external_id deadline report st e = Inl ended \<Longrightarrow> passes store_step st0 (fst (snd ended))"
proof -
  obtain ok st2 where sync: "sync_external_steps (re_python X) others tenant i report st = (ok, st2)" by fastforce
  note st2 = sync_passes [OF assms sync]
  note ends = return_passes [OF assms(1) st2, OF store_step.succeed] return_passes [OF assms(1) st2, OF store_step.cancel]
    return_passes [OF assms(1) st2, OF store_step.fail]
  show "poll_once X others C tenant i project external_id deadline report st e = Inr (report1, st1, e1) \<Longrightarrow> passes store_step st0 st1"
    using sync st2 by (auto simp: poll_once_def Let_def split: bool.splits if_splits prod.splits runtime_answer.splits)
  show "poll_once X others C tenant i project external_id deadline report st e = Inl ended \<Longrightarrow> passes store_step st0 (fst (snd ended))"
    using sync st2 ends by (auto simp: poll_once_def Let_def split: bool.splits if_splits prod.splits runtime_answer.splits)
qed

lemma hand_over_passes:
  assumes "orderly store_step others" and "passes store_step st0 st"
  shows "hand_over X others tenant i task project key steps st e = Inr (C, external_id, external, st1, e1) \<Longrightarrow> passes store_step st0 st1"
    and "hand_over X others tenant i task project key steps st e = Inl ended \<Longrightarrow> passes store_step st0 (fst (snd ended))"
proof -
  note ends = return_passes [OF assms(1,2), OF store_step.fail]
  have recorded: "passes store_step st0 st1"
    if "store_call others (store_set_runtime_run_id external_id tenant i) st = (b, st1)" for external_id b st1
    by (rule call_passes [OF assms(1,2) _ that]) (simp add: store_step.set_runtime)
  show "hand_over X others tenant i task project key steps st e = Inr (C, external_id, external, st1, e1) \<Longrightarrow> passes store_step st0 st1"
    using recorded
    by (auto simp: hand_over_def Let_def split: sum.splits option.splits prod.splits runtime_answer.splits bool.splits if_splits)
  show "hand_over X others tenant i task project key steps st e = Inl ended \<Longrightarrow> passes store_step st0 (fst (snd ended))"
    using recorded ends assms(2)
    by (auto simp: hand_over_def Let_def split: sum.splits option.splits prod.splits runtime_answer.splits bool.splits if_splits)
qed

lemma external_execution_steps:
  assumes "orderly store_step others" and "store_ok (en_store st)"
    and "execute_run_externally X others tenant i task project key st e = Some (how, st', e')"
  shows "passes store_step st st'"
proof -
  obtain started st1 where start: "store_call others (store_start tenant i) st = (started, st1)" by fastforce
  obtain seen st2 where get: "store_call others (\<lambda>S. (store_get tenant i S, S)) st1 = (seen, st2)" by fastforce
  note refl = passes_refl [where R = store_step, OF assms(2)]
  have st1: "passes store_step st st1" by (rule call_passes [OF assms(1) refl _ start]) (simp add: store_step.start)
  have st2: "passes store_step st st2" by (rule call_passes [OF assms(1) st1 _ get]) simp
  have handed: "passes store_step st st'"
    if run: "execute_external_run X others tenant i task project key steps st2 e = Some (how, st', e')" for key steps
  proof (cases "hand_over X others tenant i task project key steps st2 e")
    case (Inl ended)
    with run hand_over_passes(2) [OF assms(1) st2 Inl] show ?thesis by (simp add: execute_external_run_def)
  next
    case (Inr going)
    obtain C external_id external st3 e3 where going: "going = (C, external_id, external, st3, e3)" by (cases going)
    note st3 = hand_over_passes(1) [OF assms(1) st2 Inr [unfolded going]]
    from run Inr going have "poll_external X others C tenant i project external_id
        (re_now X (en_tick st3) + run_timeout X) external st3 e3 = Some (how, st', e')"
      by (simp add: execute_external_run_def)
    then show ?thesis
    proof (rule poll_invariant [where Q = "\<lambda>st' e. passes store_step st st'", OF _ st3])
      show "passes store_step st st1" if "passes store_step st st2" and "poll_once X others C tenant i project external_id
          (re_now X (en_tick st3) + run_timeout X) report st2 e = Inr (report1, st1, e1)" for report st2 e report1 st1 e1
        by (rule poll_once_passes(1) [OF assms(1) that])
      show "passes store_step st st'" if "passes store_step st st2" and "poll_once X others C tenant i project external_id
          (re_now X (en_tick st3) + run_timeout X) report st2 e = Inl (how, st', e')" for report st2 e
        using poll_once_passes(2) [OF assms(1) that] by simp
    qed
  qed
  from assms(3) start get st1 st2 handed show ?thesis
    by (auto simp: execute_run_externally_def split: bool.splits option.splits)
qed

text \<open>
  A cancelled run stays cancelled, whatever the external runtime reports about it. When a call of the thread
  meets a store in which others have cancelled a run, its record stays as the cancellation wrote it.
\<close>

lemma external_cancellation_is_final:
  assumes "orderly store_step others" and "store_ok (en_store st)"
    and "execute_run_externally X others tenant i task project key st e = Some (how, st', e')"
    and "S \<in> set (drop (length (en_log st)) (en_log st'))" and "ms_runs S j = Some r" and "rr_cancelled r"
  shows "ms_runs (en_store st') j = Some r"
proof -
  from external_execution_steps [OF assms(1-3)] assms(4) have
    S: "store_ok S" "store_step\<^sup>*\<^sup>* S (en_store st')"
    by (auto simp: passes_def)
  show ?thesis by (rule store_steps_frozen [OF S(2,1) assms(5,6)])
qed

subsection \<open>A run that is left alone\<close>

definition working :: "string \<Rightarrow> string \<Rightarrow> run_store \<Rightarrow> bool" where
  "working tenant i S \<longleftrightarrow>
     (\<exists>r. ms_runs S i = Some r \<and> rr_tenant_id r = tenant \<and> \<not> rr_cancelled r \<and> rr_status r = ''running'')"

definition outcome :: "string \<Rightarrow> thread_end \<Rightarrow> run_store \<Rightarrow> bool" where
  "outcome i how S \<longleftrightarrow>
     (\<exists>r. ms_runs S i = Some r \<and> (how = Returned \<longrightarrow> terminal_status (rr_status r)) \<and> (how = Died \<longrightarrow> rr_status r = ''running''))"

lemma store_call_alone: "store_call alone f st = (a, st1) \<Longrightarrow> f (en_store st) = (a, en_store st1)"
  by (auto simp: store_call_def call_on_def alone_def split: prod.splits)

lemma working_update:
  assumes "working tenant i S" and "update_live f tenant i S = (b, S1)"
    and "\<And>r r'. f r = Some r' \<Longrightarrow> rr_tenant_id r' = rr_tenant_id r \<and> rr_cancelled r' = rr_cancelled r \<and> rr_status r' = rr_status r"
  shows "working tenant i S1"
proof -
  obtain r where r: "ms_runs S i = Some r" "rr_tenant_id r = tenant" "\<not> rr_cancelled r" "rr_status r = ''running''"
    using assms(1) by (auto simp: working_def)
  then have owned: "owned tenant i S = Some r" by (simp add: owned_def)
  show ?thesis
  proof (cases "f r")
    case None
    with assms(1,2) owned r(3) show ?thesis by (simp add: update_live_def)
  next
    case (Some r')
    with assms(2) owned r(3) have "ms_runs S1 i = Some r'" by (auto simp: update_live_def)
    with assms(3) [OF Some] r show ?thesis by (simp add: working_def)
  qed
qed

lemma working_method:
  assumes "working tenant i (en_store st)" and "f \<in> step_methods tenant i" and "store_call alone f st = (b, st1)"
  shows "working tenant i (en_store st1)"
  using assms(2) store_call_alone [OF assms(3)]
  by (induction rule: step_methods.induct)
     (auto elim!: working_update [OF assms(1)] simp: store_start_step_def store_succeed_step_def store_fail_step_def Let_def
        split: if_splits)

lemma working_sync:
  assumes "working tenant i (en_store st)" and "sync_external_steps P alone tenant i report st = (ok, st')"
  shows "working tenant i (en_store st')"
  by (rule sync_keeps [where Q = "\<lambda>st. working tenant i (en_store st)", OF assms(1) _ _ assms(2)])
     (auto dest: store_call_alone elim: working_method)

lemma working_return:
  assumes "working tenant i (en_store st)" and "return_after alone f st e = (how, st', e')"
    and "\<And>S. working tenant i S \<Longrightarrow> outcome i Returned (snd (f S))"
  shows "outcome i how (en_store st')"
proof -
  obtain a st1 where call: "store_call alone f st = (a, st1)" by fastforce
  from assms(3) [OF assms(1)] store_call_alone [OF call] assms(2) show ?thesis by (auto simp: return_after_def call)
qed

lemma working_ends:
  assumes "working tenant i S"
  shows "outcome i Returned (snd (store_succeed tenant i S))" and "outcome i Returned (snd (store_fail error tenant i S))"
    and "outcome i Returned (snd (store_cancel tenant i S))" and "outcome i Died S"
  using assms
  by (auto simp: working_def outcome_def store_succeed_def store_fail_def store_cancel_def update_live_def owned_def
      cancelled_record_def terminal_status_def)

lemma working_poll_once:
  assumes "working tenant i (en_store st)"
  shows "poll_once X alone C tenant i project external_id deadline report st e = Inr (report1, st1, e1) \<Longrightarrow>
      working tenant i (en_store st1)"
    and "poll_once X alone C tenant i project external_id deadline report st e = Inl (how, st', e') \<Longrightarrow> outcome i how (en_store st')"
proof -
  obtain ok st2 where sync: "sync_external_steps (re_python X) alone tenant i report st = (ok, st2)" by fastforce
  note st2 = working_sync [OF assms sync]
  note ends = working_return [OF st2 _ working_ends(1)] working_return [OF st2 _ working_ends(2)]
    working_return [OF st2 _ working_ends(3)] working_ends(4) [OF st2]
  show "poll_once X alone C tenant i project external_id deadline report st e = Inr (report1, st1, e1) \<Longrightarrow>
      working tenant i (en_store st1)"
    using sync st2 by (auto simp: poll_once_def Let_def split: bool.splits if_splits prod.splits runtime_answer.splits)
  show "poll_once X alone C tenant i project external_id deadline report st e = Inl (how, st', e') \<Longrightarrow> outcome i how (en_store st')"
    using sync ends by (auto simp: poll_once_def Let_def split: bool.splits if_splits prod.splits runtime_answer.splits)
qed

lemma working_recorded:
  assumes "working tenant i (en_store st)" and "store_call alone (store_set_runtime_run_id external_id tenant i) st = (b, st1)"
  shows "b \<and> working tenant i (en_store st1)"
proof -
  note call = store_call_alone [OF assms(2), unfolded store_set_runtime_run_id_def]
  have "working tenant i (en_store st1)" by (rule working_update [OF assms(1) call]) auto
  moreover from call assms(1) have b by (auto simp: update_live_def working_def owned_def)
  ultimately show ?thesis by simp
qed

lemma working_hand_over:
  assumes "working tenant i (en_store st)"
  shows "hand_over X alone tenant i task project key steps st e = Inr (C, external_id, external, st1, e1) \<Longrightarrow>
      working tenant i (en_store st1)"
    and "hand_over X alone tenant i task project key steps st e = Inl (how, st', e') \<Longrightarrow> outcome i how (en_store st')"
proof -
  note recorded = working_recorded [OF assms]
  note ends = working_return [OF assms _ working_ends(2)] working_ends(4) [OF assms]
  show "hand_over X alone tenant i task project key steps st e = Inr (C, external_id, external, st1, e1) \<Longrightarrow>
      working tenant i (en_store st1)"
    using recorded
    by (auto simp: hand_over_def Let_def split: sum.splits option.splits prod.splits runtime_answer.splits bool.splits if_splits)
  show "hand_over X alone tenant i task project key steps st e = Inl (how, st', e') \<Longrightarrow> outcome i how (en_store st')"
    using recorded ends
    by (auto simp: hand_over_def Let_def split: sum.splits option.splits prod.splits runtime_answer.splits bool.splits if_splits)
qed

lemma working_external:
  assumes "working tenant i (en_store st)"
    and "execute_external_run X alone tenant i task project key steps st e = Some (how, st', e')"
  shows "outcome i how (en_store st')"
proof (cases "hand_over X alone tenant i task project key steps st e")
  case (Inl ended)
  with assms(2) working_hand_over(2) [OF assms(1)] show ?thesis by (simp add: execute_external_run_def)
next
  case (Inr going)
  obtain C external_id external st1 e1 where going: "going = (C, external_id, external, st1, e1)" by (cases going)
  note st1 = working_hand_over(1) [OF assms(1) Inr [unfolded going]]
  from assms(2) Inr going have "poll_external X alone C tenant i project external_id
      (re_now X (en_tick st1) + run_timeout X) external st1 e1 = Some (how, st', e')"
    by (simp add: execute_external_run_def)
  then show ?thesis
    by (rule poll_invariant [where Q = "\<lambda>st e. working tenant i (en_store st)", OF _ st1])
       (erule (1) working_poll_once)+
qed

text \<open>
  C26. A run that an external runtime executes, and that nobody else touches, is finished when its thread returns:
  succeeded, failed or cancelled. But when an answer of the runtime raises an exception the thread does not
  catch, the run is left running, and no thread is left that would ever finish it.
\<close>

theorem external_run_settles:
  assumes "ms_runs (en_store st) i = Some r" and "rr_tenant_id r = tenant" and "\<not> rr_cancelled r"
    and "execute_run_externally X alone tenant i task project key st e = Some (how, st', e')"
  shows "\<exists>r'. ms_runs (en_store st') i = Some r' \<and>
     (case how of Returned \<Rightarrow> terminal_status (rr_status r') | Died \<Rightarrow> rr_status r' = ''running'')"
proof -
  let ?r1 = "r\<lparr>rr_status := ''running'', rr_summary := ''execution running''\<rparr>"
  obtain st1 where start: "store_call alone (store_start tenant i) st = (True, st1)" "ms_runs (en_store st1) i = Some ?r1"
    using call_alone [OF assms(1-3), of "\<lambda>r. Some (r\<lparr>rr_status := ''running'', rr_summary := ''execution running''\<rparr>)"]
    by (auto simp: store_start_def)
  obtain seen st2 where get: "store_call alone (\<lambda>S. (store_get tenant i S, S)) st1 = (seen, st2)" by fastforce
  from store_call_alone [OF get] have st2: "en_store st2 = en_store st1" "seen = store_get tenant i (en_store st1)" by auto
  have "working tenant i (en_store st2)" using start(2) assms(2,3) by (simp add: working_def st2)
  note external = working_external [OF this]
  have "seen = Some (snapshot ?r1)" using start(2) assms(2) by (simp add: st2 store_get_def owned_def)
  with assms(4) external have "outcome i how (en_store st')" by (simp add: execute_run_externally_def start(1) get)
  then show ?thesis by (cases how) (auto simp: outcome_def)
qed

subsection \<open>What a cancellation reaches\<close>

text \<open>The handler does here what it does without a runtime, unless the call of the runtime raises.\<close>

lemma cancel_run_local:
  "cancel_run_externally X run_id tenant_id B e = (reply, B', e') \<Longrightarrow>
     snd (cancel_run run_id tenant_id B) = B' \<and> (reply = fst (cancel_run run_id tenant_id B) \<or> fst reply = 500)"
  by (auto simp: cancel_run_externally_def cancel_run_def Let_def
      split: sum.splits option.splits prod.splits if_splits runtime_answer.splits)

lemma cancel_unrecorded:
  assumes "owned tenant i (be_store B) = Some r" and "rr_runtime_run_id r = None" and "tenant \<noteq> []"
  shows "cancel_run_externally X i (Some tenant) B e =
     ((200, enc_run (snapshot (cancelled_record r))),
      B\<lparr>be_store := (be_store B)\<lparr>ms_runs := (ms_runs (be_store B))(i \<mapsto> cancelled_record r)\<rparr>\<rparr>, e)"
  using assms
  by (simp add: cancel_run_externally_def require_tenant_def or_empty_def store_runtime_run_id_def store_cancel_def Let_def)

text \<open>
  C27. A run cancelled while it is being submitted goes on at the runtime. When a cancellation arrives after the
  runtime accepted a run and before the thread recorded its id there, neither the handler nor the thread cancels
  it at the runtime: the thread returns, the run counts as cancelled here, and no later cancellation is
  forwarded.
\<close>

theorem cancellation_during_submission_not_forwarded:
  assumes "build_runtime_client (re_python X) (re_getenv X) = Inr (Some C)"
    and "runtime_submit (re_exchange X) C tenant project task steps key e = (Replied external, e1)"
    and "text_of (re_python X) (get_or (re_python X) external ''id'' (JStr [])) \<noteq> []"
    and "owned tenant i (en_store st) = Some r" and "rr_runtime_run_id r = None" and "\<not> terminal_status (rr_status r)"
    and "tenant \<noteq> []" and "be_store B = en_store st"
    and "cancel_run_externally X i (Some tenant) B e1 = (reply, B', e2)" and "others (en_tick st) (en_store st) = be_store B'"
  shows "fst reply = 200 \<and> e2 = e1 \<and> store_get tenant i (be_store B') = Some (snapshot (cancelled_record r)) \<and>
     execute_external_run X others tenant i task project key steps st e =
       Some (Returned, \<lparr>en_store = be_store B', en_log = en_log st @ [be_store B']\<rparr>, e1) \<and>
     (\<forall>e3. snd (snd (cancel_run_externally X i (Some tenant) B' e3)) = e3)"
proof -
  let ?r = "cancelled_record r"
  have r: "ms_runs (en_store st) i = Some r" "rr_tenant_id r = tenant" using assms(4) by (auto simp: owned_def split: option.splits if_splits)
  have cancelled: "rr_cancelled ?r" "rr_tenant_id ?r = tenant" "rr_runtime_run_id ?r = None"
    using assms(5,6) r(2) by (simp_all add: cancelled_record_def)
  from cancel_unrecorded [where B = B, OF assms(4) [folded assms(8)] assms(5,7), of X e1] assms(9) have
    out: "fst reply = 200" "e2 = e1" "be_store B' = (en_store st)\<lparr>ms_runs := (ms_runs (en_store st))(i \<mapsto> ?r)\<rparr>"
    by (auto simp: assms(8))
  then have owned: "owned tenant i (be_store B') = Some ?r" using cancelled by (simp add: owned_def)
  have "store_call others (store_set_runtime_run_id external_id tenant i) st =
      (False, \<lparr>en_store = be_store B', en_log = en_log st @ [be_store B']\<rparr>)" for external_id
    using owned cancelled(1)
    by (simp add: store_call_def call_on_def assms(10) store_set_runtime_run_id_def update_live_def)
  then have "hand_over X others tenant i task project key steps st e =
      Inl (Returned, \<lparr>en_store = be_store B', en_log = en_log st @ [be_store B']\<rparr>, e1)"
    using assms(1-3) by (simp add: hand_over_def Let_def)
  with out owned cancel_unrecorded [where X = X, OF owned cancelled(3) assms(7)] show ?thesis
    by (simp add: execute_external_run_def store_get_def)
qed

subsection \<open>A runtime\<close>

text \<open>A runtime that counts its requests and answers each with the same report.\<close>

definition sample_runtime :: "(string \<times> json) list \<Rightarrow> nat runtime_env" where
  "sample_runtime report =
     \<lparr>re_host = \<lparr>xe_python = plain_python,
        xe_getenv = [''EXECUTION_MODE'' \<mapsto> ''equaxis'', ''EQUAXIS_RUNTIME_URL'' \<mapsto> ''http://runtime''],
        xe_exchange = (\<lambda>_. no_provider), xe_latency = (\<lambda>_. 20)\<rparr>,
      re_exchange = \<lparr>xc_do = (\<lambda>_ _ e. (Answered 200 ''report'', Suc e)), xc_parse = (\<lambda>_. Some (JObj report))\<rparr>,
      re_now = of_nat\<rparr>"

definition report_running :: "(string \<times> json) list" where
  "report_running = [(''id'', JStr ''x1''), (''status'', JStr ''running'')]"

definition report_broken :: "(string \<times> json) list" where
  "report_broken = [(''id'', JStr ''x1''), (''status'', JStr ''running''), (''steps'', JNull)]"

lemma sample_stripped: "strip ''http://runtime'' = ''http://runtime''" "strip [] = []"
  by code_simp+

lemma sample_client:
  "build_runtime_client (re_python (sample_runtime report)) (re_getenv (sample_runtime report)) =
     Inr (Some \<lparr>rc_base_url = ''http://runtime'', rc_token = [], rc_timeout = 30\<rparr>)"
proof -
  have "trim_right_slash ''http://runtime'' = ''http://runtime''" by code_simp
  then show ?thesis
    by (simp add: sample_runtime_def build_runtime_client_def execution_mode_def equaxis_from_env_def from_env_def or_empty_def
        sample_stripped new_client_def Let_def)
qed

lemma sample_runtime_submit:
  assumes "member report ''run'' = None"
  shows "runtime_submit (re_exchange (sample_runtime report)) C tenant project task steps key e = (Replied report, Suc e)"
  using assms by (simp add: runtime_submit_def runtime_request_def sample_runtime_def decoded_reply_def)

theorem external_execution_ends_witness:
  "\<exists>ended. execute_run_externally (sample_runtime report_running) alone ''t1'' ''u'' ''report'' None None short_execution 0 = Some ended"
proof (rule external_execution_ends)
  fix b :: rat
  obtain N where "b \<le> of_nat N" using real_arch_simple by blast
  then show "\<exists>N. \<forall>n \<ge> N. b \<le> re_now (sample_runtime report_running) n"
    by (intro exI [of _ N]) (auto simp: sample_runtime_def elim: order_trans)
qed

text \<open>The thread of the short run up to the third call of the store, which others may precede by a cancellation.\<close>

definition started_run :: run_record where
  "started_run = short_run\<lparr>rr_status := ''running'', rr_summary := ''execution running''\<rparr>"

definition started_store :: run_store where
  "started_store = (en_store short_execution)\<lparr>ms_runs := [''u'' \<mapsto> started_run]\<rparr>"

lemma started_run_simps:
  "rr_tenant_id started_run = ''t1''" "\<not> rr_cancelled started_run" "rr_runtime_run_id started_run = None"
  "rr_status started_run = ''running''" "ms_runs started_store = [''u'' \<mapsto> started_run]"
  "owned ''t1'' ''u'' started_store = Some started_run" "ms_runs (en_store short_execution) ''u'' = Some short_run"
  by (simp_all add: started_run_def started_store_def short_run_def new_record_def owned_def short_execution_def)

lemma sample_execution:
  assumes "others 0 = id" and "others 1 = id"
  shows "execute_run_externally X others ''t1'' ''u'' ''report'' None None short_execution e =
     execute_external_run X others ''t1'' ''u'' ''report'' None ''u'' (rr_steps started_run)
       \<lparr>en_store = started_store, en_log = [en_store short_execution, started_store]\<rparr> e"
proof -
  have start: "store_call others (store_start ''t1'' ''u'') short_execution =
      (True, \<lparr>en_store = started_store, en_log = [en_store short_execution]\<rparr>)"
    unfolding store_start_def
    by (subst call_update [where r = short_run and r' = started_run])
       (simp_all add: assms en_tick_def started_run_def started_store_def short_execution_def short_run_def new_record_def)
  have "store_call others (\<lambda>S. (store_get ''t1'' ''u'' S, S)) \<lparr>en_store = started_store, en_log = [en_store short_execution]\<rparr> =
      (Some (snapshot started_run), \<lparr>en_store = started_store, en_log = [en_store short_execution, started_store]\<rparr>)"
    by (simp add: store_call_def call_on_def en_tick_def assms(2) [unfolded One_nat_def] store_get_def started_run_simps)
  with start show ?thesis by (simp add: execute_run_externally_def or_empty_def snapshot_def)
qed

lemma sample_accepted:
  assumes "report \<in> {report_running, report_broken}"
  shows "member report ''run'' = None"
    and "text_of (re_python (sample_runtime report)) (get_or (re_python (sample_runtime report)) report ''id'' (JStr [])) = ''x1''"
  using assms by (auto simp: report_running_def report_broken_def get_or_def)

text \<open>The cancellation of the backend whose store holds the started run.\<close>

definition started_backend :: backend where
  "started_backend = \<lparr>be_store = started_store, be_drawn = 1, be_threads = [(''t1'', ''u'')]\<rparr>"

definition cancelled_store :: run_store where
  "cancelled_store = started_store\<lparr>ms_runs := (ms_runs started_store)(''u'' \<mapsto> cancelled_record started_run)\<rparr>"

lemma started_cancelled:
  "cancel_run_externally X ''u'' (Some ''t1'') started_backend e =
     ((200, enc_run (snapshot (cancelled_record started_run))), started_backend\<lparr>be_store := cancelled_store\<rparr>, e)"
  using cancel_unrecorded [of "''t1''" "''u''" started_backend started_run X e]
  by (simp add: started_backend_def started_run_simps cancelled_store_def)

lemma started_cancel_before:
  "cancel_before 2 2 started_store = cancelled_store"
  by (simp add: cancel_before_def store_cancel_def started_run_simps cancelled_store_def)

theorem cancellation_during_submission_not_forwarded_witness:
  "execute_external_run (sample_runtime report_running) (cancel_before 2) ''t1'' ''u'' ''report'' None ''u'' (rr_steps started_run)
     \<lparr>en_store = started_store, en_log = [en_store short_execution, started_store]\<rparr> 0 =
     Some (Returned, \<lparr>en_store = cancelled_store, en_log = [en_store short_execution, started_store, cancelled_store]\<rparr>, 1)"
proof -
  let ?st = "\<lparr>en_store = started_store, en_log = [en_store short_execution, started_store]\<rparr>"
  have id: "text_of (re_python (sample_runtime report_running))
      (get_or (re_python (sample_runtime report_running)) report_running ''id'' (JStr [])) \<noteq> []"
    by (simp add: sample_accepted(2))
  have run: "owned ''t1'' ''u'' (en_store ?st) = Some started_run" "\<not> terminal_status (rr_status started_run)"
    "be_store started_backend = en_store ?st" "''t1'' \<noteq> []"
    by (simp_all add: started_run_simps terminal_status_def started_backend_def)
  have met: "cancel_before 2 (en_tick ?st) (en_store ?st) = be_store (started_backend\<lparr>be_store := cancelled_store\<rparr>)"
  proof -
    have "en_tick ?st = 2" by (simp add: en_tick_def)
    then show ?thesis by (simp add: started_cancel_before)
  qed
  from cancellation_during_submission_not_forwarded [where X = "sample_runtime report_running" and others = "cancel_before 2" and
      st = ?st and task = "''report''" and project = None and key = "''u''" and steps = "rr_steps started_run" and e = 0,
      OF sample_client sample_runtime_submit [OF sample_accepted(1)] id run(1) started_run_simps(3) run(2,4,3) started_cancelled met]
  show ?thesis by simp
qed

lemma sample_cancelled_end:
  "execute_run_externally (sample_runtime report_running) (cancel_before 2) ''t1'' ''u'' ''report'' None None short_execution 0 =
     Some (Returned, \<lparr>en_store = cancelled_store, en_log = [en_store short_execution, started_store, cancelled_store]\<rparr>, 1)"
proof -
  let ?st = "\<lparr>en_store = started_store, en_log = [en_store short_execution, started_store]\<rparr>"
  have "rr_cancelled (cancelled_record started_run)" "rr_tenant_id (cancelled_record started_run) = ''t1''"
    by (simp_all add: cancelled_record_def terminal_status_def started_run_simps)
  then have "store_call (cancel_before 2) (store_set_runtime_run_id x ''t1'' ''u'') ?st =
      (False, \<lparr>en_store = cancelled_store, en_log = [en_store short_execution, started_store, cancelled_store]\<rparr>)" for x
    using started_cancel_before [unfolded numeral_2_eq_2]
    by (simp add: store_call_def call_on_def en_tick_def store_set_runtime_run_id_def update_live_def owned_def cancelled_store_def numeral_2_eq_2)
  moreover have "cancel_before 2 0 = id" "cancel_before 2 1 = id" by (auto simp: cancel_before_def)
  ultimately show ?thesis
    by (simp add: sample_execution execute_external_run_def hand_over_def sample_client sample_runtime_submit sample_accepted)
qed

theorem external_cancellation_is_final_witness:
  "ms_runs cancelled_store ''u'' = Some (cancelled_record started_run) \<and>
   execute_run_externally (sample_runtime report_running) (cancel_before 2) ''t1'' ''u'' ''report'' None None short_execution 0 =
     Some (Returned, \<lparr>en_store = cancelled_store, en_log = [en_store short_execution, started_store, cancelled_store]\<rparr>, 1)"
proof -
  have "cancelled_store \<in> set (drop (length (en_log short_execution)) [en_store short_execution, started_store, cancelled_store])"
    by (simp add: short_execution_def)
  moreover have "ms_runs cancelled_store ''u'' = Some (cancelled_record started_run)" "rr_cancelled (cancelled_record started_run)"
    by (simp_all add: cancelled_store_def cancelled_record_def terminal_status_def started_run_simps)
  ultimately show ?thesis
    using external_cancellation_is_final [OF cancel_before_orderly short_execution_ok sample_cancelled_end, of cancelled_store "''u''"]
      sample_cancelled_end by simp
qed

lemma sample_broken_end:
  "map_option fst (execute_run_externally (sample_runtime report_broken) alone ''t1'' ''u'' ''report'' None None short_execution 0) =
     Some Died"
proof -
  let ?st = "\<lparr>en_store = started_store, en_log = [en_store short_execution, started_store]\<rparr>"
  let ?r = "started_run\<lparr>rr_runtime_run_id := Some ''x1''\<rparr>"
  have alone: "alone n = id" for n by (rule ext) (simp add: alone_def)
  obtain st1 where st1: "store_call alone (store_set_runtime_run_id ''x1'' ''t1'' ''u'') ?st = (True, st1)" "ms_runs (en_store st1) ''u'' = Some ?r"
    unfolding store_set_runtime_run_id_def
    using call_alone [of ?st "''u''" started_run "''t1''" "\<lambda>r. Some (r\<lparr>rr_runtime_run_id := Some ''x1''\<rparr>)" ?r]
    by (auto simp: started_run_simps)
  obtain st2 where get: "store_call alone (\<lambda>S. (store_get ''t1'' ''u'' S, S)) st1 = (Some (snapshot ?r), st2)"
    using st1(2) by (auto simp: store_call_def call_on_def alone store_get_def owned_def started_run_simps)
  have "member report_broken ''steps'' = Some JNull" by (simp add: report_broken_def)
  with get have "sync_external_steps P alone ''t1'' ''u'' report_broken st1 = (False, st2)" for P
    by (simp add: sync_external_steps_def)
  then have "poll_once X alone C ''t1'' ''u'' None ''x1'' deadline report_broken st1 e = Inl (Died, st2, e)"
    for X :: "nat runtime_env" and C deadline e
    by (simp add: poll_once_def Let_def)
  with st1(1) show ?thesis
    by (simp add: sample_execution alone execute_external_run_def hand_over_def sample_client sample_runtime_submit sample_accepted
        poll_external.simps)
qed

theorem external_run_settles_witness:
  "\<exists>st' e' r'. execute_run_externally (sample_runtime report_broken) alone ''t1'' ''u'' ''report'' None None short_execution 0 =
       Some (Died, st', e') \<and> ms_runs (en_store st') ''u'' = Some r' \<and> rr_status r' = ''running''"
proof -
  obtain st' e' where run: "execute_run_externally (sample_runtime report_broken) alone ''t1'' ''u'' ''report'' None None
      short_execution 0 = Some (Died, st', e')"
    using sample_broken_end by auto
  have "rr_tenant_id short_run = ''t1''" "\<not> rr_cancelled short_run" by (simp_all add: short_run_def new_record_def)
  from external_run_settles [OF started_run_simps(7) this run] run show ?thesis by auto
qed

end
