(* ===== verification/Backend_Threads.thy ===== *)
theory Backend_Threads
  imports External_Runs
begin

text \<open>
  What holds of the thread of a run, \<open>execute_run\<close>, in every mode: a cancellation is final, and in the modes in which
  the backend executes the run itself the thread ends after a number of store calls fixed by the steps.
\<close>

lemma thread_steps:
  assumes "orderly store_step others" and "store_ok (en_store st)"
    and "execute_run X others tenant run_id task project key st e = Some (st', e')"
  shows "passes store_step st st'"
proof (cases "external_mode (re_getenv X)")
  case True
  with assms(3) obtain how where "execute_run_externally X others tenant run_id task project key st e = Some (how, st', e')"
    by (auto simp: execute_run_external)
  from external_execution_steps [OF assms(1,2) this] show ?thesis .
next
  case False
  with assms(3) have "execute_run_in_process (re_host X) others tenant run_id task st = Some st'"
    by (auto simp: execute_run_internal)
  from execution_steps [OF store_step_calls assms(1,2) this] show ?thesis .
qed

text \<open>
  C29. A cancelled run stays cancelled. When a call of the thread meets a store in which others have cancelled a
  run, the thread, in whatever mode, and everybody else leave the record as the cancellation wrote it to the end,
  and a step that was being executed is not recorded.
\<close>

theorem cancellation_is_final:
  assumes "orderly store_step others" and "store_ok (en_store st)"
    and "execute_run X others tenant run_id task project key st e = Some (st', e')"
    and "S \<in> set (drop (length (en_log st)) (en_log st'))" and "ms_runs S i = Some r" and "rr_cancelled r"
  shows "ms_runs (en_store st') i = Some r"
proof -
  from thread_steps [OF assms(1-3)] assms(4) have
    S: "store_ok S" "store_step\<^sup>*\<^sup>* S (en_store st')"
    by (auto simp: passes_def)
  show ?thesis by (rule store_steps_frozen [OF S(2,1) assms(5,6)])
qed

theorem cancellation_is_final_witness:
  "\<exists>r. ms_runs (en_store cancelled_execution) ''u'' = Some r \<and> rr_status r = ''cancelled'' \<and>
     map sp_status (rr_steps r) = [''cancelled'']"
proof -
  obtain st' where "execute_run_in_process mock_env (cancel_before 3) ''t1'' ''u'' ''report'' short_execution = Some st'"
    using execution_ends by blast
  then have run: "execute_run_in_process mock_env (cancel_before 3) ''t1'' ''u'' ''report'' short_execution = Some cancelled_execution"
    by (simp add: cancelled_execution_def)
  then have thread: "execute_run mock_runtime (cancel_before 3) ''t1'' ''u'' ''report'' None None short_execution () =
      Some (cancelled_execution, ())"
    by (simp add: execute_run_internal)
  from cancelled_execution_met obtain S0 S1 S2 S r where
    met: "en_log cancelled_execution = [S0, S1, S2, S]" "ms_runs S ''u'' = Some r" "rr_cancelled r"
      "rr_status r = ''cancelled''" "map sp_status (rr_steps r) = [''cancelled'']"
    by (elim exE conjE)
  have "S \<in> set (drop (length (en_log short_execution)) (en_log cancelled_execution))"
    by (simp add: short_execution_def met(1))
  from cancellation_is_final [OF cancel_before_orderly short_execution_ok thread this met(2,3)] met(4,5) show ?thesis by simp
qed

text \<open>
  C30. The thread of a run that the backend executes itself, in the modes \<open>mock\<close> and \<open>live\<close>, ends, whatever the language
  model answers and whatever others do to the store in between: after at most two calls of the store for each try
  the steps allow, and a few around them. The runtime is not asked.
\<close>

theorem execution_terminates:
  assumes "\<not> external_mode (re_getenv X)"
  shows "\<exists>st'. execute_run X others tenant run_id task project key st e = Some (st', e) \<and>
     en_tick st' \<le> en_tick st + 3 + (\<Sum>s\<leftarrow>seen_steps others tenant run_id st. attempt_budget s (sp_attempts s))"
  using execution_ends [of "re_host X" others tenant run_id task st] by (auto simp: execute_run_internal [OF assms])

theorem execution_terminates_witness:
  "\<exists>st'. execute_run mock_runtime (cancel_before 3) ''t1'' ''u'' ''report'' None None short_execution () = Some (st', ())"
  using execution_terminates [of mock_runtime "cancel_before 3" "''t1''" "''u''" "''report''" None None short_execution "()"]
  by auto

end
