(* ===== verification/Backend_Startup.thy ===== *)
theory Backend_Startup
  imports Backend_Store "HOL-Library.List_Lexorder" "HOL-Library.Char_ord"
begin

text \<open>
  How the backend gets its store: \<open>build_store\<close> of src/backend/app/main.py and the runner of the migrations,
  \<open>PostgresRunStore._migrate\<close> of src/backend/app/store.py. The database that executes a migration is a parameter.
\<close>

datatype store_choice = Memory_store | Postgres_store string | Store_error string

definition quoted :: "string \<Rightarrow> string" where
  "quoted s = [CHR 0x27] @ s @ [CHR 0x27]"

definition build_store :: "(string \<Rightarrow> string option) \<Rightarrow> store_choice" where
  "build_store getenv =
     (let backend = (case getenv ''RUN_STORE'' of None \<Rightarrow> ''memory'' | Some s \<Rightarrow> s) in
      if backend = ''memory'' then Memory_store
      else if backend = ''postgres'' then
        (if or_empty (getenv ''DATABASE_URL'') = [] then Store_error ''DATABASE_URL is required when RUN_STORE=postgres''
         else Postgres_store (or_empty (getenv ''DATABASE_URL'')))
      else Store_error (''RUN_STORE must be '' @ quoted ''memory'' @ '' or '' @ quoted ''postgres''))"

subsection \<open>Migrations\<close>

text \<open>
  The database: its schema with all tables but one, and the names in \<open>schema_migrations\<close>. \<open>run_sql\<close> executes the
  text of a file, \<open>None\<close> is an error, which rolls the one transaction of all migrations back. A lock keeps other
  starting backends out until it ends.
\<close>

record 'd migrated =
  mg_schema :: 'd
  mg_versions :: "string list"

fun apply_migrations :: "(string \<Rightarrow> 'd \<Rightarrow> 'd option) \<Rightarrow> (string \<times> string) list \<Rightarrow> 'd migrated \<Rightarrow> 'd migrated option" where
  "apply_migrations run_sql [] M = Some M"
| "apply_migrations run_sql ((version, sql) # migrations) M =
     (if version \<in> set (mg_versions M) then apply_migrations run_sql migrations M
      else case run_sql sql (mg_schema M) of
        None \<Rightarrow> None
      | Some d \<Rightarrow> apply_migrations run_sql migrations \<lparr>mg_schema = d, mg_versions = mg_versions M @ [version]\<rparr>)"

definition migrate :: "(string \<Rightarrow> 'd \<Rightarrow> 'd option) \<Rightarrow> (string \<times> string) list \<Rightarrow> 'd migrated \<Rightarrow> 'd migrated option" where
  "migrate run_sql files = apply_migrations run_sql (sort_key fst files)"

text \<open>The files in their order, as one program.\<close>

fun run_files :: "(string \<Rightarrow> 'd \<Rightarrow> 'd option) \<Rightarrow> (string \<times> string) list \<Rightarrow> 'd \<Rightarrow> 'd option" where
  "run_files run_sql [] d = Some d"
| "run_files run_sql ((_, sql) # files) d = Option.bind (run_sql sql d) (run_files run_sql files)"

lemma apply_migrations_versions:
  assumes "apply_migrations run_sql migrations M = Some M'"
  shows "set (mg_versions M') = set (mg_versions M) \<union> fst ` set migrations"
    and "distinct (mg_versions M) \<Longrightarrow> distinct (mg_versions M')"
  using assms by (induction run_sql migrations M rule: apply_migrations.induct) (auto split: if_splits option.splits)

lemma apply_migrations_known:
  "fst ` set migrations \<subseteq> set (mg_versions M) \<Longrightarrow> apply_migrations run_sql migrations M = Some M"
  by (induction run_sql migrations M rule: apply_migrations.induct) auto

lemma apply_migrations_fresh:
  assumes "distinct (map fst migrations)" and "fst ` set migrations \<inter> set (mg_versions M) = {}"
  shows "apply_migrations run_sql migrations M =
     map_option (\<lambda>d. \<lparr>mg_schema = d, mg_versions = mg_versions M @ map fst migrations\<rparr>) (run_files run_sql migrations (mg_schema M))"
  using assms
  by (induction run_sql migrations M rule: apply_migrations.induct) (auto split: option.splits)

lemma apply_migrations_append:
  "apply_migrations run_sql (ms @ ms') M = Option.bind (apply_migrations run_sql ms M) (apply_migrations run_sql ms')"
  by (induction run_sql ms M rule: apply_migrations.induct) (auto split: option.split)

lemma insort_key_append:
  "\<forall>y \<in> set ys. f x < f y \<Longrightarrow> insort_key f x (xs @ ys) = insort_key f x xs @ ys"
  by (induction xs) (auto intro: insort_is_Cons simp: order.strict_implies_order)

lemma sort_key_append:
  "(\<And>x y. x \<in> set xs \<Longrightarrow> y \<in> set ys \<Longrightarrow> f x < f y) \<Longrightarrow> sort_key f (xs @ ys) = sort_key f xs @ sort_key f ys"
  by (induction xs) (simp_all add: insort_key_append)

text \<open>
  A backend that starts applies every migration exactly once, in the order of the file names, whatever version of
  it ran before: a restart changes nothing, and the migrations that a later version adds lead to the schema that
  all of them together make of the first one.
\<close>

lemma migrations_applied_once:
  assumes "migrate run_sql old M = Some M1" and "mg_versions M = []" and "distinct (map fst old)"
    and "\<And>x y. x \<in> set old \<Longrightarrow> y \<in> set new \<Longrightarrow> fst x < fst y"
  shows "mg_versions M1 = sort (map fst old) \<and> migrate run_sql old M1 = Some M1 \<and>
     migrate run_sql (old @ new) M1 = migrate run_sql (old @ new) M"
proof -
  have old: "apply_migrations run_sql (sort_key fst old) M = Some M1" using assms(1) by (simp add: migrate_def)
  have names: "map fst (sort_key fst old) = sort (map fst old)"
    by (rule sorted_distinct_set_unique) (use assms(3) in \<open>simp_all add: distinct_map\<close>)
  have "mg_versions M1 = map fst (sort_key fst old)"
    using old apply_migrations_fresh [of "sort_key fst old" M run_sql] assms(2,3)
    by (cases "run_files run_sql (sort_key fst old) (mg_schema M)") (auto simp: distinct_map)
  moreover have known: "apply_migrations run_sql (sort_key fst old) M1 = Some M1"
    using apply_migrations_versions(1) [OF old] by (intro apply_migrations_known) auto
  ultimately show ?thesis
    using old names sort_key_append [of old new fst] assms(4)
    by (simp add: migrate_def apply_migrations_append)
qed

text \<open>A database that keeps the texts it executed.\<close>

theorem migrations_applied_once_witness:
  "migrate (\<lambda>sql d. Some (d @ [sql])) [(''002_usage'', ''ADD''), (''001_runs'', ''CREATE''), (''003_retries'', ''ALTER'')]
     \<lparr>mg_schema = [''CREATE'', ''ADD''], mg_versions = [''001_runs'', ''002_usage'']\<rparr> =
   Some \<lparr>mg_schema = [''CREATE'', ''ADD'', ''ALTER''], mg_versions = [''001_runs'', ''002_usage'', ''003_retries'']\<rparr>"
proof -
  let ?run = "\<lambda>sql d. Some (d @ [sql])" and ?old = "[(''002_usage'', ''ADD''), (''001_runs'', ''CREATE'')]"
  let ?new = "[(''003_retries'', ''ALTER'')]" and ?M = "\<lparr>mg_schema = [], mg_versions = []\<rparr> :: string list migrated"
  have "migrate ?run ?old ?M = Some \<lparr>mg_schema = [''CREATE'', ''ADD''], mg_versions = [''001_runs'', ''002_usage'']\<rparr>"
    by code_simp
  note once = migrations_applied_once [OF this, of ?new]
  have "migrate ?run (?old @ ?new) ?M =
      Some \<lparr>mg_schema = [''CREATE'', ''ADD'', ''ALTER''], mg_versions = [''001_runs'', ''002_usage'', ''003_retries'']\<rparr>"
    by code_simp
  moreover have "fst x < fst y" if "x \<in> set ?old" "y \<in> set ?new" for x y
  proof -
    have "''002_usage'' < ''003_retries''" "''001_runs'' < ''003_retries''" by code_simp+
    with that show ?thesis by auto
  qed
  ultimately show ?thesis using once by simp
qed

end
