(* ===== verification/Spec2Isabelle.thy ===== *)
theory Spec2Isabelle
  imports Run_Lifecycle Run_Convergence Deep_Copy Operator_Loop Permissions Status_Schema Run_End_To_End
    Closed_Loop Backend_Order Postgres_Answers Backend_Threads Backend_Startup
begin

text \<open>
  A verification development for the Go operator of the Governed Agent control plane: the three
  Kubernetes controllers of src/controllers, their API types of src/api/v1alpha1, and the HTTP adapter
  through which they reach the FastAPI backend.

  \<^bold>\<open>The program.\<close> An administrator labels a Namespace with a tenant UUID. A TenantPolicy names the
  models and tools the tenant may use; an Agent names a model, tools and a policy; an AgentRun names an
  Agent and a task, possibly with a DAG of nodes. Each kind has a controller whose \<open>Reconcile\<close> is called
  with the name of an object, reads it, and writes its status. The TenantPolicy controller decides whether
  a policy is active, the Agent controller whether an Agent is ready under its policy, and the AgentRun
  controller submits a run of a ready Agent to the backend, polls and cancels it there, mirrors its
  lifecycle into the status, and expires and releases it. All state lives in the API server and in the
  backend; the controllers keep none between passes.

  \<^bold>\<open>Theories, in the order of their dependencies.\<close>
  \<^item> \<open>Prelude\<close>: the result type of fallible calls, lookups with Go's zero value, closure of relations.
  \<^item> \<open>Go_Strings\<close>, \<open>Go_Time\<close>, \<open>Go_Range\<close>: what the code uses of Go's \<open>strings\<close>, \<open>strconv\<close>, \<open>fmt\<close> and \<open>time\<close>
    packages, with \<open>int64\<close> durations that wrap, and the free order of \<open>range\<close> over a map.
  \<^item> \<open>Api_Types\<close>: the structs of src/api/v1alpha1 as records, field by field.
  \<^item> \<open>Platform\<close>: the parameters of the model. \<open>kube\<close> is the Kubernetes client, one function per call the
    controllers make, over an arbitrary world; \<open>platform\<close> holds \<open>uuid.Parse\<close>, \<open>meta.SetStatusCondition\<close>, the
    finalizer helpers and the Unicode print table. Their documented behaviour is stated by \<open>set_cond_law\<close>
    and \<open>finalizer_law\<close>, which the theorems that need them assume by name.
  \<^item> \<open>Dag_Validation\<close>: \<open>validateDAG\<close> with its depth-first search, proved total and equivalent to "distinct
    names, known dependencies, acyclic", for every \<open>range\<close> order; locale \<open>dag_checker\<close>.
  \<^item> \<open>Tenant_Context\<close>: \<open>tenantIDFor\<close>; locale \<open>tenant_resolver\<close>.
  \<^item> \<open>Tenant_Policy_Controller\<close>, \<open>Agent_Controller\<close>: validation, reconcile pass and watch function of the
    two controllers: when exactly a policy is active and an Agent ready, and that the passes settle.
  \<^item> \<open>Run_Gateway\<close>: the interface \<open>RunGateway\<close> and its contract, locale \<open>run_gateway\<close>. \<open>Json\<close> and
    \<open>Http_Gateway\<close>: the HTTP adapter behind it, from the request headers and bodies to the typed errors;
    it satisfies the contract for every network.
  \<^item> \<open>Run_Status\<close>: the projection of the backend's run into the status of the AgentRun, its invariant
    \<open>ledger_ok\<close>, and the clean-up of statuses written by earlier versions.
  \<^item> \<open>AgentRun_Controller\<close>: one definition per method of the AgentRun reconciler, composed as in the code.
  \<^item> \<open>Run_Trace\<close>: a pass as a sequence of events, and its specification \<open>run_pass\<close>, one rule per path; the
    model of the code refines it. \<open>Run_Safety\<close> derives what a pass may do from the rules, and
    \<open>Run_Properties\<close> states it of \<open>Reconcile\<close>, with a small cluster on which the hypotheses hold.
  \<^item> \<open>Run_Lifecycle\<close>: many passes against an API server with optimistic concurrency, stale reads, lost
    answers and edits of the labels and the spec, \<open>spec.idempotencyKey\<close> included.
  \<^item> \<open>Run_Convergence\<close>: under a backend that works on, a run reaches a terminal phase after a bounded number
    of passes.
  \<^item> \<open>Operator_Startup\<close>: \<open>init\<close> and \<open>main\<close> of src/cmd/main.go, the API group and the \<open>SetupWithManager\<close> of
    each controller; \<open>Operator_Loop\<close>: the queues they lead to, and that no unfinished run is forgotten;
    \<open>Permissions\<close>: the RBAC markers, and that no pass needs more.
  \<^item> \<open>Backend_Store\<close>, \<open>Backend_Dag\<close>, \<open>Backend_Api\<close>, \<open>Backend_Steps\<close>: the FastAPI backend behind the HTTP
    adapter, src/backend/app: its in-memory ledger with locale \<open>run_ledger\<close>, the ordering of the nodes, the
    request models and handlers, and the system of their steps. \<open>Backend_Sample\<close> is a concrete environment of
    it, \<open>Backend_Gateway\<close> puts the adapter in front of it.
  \<^item> \<open>Runtime_Client\<close>, \<open>Language_Model\<close>: the clients of an external agent runtime and of a language model, from the
    environment and the request to the errors, with what the code uses of Python's values.
  \<^item> \<open>Backend_Executor\<close>: the steps that \<open>execute_run\<close> executes itself, one store call at a time, with anything
    happening to the store in between. \<open>Backend_External\<close>: \<open>execute_run\<close> with its branch to an external runtime,
    the thread of that branch, and the forwarding of cancellations; \<open>External_Runs\<close>: that the branch ends with its
    deadline, takes only steps of the store, and when it leaves a run unfinished or uncancelled at the runtime.
    \<open>Backend_Threads\<close>: of every thread, that a cancellation is final, and that it ends in the modes \<open>mock\<close> and \<open>live\<close>.
  \<^item> \<open>Run_End_To_End\<close> follows a submission through the
    adapter, the handler, the thread and the poll into the status.
    \<open>Closed_Loop\<close> closes it with the operator: three passes and one turn of the thread take a new AgentRun
    to success.
    \<open>Backend_Order\<close>: under interference that leaves the steps of a run to its thread, a step starts only after
    the steps it depends on have succeeded.
  \<^item> \<open>Backend_Postgres\<close>: the PostgreSQL store over the tables and constraints of src/backend/migrations;
    \<open>Postgres_Refinement\<close>: every transaction is a step of the in-memory ledger, and the store is the second
    provider of \<open>run_ledger\<close>; \<open>Postgres_Answers\<close>: within the ranges and texts of the columns it gives the same
    answers, and of what the API accepts it files all but the texts that PostgreSQL cannot hold.
  \<^item> \<open>Backend_Startup\<close>: the choice of the store and the runner of the migrations, each applied once.
  \<^item> \<open>Api_Schema\<close>, \<open>Status_Schema\<close>: the validation markers of src/api/v1alpha1; what the cluster admits
    compared with what the backend admits, and that every status written is admitted.
  \<^item> \<open>Go_Heap\<close>, \<open>Deep_Copy\<close>: the generated deep copies of src/api/v1alpha1/zz_generated.deepcopy.go over a
    heap of shared slices and pointers; locale \<open>copyable\<close> is their contract: the copy is deeply equal, lives
    in new memory and leaves the old memory alone. This is what lets every other theory treat the objects
    as values: a snapshot of a status keeps its value under every later write.

  \<^bold>\<open>How the model corresponds to the code.\<close> A Go function is a definition of the same name where Isabelle
  allows it; a method of a reconciler takes the platform, the client and the gateway it is built with. An
  error result is \<open>Inl\<close>. In-place updates of an object are updates of the record that is passed on. After a
  status write the code goes on with the object the server answered, and so does the model. A pass reads
  the clock several times; \<open>clock\<close> has one reading per program point, in no assumed order. \<open>reflect.DeepEqual\<close>
  of two statuses is equality of records, where a time keeps its location and a nil list of node states
  differs from an empty one.

  \<^bold>\<open>Bounds.\<close> No fuel is used: the recursion of the depth-first search is proved to terminate, the loop of
  the backend's \<open>_topological_order\<close> is a \<open>while_option\<close> proved to end, the polling of an external runtime is a
  partial function that \<open>external_execution_ends\<close> proves defined once the clock passes the deadline, every other loop
  is structural or counts down. Durations wrap at 64 bits (\<open>wrap64\<close>); a time to live is exact up to \<open>max_seconds\<close> and
  \<open>ttl_overflow_deletes_at_once\<close> shows what happens up to twice as many seconds, where the product wraps once. Response bodies are cut at 1 MiB (\<open>body_limit\<close>),
  error messages at 1024 bytes.

  \<^bold>\<open>Not modelled.\<close> Logging, and everything below the Kubernetes client, the manager of controller-runtime
  and the HTTP exchange, the byte syntax of JSON included. Of the backend,
  the exchanges with language models and external runtimes, which are services, the formatting and reading of
  floating-point numbers, infinite and undefined time-outs, and sleeping. A transaction of the PostgreSQL store is
  one atomic step: the interleaving of its statements under READ COMMITTED, the connection pool and the row-level
  security, which repeats the tenant condition every statement already carries, are left out. A text column holds
  every text without U+0000; its limit of one gigabyte, and the compression by which an index entry may hold a
  longer text than \<open>index_fits\<close> allows, are left out, too.
  Charts, manifests and build files are configuration.
\<close>


section \<open>Governance from end to end\<close>

text \<open>
  A record of admission: the status of \<open>agent\<close> is the one the Agent controller computed, for the same
  spec, generation and labels, when it validated \<open>agent0\<close> in some earlier world.
\<close>

definition admitted_by ::
  "platform \<Rightarrow> 'w kube \<Rightarrow> agent \<Rightarrow> 'w \<Rightarrow> agent \<Rightarrow> bool" where
  "admitted_by P K agent0 w0 agent \<longleftrightarrow>
     (\<exists>t v w1. validateAgent P K agent0 w0 = ((v, None), w1) \<and> ag_Status agent = agent_status_of P t agent0 v) \<and>
     ag_Spec agent = ag_Spec agent0 \<and> om_Generation (ag_Meta agent) = om_Generation (ag_Meta agent0) \<and>
     om_Labels (ag_Meta agent) = om_Labels (ag_Meta agent0)"

lemma admitted_ready_granted:
  assumes "admitted_by P K agent0 w0 agent" and "ags_Ready (ag_Status agent)"
  shows "\<exists>policy. policy_grants policy (map_get (om_Labels (ag_Meta agent)) TenantIDLabel) agent0"
proof -
  from assms(1) obtain t v w1 where v: "validateAgent P K agent0 w0 = ((v, None), w1)"
    and status: "ag_Status agent = agent_status_of P t agent0 v"
    and labels: "om_Labels (ag_Meta agent) = om_Labels (ag_Meta agent0)"
    by (auto simp: admitted_by_def)
  have "fst (fst (fst (validateAgent P K agent0 w0)))"
    using assms(2) by (cases v) (simp add: v status)
  then obtain tenant w2 policy where "tenantIDFor P K (ag_Meta agent0) w0 = (Inr tenant, w2)"
    and "policy_grants policy tenant agent0"
    unfolding validateAgent_ready by blast
  with labels show ?thesis by (auto simp: tenantIDFor_Inr)
qed

lemma validateReferences_agent:
  assumes "validateReferences P K run w = (Inr (tenant, agent), w')"
  shows "ags_Ready (ag_Status agent)"
    and "ags_ObservedGeneration (ag_Status agent) = om_Generation (ag_Meta agent)"
  using assms by (auto simp: validateReferences_def split: prod.splits sum.splits if_splits option.splits)

lemma submitted_model:
  "n \<in> set (rs_Nodes (submission_of run tenant agent)) \<Longrightarrow> rn_Model n = mr_Model (as_Model (ag_Spec agent))"
  by (auto simp: submission_of_def Let_def main_node_def project_node_def split: option.splits if_splits)

text \<open>
  C9. End to end: whatever the operator submits was granted. When the Agent of a run carries a status
  that the Agent controller computed for its present spec, every submission goes out under the tenant of
  a policy that was active when the Agent was admitted, and every node of it runs a model on the
  allowlist of that policy.
\<close>

theorem submitted_models_were_granted:
  assumes "EvSubmit s r \<in> set (pass_events P K G T request w)"
    and "fst (kGetAgentRun K request w) = Inr run" and "pass_refs P K run request w = Inr (tenant, agent)"
    and "admitted_by P K0 agent0 w0 agent"
  shows "\<exists>policy. policy_grants policy (rs_TenantID s) agent0 \<and>
     (\<lambda>n. mr_ProviderRef (as_Model (ag_Spec agent0)) @ ''/'' @ rn_Model n) ` set (rs_Nodes s)
       \<subseteq> set (tps_AllowedModels (tp_Spec policy))"
proof -
  obtain w1 where refs: "validateReferences P K run (snd (kGetAgentRun K request w)) = (Inr (tenant, agent), w1)"
    using assms(3) by (metis pass_refs_def prod.collapse)
  have s: "s = submission_of run tenant agent"
  proof -
    from read_pass [OF assms(2), of P T G] show ?thesis
    proof cases
      case deleted
      with deletion_gateway [OF deleted(2)] assms(1) show ?thesis by fastforce
    next
      case (resolved tenant' agent')
      with active_gateway [OF resolved(4)] assms(1,3) show ?thesis by (fastforce split: if_splits)
    qed (use assms(1) in auto)
  qed
  from admitted_ready_granted [OF assms(4) validateReferences_agent(1) [OF refs]]
    validateReferences_tenant(2) [OF refs]
  obtain policy where policy: "policy_grants policy tenant agent0" by auto
  moreover have "ag_Spec agent = ag_Spec agent0" using assms(4) by (simp add: admitted_by_def)
  ultimately show ?thesis
    by (intro exI [of _ policy]) (auto simp: s submitted_model policy_grants_def model_ref_of_def)
qed

text \<open>The Agent of the sample cluster, admitted under the sample policy.\<close>

definition admitted_agent :: agent where
  "admitted_agent = settled_agent"

definition admission_kube :: "unit kube" where
  "admission_kube = agent_kube (Inr sample_namespace) (Inr active_policy) settled_agent"

lemma admitted_agent_simps [simp]:
  "ag_Spec admitted_agent = ag_Spec sample_agent" "ag_Meta admitted_agent = ag_Meta sample_agent"
  by (simp_all add: admitted_agent_def settled_agent_def)

lemma admitted_sample: "admitted_by sample_platform admission_kube settled_agent () admitted_agent"
proof -
  have "ag_Status admitted_agent =
      agent_status_of sample_platform zero_time settled_agent
        (True, ''AgentReady'', ''agent references and tenant policy are valid'')"
    using agent_status_of_idem [of sample_platform sample_agent settled_agent zero_time
        "(True, ''AgentReady'', ''agent references and tenant policy are valid'')" zero_time]
    by (simp add: sample_set_cond_law conds_ok_def admitted_agent_def settled_agent_def)
       (simp add: sample_agent_def)
  with settled_agent_valid [of "()"] show ?thesis
    by (auto simp: admitted_by_def admission_kube_def admitted_agent_def)
qed

lemma admitted_refs:
  "pass_refs sample_platform (run_kube sample_run admitted_agent) sample_run sample_key () =
     Inr (sample_tenant, admitted_agent)"
proof -
  have "tenantIDFor sample_platform (run_kube sample_run admitted_agent) (run_Meta sample_run) () =
      (Inr sample_tenant, ())"
    by (simp add: tenantIDFor_def Let_def)
  moreover have "map_get (om_Labels (ag_Meta sample_agent)) TenantIDLabel = sample_tenant"
    and "om_Generation (ag_Meta sample_agent) = 1"
    by (simp_all add: sample_agent_def)
  moreover have "ags_Ready (ag_Status admitted_agent)" "ags_ObservedGeneration (ag_Status admitted_agent) = 1"
    by (simp_all add: admitted_agent_def settled_agent_def agent_status_of_def Let_def) (simp add: sample_agent_def)
  ultimately show ?thesis
    by (simp add: pass_refs_def validateReferences_def sample_dag_accepted)
qed

lemma admitted_submission:
  "EvSubmit (submission_of sample_run sample_tenant admitted_agent) (Inl NoRunID) \<in>
     set (pass_events sample_platform (run_kube sample_run admitted_agent) (fixed_gateway (Inl NoRunID))
       sample_clock sample_key ())"
proof -
  have "validateReferences sample_platform (run_kube sample_run admitted_agent) sample_run () =
      (Inr (sample_tenant, admitted_agent), ())"
    using admitted_refs by (simp add: pass_refs_def prod_eq_iff)
  then show ?thesis
    by (simp add: pass_events_def Reconcile_def dispatch_def reconcileSubmit_def gatewayFailure_def
        update_status_then_def)
qed

theorem submitted_models_were_granted_witness:
  "\<exists>policy. policy_grants policy sample_tenant settled_agent"
  using submitted_models_were_granted [OF admitted_submission _ admitted_refs admitted_sample] by auto

end
